theory Spec2Isabelle
  imports Complex_Main
begin

section \<open>Numeric model\<close>

text \<open>
  The solver (\<^verbatim>\<open>src/src/solver.cpp\<close>) computes with C++ \<^verbatim>\<open>double\<close>. Two kinds of
  arithmetic occur:
  \<^item> the loop control of both integrators (\<^verbatim>\<open>t += config.timeStep\<close>,
    \<^verbatim>\<open>tDisplay += config.timeStep\<close>) and the test that puts a node into a source's index
    vector (lines 92 to 94) decide by a comparison of doubles how many iterations run, which
    of them emit a snapshot and which nodes a source writes. These computations are
    modelled with IEEE 754 binary64 rounding (round to nearest, ties to even): a double is
    the real number it denotes, and \<open>dadd\<close>, \<open>dsub\<close> and \<open>dsq\<close> round the exact
    sum, difference and square to 53 significant bits. Overflow, underflow, NaN and the
    sign of zero are outside the model;
  \<^item> the field values (\<^verbatim>\<open>sin\<close>, the BLAS-style kernels of \<^verbatim>\<open>utils.h\<close>, the mesh's
    stiffness and flux vectors) are computed by libraries that are not part of the source
    file. They are modelled over the real numbers.
\<close>

function bitlen :: "int \<Rightarrow> int" where
  "bitlen n = (if n \<le> 0 then 0 else 1 + bitlen (n div 2))"
  by pat_completeness auto
termination
  by (relation "measure nat") auto

declare bitlen.simps [simp del]

definition pow2 :: "int \<Rightarrow> real" where
  "pow2 k = (if 0 \<le> k then 2 ^ nat k else 1 / 2 ^ nat (- k))"

text \<open>The binary exponent of a non-zero real: \<open>pow2 (expo x) \<le> \<bar>x\<bar> < pow2 (expo x + 1)\<close>.\<close>

definition expo :: "real \<Rightarrow> int" where
  "expo x =
     (if 1 \<le> \<bar>x\<bar> then bitlen \<lfloor>\<bar>x\<bar>\<rfloor> - 1
      else - bitlen (\<lceil>1 / \<bar>x\<bar>\<rceil> - 1))"

text \<open>Round to the nearest integer, ties to the even one.\<close>

definition rne :: "real \<Rightarrow> int" where
  "rne x =
     (let f = \<lfloor>x\<rfloor>; r = x - of_int f
      in if r < 1 / 2 then f
         else if 1 / 2 < r then f + 1
         else if even f then f else f + 1)"

text \<open>Rounding of a real to binary64: 53 significant bits.\<close>

definition rnd53 :: "real \<Rightarrow> real" where
  "rnd53 x =
     (if x = 0 then 0
      else (let q = pow2 (expo x - 52) in of_int (rne (x / q)) * q))"

text \<open>The C++ \<^verbatim>\<open>a + b\<close> (and \<^verbatim>\<open>a += b\<close>) on doubles.\<close>

definition dadd :: "real \<Rightarrow> real \<Rightarrow> real" where
  "dadd a b = rnd53 (a + b)"

text \<open>The C++ \<^verbatim>\<open>a - b\<close> on doubles.\<close>

definition dsub :: "real \<Rightarrow> real \<Rightarrow> real" where
  "dsub a b = rnd53 (a - b)"

text \<open>
  \<^verbatim>\<open>pow(x, 2)\<close> on a double: the correctly rounded square, which is what \<^verbatim>\<open>x * x\<close>
  computes and what a compiler puts in place of the call.
\<close>

definition dsq :: "real \<Rightarrow> real" where
  "dsq x = rnd53 (x * x)"

text \<open>A real number is a double when rounding leaves it unchanged.\<close>

definition isDouble :: "real \<Rightarrow> bool" where
  "isDouble x \<longleftrightarrow> rnd53 x = x"

section \<open>Linear-algebra primitives\<close>

text \<open>
  A \<^verbatim>\<open>double *\<close> argument is modelled by the list of the cells from the pointer
  onwards; a kernel that works on the first \<open>N\<close> cells returns the list with these
  cells replaced. \<open>at_ptr off f v\<close> runs such a kernel on \<^verbatim>\<open>&v[off]\<close>.
\<close>

definition at_ptr :: "nat \<Rightarrow> ('a list \<Rightarrow> 'a list) \<Rightarrow> 'a list \<Rightarrow> 'a list" where
  "at_ptr off f v = take off v @ f (drop off v)"

text \<open>
  Modelled from the spec: \<^verbatim>\<open>eigen::minus\<close> of \<^verbatim>\<open>utils.h\<close>, which is not among the
  sources. The spec (4.1): "\<^verbatim>\<open>minus\<close> is element-wise subtraction of two
  length-\<^verbatim>\<open>elNumNodes\<close> vectors", the result stored in the first one
  (\<^verbatim>\<open>residual = stiffness - ElementFlux(el)\<close>).
\<close>

definition minus_v :: "real list \<Rightarrow> real list \<Rightarrow> nat \<Rightarrow> real list" where
  "minus_v A B N = map (\<lambda>i. if i < N then A ! i - B ! i else A ! i) [0..<length A]"

text \<open>
  Modelled from the spec: \<^verbatim>\<open>eigen::plusTimes\<close> of \<^verbatim>\<open>utils.h\<close>, which is not among the
  sources. The spec (4.3) describes the call \<^verbatim>\<open>plusTimes(k2, k1, 0.5, numNodes)\<close> as
  "set \<^verbatim>\<open>k2 = k1 * 0.5\<close> pointwise" and \<^verbatim>\<open>plusTimes(k4, k3, 1, numNodes)\<close> as
  "\<^verbatim>\<open>k4 = k3 * 1\<close> (identity copy)": the first \<open>N\<close> cells of \<open>A\<close> are set to those of
  \<open>B\<close> times \<open>c\<close>.
\<close>

definition plusTimes :: "real list \<Rightarrow> real list \<Rightarrow> real \<Rightarrow> nat \<Rightarrow> real list" where
  "plusTimes A B c N = map (\<lambda>i. if i < N then B ! i * c else A ! i) [0..<length A]"

text \<open>
  Modelled from the spec: \<^verbatim>\<open>eigen::linEq\<close> of \<^verbatim>\<open>utils.h\<close>, which is not among the
  sources. The spec (4.1):
  \<^verbatim>\<open>u[eq][el-block] = dt * MassMatrixInverse(el) * residual + beta * u[eq][el-block]\<close>,
  a dense \<open>N \<times> N\<close> matrix applied to a vector. \<open>A\<close> is the matrix stored by
  \<^verbatim>\<open>mesh.elMassMatrix(el)\<close> (the inverted mass matrix), flat and row by row.
\<close>

definition matvec :: "real list \<Rightarrow> real list \<Rightarrow> nat \<Rightarrow> nat \<Rightarrow> real" where
  "matvec A X N i = (\<Sum>j\<leftarrow>[0..<N]. A ! (i * N + j) * X ! j)"

definition linEq :: "real list \<Rightarrow> real list \<Rightarrow> real list \<Rightarrow> real \<Rightarrow> real \<Rightarrow> nat \<Rightarrow> real list" where
  "linEq A X Y alpha beta N =
     map (\<lambda>i. if i < N then alpha * matvec A X N i + beta * Y ! i else Y ! i) [0..<length Y]"

section \<open>Collaborators: mesh and configuration\<close>

text \<open>
  \<^verbatim>\<open>Mesh.h\<close>, \<^verbatim>\<open>configParser.h\<close> and gmsh are not among the sources. The mesh is an
  object with hidden state \<open>'m\<close>; its methods are the fields of \<open>Mesh\<close>, each taking
  the state. Methods that only read return a value; \<^verbatim>\<open>precomputeFlux\<close>,
  \<^verbatim>\<open>updateFlux\<close> and \<^verbatim>\<open>precomputeMassMatrix\<close> return the new state
  (\<^verbatim>\<open>updateFlux\<close> also the flux tensor it fills). \<open>getNode m n\<close> is the coordinate
  vector that \<^verbatim>\<open>gmsh::model::mesh::getNode(mesh.getElNodeTags()[n], coord, paramCoord)\<close>
  stores in \<^verbatim>\<open>coord\<close>.
\<close>

record 'm Mesh =
  getElNum :: "'m \<Rightarrow> nat"
  getElNumNodes :: "'m \<Rightarrow> nat"
  getNumNodes :: "'m \<Rightarrow> nat"
  elTag :: "'m \<Rightarrow> nat \<Rightarrow> int"
  elMassMatrix :: "'m \<Rightarrow> nat \<Rightarrow> real list"
  getElFlux :: "'m \<Rightarrow> nat \<Rightarrow> real list"
  getElStiffVector :: "'m \<Rightarrow> nat \<Rightarrow> real list list \<Rightarrow> real list \<Rightarrow> real list"
  precomputeFlux :: "'m \<Rightarrow> real list \<Rightarrow> real list list \<Rightarrow> nat \<Rightarrow> 'm"
  updateFlux :: "'m \<Rightarrow> real list list \<Rightarrow> real list list list \<Rightarrow> real \<Rightarrow> real \<Rightarrow> real
                  \<Rightarrow> 'm \<times> real list list list"
  precomputeMassMatrix :: "'m \<Rightarrow> 'm"
  getNode :: "'m \<Rightarrow> nat \<Rightarrow> real list"

text \<open>
  \<^verbatim>\<open>Config\<close>: a source is the vector
  \<^verbatim>\<open>[_, x, y, z, radius, amplitude, frequency, phase, duration]\<close>.
\<close>

record config =
  timeStart :: real
  timeEnd :: real
  timeStep :: real
  timeRate :: real
  c0 :: real
  v0 :: real
  rho0 :: real
  numThreads :: nat
  saveFile :: string
  sources :: "real list list"

section \<open>The per-element update kernel\<close>

text \<open>
  The body of the element loop of \<^verbatim>\<open>numStep\<close> (lines 44 to 48) for equation \<open>eq\<close> and
  element \<open>el\<close>; \<open>N\<close> is the global \<^verbatim>\<open>elNumNodes\<close>, \<open>Fl\<close> the flux tensor. The
  OpenMP loop is modelled sequentially, elements in increasing order.
\<close>

definition elStep ::
  "'m Mesh \<Rightarrow> config \<Rightarrow> nat \<Rightarrow> real \<Rightarrow> real list list list \<Rightarrow> 'm \<Rightarrow> nat \<Rightarrow> nat
     \<Rightarrow> real list list \<Rightarrow> real list list" where
  "elStep ops cfg N beta Fl m eq el u =
     (let elFlux = getElFlux ops m el;
          elStiffvector = getElStiffVector ops m el (Fl ! eq) (u ! eq);
          elStiffvector = minus_v elStiffvector elFlux N
      in u[eq := at_ptr (el * N)
                   (\<lambda>Y. linEq (elMassMatrix ops m el) elStiffvector Y (timeStep cfg) beta N)
                   (u ! eq)])"

text \<open>One round of the equation loop (lines 39 to 49).\<close>

definition eqStep ::
  "'m Mesh \<Rightarrow> config \<Rightarrow> nat \<Rightarrow> real \<Rightarrow> real list list list \<Rightarrow> nat
     \<Rightarrow> 'm \<times> real list list \<Rightarrow> 'm \<times> real list list" where
  "eqStep ops cfg N beta Fl eq mu =
     (let m = precomputeFlux ops (fst mu) (snd mu ! eq) (Fl ! eq) eq
      in (m, fold (elStep ops cfg N beta Fl m eq) [0..<getElNum ops m] (snd mu)))"

definition numStep ::
  "'m Mesh \<Rightarrow> config \<Rightarrow> nat \<Rightarrow> real \<Rightarrow> real list list list
     \<Rightarrow> 'm \<times> real list list \<Rightarrow> 'm \<times> real list list" where
  "numStep ops cfg N beta Fl mu = fold (eqStep ops cfg N beta Fl) [0..<4] mu"

text \<open>
  The intermediate states of \<^verbatim>\<open>numStep\<close>: \<open>eqState \<dots> mu eq\<close> is the mesh state and
  solution when the equation loop reaches \<open>eq\<close>, and \<open>elState \<dots> mu eq el\<close> the mesh state
  (after \<^verbatim>\<open>precomputeFlux\<close> for \<open>eq\<close>) and solution when the element loop of equation
  \<open>eq\<close> reaches \<open>el\<close>.
\<close>

definition eqState ::
  "'m Mesh \<Rightarrow> config \<Rightarrow> nat \<Rightarrow> real \<Rightarrow> real list list list \<Rightarrow> 'm \<times> real list list \<Rightarrow> nat
     \<Rightarrow> 'm \<times> real list list" where
  "eqState ops cfg N beta Fl mu eq = fold (eqStep ops cfg N beta Fl) [0..<eq] mu"

definition elState ::
  "'m Mesh \<Rightarrow> config \<Rightarrow> nat \<Rightarrow> real \<Rightarrow> real list list list \<Rightarrow> 'm \<times> real list list \<Rightarrow> nat \<Rightarrow> nat
     \<Rightarrow> 'm \<times> real list list" where
  "elState ops cfg N beta Fl mu eq el =
     (let mu' = eqState ops cfg N beta Fl mu eq;
          m = precomputeFlux ops (fst mu') (snd mu' ! eq) (Fl ! eq) eq
      in (m, fold (elStep ops cfg N beta Fl m eq) [0..<el] (snd mu')))"

section \<open>Output sink and solver state\<close>

text \<open>
  The calls to the output sink, in the order they are made:
  \<^verbatim>\<open>gmsh::view::addModelData(view, step, _, "ElementNodeData", elTags, data, t, numComp)\<close>,
  \<^verbatim>\<open>gmsh::logger::write\<close> (simulated time, end time and step; the wall-clock part of
  the line is left out) and \<^verbatim>\<open>gmsh::view::write(view, config.saveFile, true)\<close>.
\<close>

datatype event =
    AddModelData string nat "int list" "real list list" real nat
  | LoggerWrite real real nat
  | ViewWrite string string

text \<open>
  The variables of a run: the loop variables \<^verbatim>\<open>t\<close>, \<^verbatim>\<open>step\<close>, \<^verbatim>\<open>tDisplay\<close>, the
  solution \<^verbatim>\<open>u\<close>, the global \<^verbatim>\<open>Flux\<close>, the mesh's state and the calls made to the
  sink so far. \<^verbatim>\<open>step\<close> is a \<^verbatim>\<open>double\<close> that counts up from 0 by 1; it is exact
  below \<open>2^53\<close> and modelled as a natural number.
\<close>

record 'm state =
  st_t :: real
  st_step :: nat
  st_tDisplay :: real
  st_u :: "real list list"
  st_Flux :: "real list list list"
  st_mesh :: 'm
  st_out :: "event list"

text \<open>The globals set at the top of each integrator (lines 64 to 66).\<close>

record globals =
  elNumNodes :: nat
  numNodes :: nat
  elTags :: "int list"

definition initGlobals :: "'m Mesh \<Rightarrow> 'm \<Rightarrow> globals" where
  "initGlobals ops m =
     \<lparr>elNumNodes = getElNumNodes ops m, numNodes = getNumNodes ops m,
      elTags = map (elTag ops m) [0..<getElNum ops m]\<rparr>"

section \<open>Source node sets\<close>

text \<open>
  Lines 92 to 94 (and 203 to 205): the test on one node's coordinates, in double
  arithmetic. The three squares are added from left to right.
\<close>

definition inSource :: "real list \<Rightarrow> real list \<Rightarrow> bool" where
  "inSource coord src \<longleftrightarrow>
     dadd (dadd (dsq (dsub (coord ! 0) (src ! 1))) (dsq (dsub (coord ! 1) (src ! 2))))
          (dsq (dsub (coord ! 2) (src ! 3)))
       < dsq (src ! 4)"

text \<open>Lines 86 to 99 (and 197 to 210): one index vector per source, nodes in increasing order.\<close>

definition sourceIndices :: "'m Mesh \<Rightarrow> 'm \<Rightarrow> config \<Rightarrow> nat list list" where
  "sourceIndices ops m cfg =
     map (\<lambda>src. filter (\<lambda>n. inSource (getNode ops m n) src) [0..<getNumNodes ops m])
       (sources cfg)"

section \<open>The stages of a time-loop iteration\<close>

text \<open>Lines 115 to 124: the solution repacked element by element.\<close>

definition packField :: "'m Mesh \<Rightarrow> 'm \<Rightarrow> nat \<Rightarrow> (nat \<Rightarrow> real list) \<Rightarrow> real list list" where
  "packField ops m N f =
     map (\<lambda>el. concat (map (\<lambda>n. f (el * N + n)) [0..<getElNumNodes ops m]))
       [0..<getElNum ops m]"

text \<open>Lines 112 to 133: the body of the snapshot branch.\<close>

definition saveStep :: "'m Mesh \<Rightarrow> config \<Rightarrow> globals \<Rightarrow> 'm state \<Rightarrow> 'm state" where
  "saveStep ops cfg g s =
     (let u = st_u s; m = st_mesh s; N = elNumNodes g;
          g_p = packField ops m N (\<lambda>elN. [u ! 0 ! elN]);
          g_rho = packField ops m N (\<lambda>elN. [u ! 0 ! elN / (c0 cfg * c0 cfg)]);
          g_v = packField ops m N (\<lambda>elN. [u ! 1 ! elN, u ! 2 ! elN, u ! 3 ! elN])
      in s\<lparr>st_tDisplay := 0,
           st_out := st_out s @
             [AddModelData ''Pressure'' (st_step s) (elTags g) g_p (st_t s) 1,
              AddModelData ''Density'' (st_step s) (elTags g) g_rho (st_t s) 1,
              AddModelData ''Velocity'' (st_step s) (elTags g) g_v (st_t s) 3,
              LoggerWrite (st_t s) (timeEnd cfg) (st_step s)]\<rparr>)"

text \<open>Line 111 (and 222): \<^verbatim>\<open>if(tDisplay>=config.timeRate || step==0)\<close>.\<close>

definition snapshotCheck :: "'m Mesh \<Rightarrow> config \<Rightarrow> globals \<Rightarrow> 'm state \<Rightarrow> 'm state" where
  "snapshotCheck ops cfg g s =
     (if timeRate cfg \<le> st_tDisplay s \<or> st_step s = 0 then saveStep ops cfg g s else s)"

text \<open>Lines 140 to 146 (and 249 to 255): one round of the source loop.\<close>

definition injectSource :: "real \<Rightarrow> real list \<Rightarrow> nat list \<Rightarrow> real list list \<Rightarrow> real list list" where
  "injectSource t src idx u =
     (let amp = src ! 5; freq = src ! 6; phase = src ! 7; duration = src ! 8
      in if t < duration
         then fold (\<lambda>n u. u[0 := (u ! 0)[n := amp * sin (2 * pi * freq * t + phase)]]) idx u
         else u)"

text \<open>Lines 139 to 147 (and 248 to 256): the source loop.\<close>

definition updateSource :: "config \<Rightarrow> nat list list \<Rightarrow> real \<Rightarrow> real list list \<Rightarrow> real list list" where
  "updateSource cfg srcIndices t u =
     fold (\<lambda>src u. injectSource t (sources cfg ! src) (srcIndices ! src) u)
       [0..<length (sources cfg)] u"

text \<open>
  The increment of the \<^verbatim>\<open>for\<close> statement (lines 106 and 217):
  \<^verbatim>\<open>t+=config.timeStep, tDisplay+=config.timeStep, ++step\<close>.
\<close>

definition advance :: "config \<Rightarrow> 'm state \<Rightarrow> 'm state" where
  "advance cfg s =
     s\<lparr>st_t := dadd (st_t s) (timeStep cfg),
       st_tDisplay := dadd (st_tDisplay s) (timeStep cfg),
       st_step := Suc (st_step s)\<rparr>"

section \<open>The time loop\<close>

text \<open>
  \<^verbatim>\<open>for(...; cond; incr) body\<close>, where \<open>body\<close> below is the loop body followed by the
  increment. The loop need not terminate: no result is \<open>None\<close>.
\<close>

partial_function (option) timeLoop :: "('s \<Rightarrow> bool) \<Rightarrow> ('s \<Rightarrow> 's) \<Rightarrow> 's \<Rightarrow> 's option" where
  "timeLoop cond body s = (if cond s then timeLoop cond body (body s) else Some s)"

text \<open>Lines 158 to 160 (and 289 to 291).\<close>

definition saveToFile :: "config \<Rightarrow> 'm state \<Rightarrow> 'm state" where
  "saveToFile cfg s =
     s\<lparr>st_out := st_out s @
         [ViewWrite ''Pressure'' (saveFile cfg), ViewWrite ''Density'' (saveFile cfg),
          ViewWrite ''Velocity'' (saveFile cfg)]\<rparr>"

text \<open>Lines 64 to 99: the state in which the time loop is entered.\<close>

definition initState :: "'m Mesh \<Rightarrow> config \<Rightarrow> 'm \<Rightarrow> real list list \<Rightarrow> 'm state" where
  "initState ops cfg m u =
     \<lparr>st_t = timeStart cfg, st_step = 0, st_tDisplay = 0, st_u = u,
      st_Flux = replicate 4 (replicate (getNumNodes ops m) (replicate 3 0)),
      st_mesh = precomputeMassMatrix ops m, st_out = []\<rparr>"

section \<open>Forward Euler\<close>

text \<open>Lines 152 and 153: flux refresh and one \<^verbatim>\<open>numStep\<close> with \<open>beta = 1\<close>.\<close>

definition eulerUpdate ::
  "'m Mesh \<Rightarrow> config \<Rightarrow> globals \<Rightarrow> 'm \<Rightarrow> real list list list \<Rightarrow> real list list
     \<Rightarrow> 'm \<times> real list list list \<times> real list list" where
  "eulerUpdate ops cfg g m Fl u =
     (let mF = updateFlux ops m u Fl (v0 cfg) (c0 cfg) (rho0 cfg);
          mu = numStep ops cfg (elNumNodes g) 1 (snd mF) (fst mF, u)
      in (fst mu, snd mF, snd mu))"

text \<open>Lines 108 to 154 followed by the loop increment.\<close>

definition eulerIter :: "'m Mesh \<Rightarrow> config \<Rightarrow> globals \<Rightarrow> nat list list \<Rightarrow> 'm state \<Rightarrow> 'm state" where
  "eulerIter ops cfg g srcIndices s =
     (let s1 = snapshotCheck ops cfg g s;
          u1 = updateSource cfg srcIndices (st_t s1) (st_u s1);
          r = eulerUpdate ops cfg g (st_mesh s1) (st_Flux s1) u1
      in advance cfg (s1\<lparr>st_u := snd (snd r), st_Flux := fst (snd r), st_mesh := fst r\<rparr>))"

definition forwardEuler :: "'m Mesh \<Rightarrow> config \<Rightarrow> 'm \<Rightarrow> real list list \<Rightarrow> 'm state option" where
  "forwardEuler ops cfg m u =
     (let g = initGlobals ops m;
          s0 = initState ops cfg m u;
          srcIndices = sourceIndices ops (st_mesh s0) cfg
      in map_option (saveToFile cfg)
           (timeLoop (\<lambda>s. st_t s \<le> timeEnd cfg) (eulerIter ops cfg g srcIndices) s0))"

section \<open>Runge-Kutta\<close>

text \<open>
  The loops \<^verbatim>\<open>for(int eq=0; eq<u.size(); ++eq) eigen::plusTimes(A[eq].data(), B[eq].data(), c, numNodes)\<close>
  of lines 265, 270 and 275; \<open>n\<close> is \<^verbatim>\<open>u.size()\<close>.
\<close>

definition plusTimesAll ::
  "nat \<Rightarrow> real list list \<Rightarrow> real list list \<Rightarrow> real \<Rightarrow> nat \<Rightarrow> real list list" where
  "plusTimesAll n A B c nn =
     fold (\<lambda>eq A. A[eq := plusTimes (A ! eq) (B ! eq) c nn]) [0..<n] A"

text \<open>One stage: flux refresh from \<open>k\<close>, then \<^verbatim>\<open>numStep(mesh, config, k, Flux, 0)\<close>.\<close>

definition rkStage ::
  "'m Mesh \<Rightarrow> config \<Rightarrow> globals \<Rightarrow> 'm \<times> real list list list \<Rightarrow> real list list
     \<Rightarrow> ('m \<times> real list list list) \<times> real list list" where
  "rkStage ops cfg g mF k =
     (let mF1 = updateFlux ops (fst mF) k (snd mF) (v0 cfg) (c0 cfg) (rho0 cfg);
          mk = numStep ops cfg (elNumNodes g) 0 (snd mF1) (fst mF1, k)
      in ((fst mk, snd mF1), snd mk))"

text \<open>Lines 261 to 279: the four stages; the result carries \<^verbatim>\<open>k1\<close> to \<^verbatim>\<open>k4\<close>.\<close>

definition rkStages ::
  "'m Mesh \<Rightarrow> config \<Rightarrow> globals \<Rightarrow> 'm \<times> real list list list \<Rightarrow> real list list
     \<Rightarrow> ('m \<times> real list list list) \<times> real list list \<times> real list list \<times> real list list \<times> real list list" where
  "rkStages ops cfg g mF u =
     (let k1 = u; k2 = u; k3 = u; k4 = u;
          r1 = rkStage ops cfg g mF k1;
          k1 = snd r1;
          k2 = plusTimesAll (length u) k2 k1 (1 / 2) (numNodes g);
          r2 = rkStage ops cfg g (fst r1) k2;
          k2 = snd r2;
          k3 = plusTimesAll (length u) k3 k2 (1 / 2) (numNodes g);
          r3 = rkStage ops cfg g (fst r2) k3;
          k3 = snd r3;
          k4 = plusTimesAll (length u) k4 k3 1 (numNodes g);
          r4 = rkStage ops cfg g (fst r3) k4;
          k4 = snd r4
      in (fst r4, k1, k2, k3, k4))"

text \<open>Lines 281 to 285: the combination of the stages into \<^verbatim>\<open>u\<close>.\<close>

definition rkCombine ::
  "nat \<Rightarrow> real list list \<Rightarrow> real list list \<Rightarrow> real list list \<Rightarrow> real list list \<Rightarrow> real list list
     \<Rightarrow> real list list" where
  "rkCombine nn u k1 k2 k3 k4 =
     fold (\<lambda>eq u.
        fold (\<lambda>i u. u[eq := (u ! eq)[i := u ! eq ! i +
                (k1 ! eq ! i + 2 * k2 ! eq ! i + 2 * k3 ! eq ! i + k4 ! eq ! i) / 6]])
          [0..<nn] u)
       [0..<length u] u"

definition rkUpdate ::
  "'m Mesh \<Rightarrow> config \<Rightarrow> globals \<Rightarrow> 'm \<Rightarrow> real list list list \<Rightarrow> real list list
     \<Rightarrow> 'm \<times> real list list list \<times> real list list" where
  "rkUpdate ops cfg g m Fl u =
     (case rkStages ops cfg g (m, Fl) u of
        (mF, k1, k2, k3, k4) \<Rightarrow> (fst mF, snd mF, rkCombine (numNodes g) u k1 k2 k3 k4))"

text \<open>Lines 219 to 285 followed by the loop increment.\<close>

definition rkIter :: "'m Mesh \<Rightarrow> config \<Rightarrow> globals \<Rightarrow> nat list list \<Rightarrow> 'm state \<Rightarrow> 'm state" where
  "rkIter ops cfg g srcIndices s =
     (let s1 = snapshotCheck ops cfg g s;
          u1 = updateSource cfg srcIndices (st_t s1) (st_u s1);
          r = rkUpdate ops cfg g (st_mesh s1) (st_Flux s1) u1
      in advance cfg (s1\<lparr>st_u := snd (snd r), st_Flux := fst (snd r), st_mesh := fst r\<rparr>))"

definition rungeKutta :: "'m Mesh \<Rightarrow> config \<Rightarrow> 'm \<Rightarrow> real list list \<Rightarrow> 'm state option" where
  "rungeKutta ops cfg m u =
     (let g = initGlobals ops m;
          s0 = initState ops cfg m u;
          srcIndices = sourceIndices ops (st_mesh s0) cfg
      in map_option (saveToFile cfg)
           (timeLoop (\<lambda>s. st_t s \<le> timeEnd cfg) (rkIter ops cfg g srcIndices) s0))"

section \<open>Loop control as sequences\<close>

text \<open>
  The values of the loop variables at the head of iteration \<open>k\<close> (counted from 0):
  \<open>tAt cfg k\<close> is \<^verbatim>\<open>t\<close> and \<open>dispAt cfg k\<close> is \<^verbatim>\<open>tDisplay\<close>; \<open>due cfg k\<close> says
  that the test of line 111 succeeds there.
\<close>

fun tAt :: "config \<Rightarrow> nat \<Rightarrow> real" where
  "tAt cfg 0 = timeStart cfg"
| "tAt cfg (Suc k) = dadd (tAt cfg k) (timeStep cfg)"

fun dispAt :: "config \<Rightarrow> nat \<Rightarrow> real" where
  "dispAt cfg 0 = 0"
| "dispAt cfg (Suc k) =
     dadd (if timeRate cfg \<le> dispAt cfg k \<or> k = 0 then 0 else dispAt cfg k) (timeStep cfg)"

definition due :: "config \<Rightarrow> nat \<Rightarrow> bool" where
  "due cfg k \<longleftrightarrow> timeRate cfg \<le> dispAt cfg k \<or> k = 0"

text \<open>
  The same sequences computed front to back from the current values of the loop
  variables, as the loop does: \<open>tFrom cfg t n\<close> lists \<^verbatim>\<open>t\<close> at the next \<open>n\<close>
  iterations, \<open>dueFrom cfg k d n\<close> the steps among the next \<open>n\<close> at which the test of
  line 111 succeeds, from step \<open>k\<close> with \<^verbatim>\<open>tDisplay = d\<close>.
\<close>

fun tFrom :: "config \<Rightarrow> real \<Rightarrow> nat \<Rightarrow> real list" where
  "tFrom cfg t 0 = []"
| "tFrom cfg t (Suc n) = t # tFrom cfg (dadd t (timeStep cfg)) n"

fun dueFrom :: "config \<Rightarrow> nat \<Rightarrow> real \<Rightarrow> nat \<Rightarrow> nat list" where
  "dueFrom cfg k d 0 = []"
| "dueFrom cfg k d (Suc n) =
     (if timeRate cfg \<le> d \<or> k = 0 then k # dueFrom cfg (Suc k) (dadd 0 (timeStep cfg)) n
      else dueFrom cfg (Suc k) (dadd d (timeStep cfg)) n)"

text \<open>The step indices of the snapshots handed to the sink, one per pressure layer.\<close>

fun snapshotSteps :: "event list \<Rightarrow> nat list" where
  "snapshotSteps [] = []"
| "snapshotSteps (AddModelData v k tags d t c # es) =
     (if v = ''Pressure'' then k # snapshotSteps es else snapshotSteps es)"
| "snapshotSteps (e # es) = snapshotSteps es"

text \<open>The pressure layers handed to the sink: step, simulated time and data.\<close>

fun pressureLayers :: "event list \<Rightarrow> (nat \<times> real \<times> real list list) list" where
  "pressureLayers [] = []"
| "pressureLayers (AddModelData v k tags d t c # es) =
     (if v = ''Pressure'' then (k, t, d) # pressureLayers es else pressureLayers es)"
| "pressureLayers (e # es) = pressureLayers es"

text \<open>
  The state at the head of iteration \<open>k\<close> of each integrator: \<open>k\<close> rounds of the loop
  body and increment from the state in which the loop is entered.
\<close>

definition eulerState :: "'m Mesh \<Rightarrow> config \<Rightarrow> 'm \<Rightarrow> real list list \<Rightarrow> nat \<Rightarrow> 'm state" where
  "eulerState ops cfg m u k =
     ((eulerIter ops cfg (initGlobals ops m)
         (sourceIndices ops (st_mesh (initState ops cfg m u)) cfg)) ^^ k)
       (initState ops cfg m u)"

definition rkState :: "'m Mesh \<Rightarrow> config \<Rightarrow> 'm \<Rightarrow> real list list \<Rightarrow> nat \<Rightarrow> 'm state" where
  "rkState ops cfg m u k =
     ((rkIter ops cfg (initGlobals ops m)
         (sourceIndices ops (st_mesh (initState ops cfg m u)) cfg)) ^^ k)
       (initState ops cfg m u)"

section \<open>Notions used to state the properties\<close>

text \<open>
  The iteration count as the specification words it:
  \<open>floor((timeEnd - timeStart) / timeStep) + 1\<close>, and none when the start lies after the end.
\<close>

definition specIterations :: "config \<Rightarrow> nat" where
  "specIterations cfg =
     (if timeStart cfg \<le> timeEnd cfg
      then nat \<lfloor>(timeEnd cfg - timeStart cfg) / timeStep cfg\<rfloor> + 1 else 0)"

text \<open>
  The first \<open>n\<close> additions \<^verbatim>\<open>t += timeStep\<close> are exact: the double sum is the real sum.
\<close>

definition exactSteps :: "config \<Rightarrow> nat \<Rightarrow> bool" where
  "exactSteps cfg n \<longleftrightarrow>
     (\<forall>k \<in> set [0..<n]. dadd (timeStart cfg + real k * timeStep cfg) (timeStep cfg)
                          = timeStart cfg + real (Suc k) * timeStep cfg)"

text \<open>
  Starting from 0, the first \<open>p\<close> additions \<^verbatim>\<open>tDisplay += timeStep\<close> are exact.
\<close>

definition exactAccum :: "config \<Rightarrow> nat \<Rightarrow> bool" where
  "exactAccum cfg p \<longleftrightarrow>
     (\<forall>k \<in> set [0..<p]. dadd (real k * timeStep cfg) (timeStep cfg) = real (Suc k) * timeStep cfg)"

text \<open>
  The squared Euclidean distance from a node's coordinates to a source's centre, as a real
  number.
\<close>

definition sqDist :: "real list \<Rightarrow> real list \<Rightarrow> real" where
  "sqDist coord src =
     (coord ! 0 - src ! 1)\<^sup>2 + (coord ! 1 - src ! 2)\<^sup>2 + (coord ! 2 - src ! 3)\<^sup>2"

text \<open>
  The test of lines 92 to 94 on these coordinates incurs no rounding error: each of the
  three differences, the four squares and the two sums is the exact real result.
\<close>

definition exactSquares :: "real list \<Rightarrow> real list \<Rightarrow> bool" where
  "exactSquares coord src \<longleftrightarrow>
     dsub (coord ! 0) (src ! 1) = coord ! 0 - src ! 1
     \<and> dsub (coord ! 1) (src ! 2) = coord ! 1 - src ! 2
     \<and> dsub (coord ! 2) (src ! 3) = coord ! 2 - src ! 3
     \<and> dsq (coord ! 0 - src ! 1) = (coord ! 0 - src ! 1)\<^sup>2
     \<and> dsq (coord ! 1 - src ! 2) = (coord ! 1 - src ! 2)\<^sup>2
     \<and> dsq (coord ! 2 - src ! 3) = (coord ! 2 - src ! 3)\<^sup>2
     \<and> dsq (src ! 4) = (src ! 4)\<^sup>2
     \<and> dadd ((coord ! 0 - src ! 1)\<^sup>2) ((coord ! 1 - src ! 2)\<^sup>2)
         = (coord ! 0 - src ! 1)\<^sup>2 + (coord ! 1 - src ! 2)\<^sup>2
     \<and> dadd ((coord ! 0 - src ! 1)\<^sup>2 + (coord ! 1 - src ! 2)\<^sup>2) ((coord ! 2 - src ! 3)\<^sup>2)
         = sqDist coord src"

text \<open>
  The stage sequence as the specification words it (4.3): \<open>k2\<close> is \<open>k1 * 0.5\<close>
  pointwise, \<open>k3\<close> is \<open>k2 * 0.5\<close>, \<open>k4\<close> is \<open>k3 * 1\<close>, and each scaled vector is
  the base of the next stage's flux refresh and \<^verbatim>\<open>numStep\<close>.
\<close>

definition scaleField :: "real \<Rightarrow> real list list \<Rightarrow> real list list" where
  "scaleField c k = map (map (\<lambda>x. x * c)) k"

definition rkStages_spec ::
  "'m Mesh \<Rightarrow> config \<Rightarrow> globals \<Rightarrow> 'm \<times> real list list list \<Rightarrow> real list list
     \<Rightarrow> ('m \<times> real list list list) \<times> real list list \<times> real list list \<times> real list list \<times> real list list" where
  "rkStages_spec ops cfg g mF u =
     (let r1 = rkStage ops cfg g mF u;
          r2 = rkStage ops cfg g (fst r1) (scaleField (1 / 2) (snd r1));
          r3 = rkStage ops cfg g (fst r2) (scaleField (1 / 2) (snd r2));
          r4 = rkStage ops cfg g (fst r3) (scaleField 1 (snd r3))
      in (fst r4, snd r1, snd r2, snd r3, snd r4))"

text \<open>The mesh's stiffness vectors and element flux vectors are identically zero.\<close>

definition zeroResidual :: "'m Mesh \<Rightarrow> nat \<Rightarrow> bool" where
  "zeroResidual ops N \<longleftrightarrow>
     (\<forall>m el F v. getElStiffVector ops m el F v = replicate N 0)
     \<and> (\<forall>m el. getElFlux ops m el = replicate N 0)"

text \<open>Every entry of every sequence of the solution is zero.\<close>

definition allZero :: "real list list \<Rightarrow> bool" where
  "allZero u \<longleftrightarrow> (\<forall>v\<in>set u. \<forall>x\<in>set v. x = 0)"

text \<open>
  The solution after \<open>k\<close> iterations when the update stage leaves it as the injection
  produced it: iteration \<open>j\<close> injects at time \<open>tAt cfg j\<close>.
\<close>

fun injected :: "config \<Rightarrow> nat list list \<Rightarrow> real list list \<Rightarrow> nat \<Rightarrow> real list list" where
  "injected cfg idx u 0 = u"
| "injected cfg idx u (Suc k) = updateSource cfg idx (tAt cfg k) (injected cfg idx u k)"

text \<open>The pressure layer of a snapshot of solution \<open>u\<close>: \<open>E\<close> elements of \<open>N\<close> nodes.\<close>

definition pressureLayer :: "nat \<Rightarrow> nat \<Rightarrow> real list list \<Rightarrow> real list list" where
  "pressureLayer E N u = map (\<lambda>el. map (\<lambda>n. u ! 0 ! (el * N + n)) [0..<N]) [0..<E]"

section \<open>Concrete meshes and configurations\<close>

text \<open>
  A mesh of \<open>E\<close> elements with \<open>N\<close> nodes each, identity mass matrices, zero stiffness
  and flux vectors, no hidden state; node \<open>n\<close> lies at \<open>(n, 0, 0)\<close>.
\<close>

definition zeroMesh :: "nat \<Rightarrow> nat \<Rightarrow> unit Mesh" where
  "zeroMesh E N =
     \<lparr>getElNum = (\<lambda>_. E), getElNumNodes = (\<lambda>_. N), getNumNodes = (\<lambda>_. E * N),
      elTag = (\<lambda>_ el. int el + 1),
      elMassMatrix = (\<lambda>_ el. concat (map (\<lambda>i. map (\<lambda>j. if i = j then 1 else 0) [0..<N]) [0..<N])),
      getElFlux = (\<lambda>_ el. replicate N 0),
      getElStiffVector = (\<lambda>_ el F v. replicate N 0),
      precomputeFlux = (\<lambda>m _ _ _. m),
      updateFlux = (\<lambda>m v F _ _ _. (m, F)),
      precomputeMassMatrix = (\<lambda>m. m),
      getNode = (\<lambda>_ n. [real n, 0, 0])\<rparr>"

definition zeroField :: "nat \<Rightarrow> real list list" where
  "zeroField n = replicate 4 (replicate n 0)"

definition mkConfig :: "real \<Rightarrow> real \<Rightarrow> real \<Rightarrow> real \<Rightarrow> real list list \<Rightarrow> config" where
  "mkConfig ts te dt R srcs =
     \<lparr>timeStart = ts, timeEnd = te, timeStep = dt, timeRate = R, c0 = 1, v0 = 0, rho0 = 1,
      numThreads = 1, saveFile = ''out.msh'', sources = srcs\<rparr>"

text \<open>Time step 0.25 and snapshot rate 0.5 on [0, 1]: every sum is exact.\<close>

definition cfgQuarter :: config where
  "cfgQuarter = mkConfig 0 1 (1 / 4) (1 / 2) []"

text \<open>A run whose start lies after its end.\<close>

definition cfgBackwards :: config where
  "cfgBackwards = mkConfig 1 0 (1 / 4) (1 / 2) []"

text \<open>
  The doubles written \<^verbatim>\<open>0.1\<close>, \<^verbatim>\<open>1.6\<close> and \<^verbatim>\<open>0.8\<close> are \<open>rnd53 (1 / 10)\<close>,
  \<open>rnd53 (16 / 10)\<close> and \<open>rnd53 (8 / 10)\<close>. First \<^verbatim>\<open>timeStep = 0.1\<close> on [0, 1.6], then
  \<^verbatim>\<open>timeStep = 0.1\<close> and \<^verbatim>\<open>timeRate = 0.8\<close> on [0, 1].
\<close>

definition cfgTenthA :: config where
  "cfgTenthA = mkConfig 0 (rnd53 (16 / 10)) (rnd53 (1 / 10)) 1 []"

definition cfgTenthB :: config where
  "cfgTenthB = mkConfig 0 1 (rnd53 (1 / 10)) (rnd53 (8 / 10)) []"

text \<open>
  A mesh of two elements with two nodes each whose stiffness vector reads the element's
  own block of the solution and the flux tensor; \<^verbatim>\<open>updateFlux\<close> stores the solution's
  values in the first flux component.
\<close>

definition demoMesh :: "unit Mesh" where
  "demoMesh =
     \<lparr>getElNum = (\<lambda>_. 2), getElNumNodes = (\<lambda>_. 2), getNumNodes = (\<lambda>_. 4),
      elTag = (\<lambda>_ el. int el + 1),
      elMassMatrix = (\<lambda>_ el. [2, 1, 0, 3]),
      getElFlux = (\<lambda>_ el. [1, real el]),
      getElStiffVector = (\<lambda>_ el F v. [v ! (el * 2) + F ! (el * 2) ! 0, v ! (el * 2 + 1)]),
      precomputeFlux = (\<lambda>m _ _ _. m),
      updateFlux = (\<lambda>m v F _ _ _. (m, map (map (\<lambda>x. [x, 0, 0])) v)),
      precomputeMassMatrix = (\<lambda>m. m),
      getNode = (\<lambda>_ n. [real n, 0, 0])\<rparr>"

definition demoField :: "real list list" where
  "demoField = [[1, 2, 3, 4], [0, 0, 0, 0], [1, 1, 1, 1], [0, 1, 0, 1]]"

text \<open>
  Two sources on the nodes \<open>(n, 0, 0)\<close>: the first around node 1 with amplitude 5,
  frequency 1, phase 0 and duration 10; the second around node 2 with amplitude 7 and
  duration 0.125.
\<close>

definition cfgSources :: config where
  "cfgSources = mkConfig 0 1 (1 / 4) (1 / 2)
     [[0, 1, 0, 0, 1 / 2, 5, 1, 0, 10], [0, 2, 0, 0, 1 / 2, 7, 1, 0, 1 / 8]]"

text \<open>
  A single point source of amplitude 1, frequency 1, phase 0 and duration 1000 at the origin
  (radius 1), time step and snapshot rate 0.25 on [0, 0.25].
\<close>

definition cfgPoint :: config where
  "cfgPoint = mkConfig 0 (1 / 4) (1 / 4) (1 / 4) [[0, 0, 0, 0, 1, 1, 1, 0, 1000]]"

text \<open>
  The same source on [0.25, 0.5] with duration 0.125: the run starts after the duration
  has passed on the clock of the simulated time, though no run time has elapsed.
\<close>

definition cfgLate :: config where
  "cfgLate = mkConfig (1 / 4) (1 / 2) (1 / 4) (1 / 4) [[0, 0, 0, 0, 1, 1, 1, 0, 1 / 8]]"

text \<open>
  A mesh of two elements with one node each, identity mass matrices and zero flux
  vectors, node \<open>n\<close> at \<open>(n, 0, 0)\<close>. The stiffness vector is zero on element 1 and
  reads the solution on element 0, the element of the node at the origin.
\<close>

definition srcMesh :: "unit Mesh" where
  "srcMesh =
     \<lparr>getElNum = (\<lambda>_. 2), getElNumNodes = (\<lambda>_. 1), getNumNodes = (\<lambda>_. 2),
      elTag = (\<lambda>_ el. int el + 1),
      elMassMatrix = (\<lambda>_ el. [1]),
      getElFlux = (\<lambda>_ el. [0]),
      getElStiffVector = (\<lambda>_ el F v. if el = 0 then [v ! 0 + 1] else [0]),
      precomputeFlux = (\<lambda>m _ _ _. m),
      updateFlux = (\<lambda>m v F _ _ _. (m, F)),
      precomputeMassMatrix = (\<lambda>m. m),
      getNode = (\<lambda>_ n. [real n, 0, 0])\<rparr>"

text \<open>
  Two nodes and two sources centred at the origin. Node 0 lies at
  \<open>(201326613, 268435484, 0)\<close>, at distance exactly 335544355 (a multiple of the
  triangle 3, 4, 5), the radius of source 0. Node 1 lies at the doubles written
  \<^verbatim>\<open>(0.9, 1.2, 0)\<close>, at a distance just below 1.5, the radius of source 1.
\<close>

definition edgeMesh :: "unit Mesh" where
  "edgeMesh =
     \<lparr>getElNum = (\<lambda>_. 2), getElNumNodes = (\<lambda>_. 1), getNumNodes = (\<lambda>_. 2),
      elTag = (\<lambda>_ el. int el + 1),
      elMassMatrix = (\<lambda>_ el. [1]),
      getElFlux = (\<lambda>_ el. [0]),
      getElStiffVector = (\<lambda>_ el F v. [0]),
      precomputeFlux = (\<lambda>m _ _ _. m),
      updateFlux = (\<lambda>m v F _ _ _. (m, F)),
      precomputeMassMatrix = (\<lambda>m. m),
      getNode = (\<lambda>_ n. if n = 0 then [201326613, 268435484, 0]
                         else [rnd53 (9 / 10), rnd53 (12 / 10), 0])\<rparr>"

definition cfgEdge :: config where
  "cfgEdge = mkConfig 0 1 (1 / 4) (1 / 2)
     [[0, 0, 0, 0, 335544355, 1, 1, 0, 10], [0, 0, 0, 0, 3 / 2, 1, 1, 0, 10]]"

section \<open>The time loop and its iterations\<close>


lemma timeLoop_funpow:
  "\<forall>j<n. cond ((body ^^ j) s) \<Longrightarrow> \<not> cond ((body ^^ n) s)
     \<Longrightarrow> timeLoop cond body s = Some ((body ^^ n) s)"
proof (induction n arbitrary: s)
  case 0
  then show ?case by (simp add: timeLoop.simps)
next
  case (Suc n)
  have c0: "cond s" using Suc.prems(1) by (metis funpow_0 zero_less_Suc)
  have "\<forall>j<n. cond ((body ^^ j) (body s))"
    using Suc.prems(1) by (metis Suc_less_eq funpow_simps_right(2) o_apply)
  moreover have "\<not> cond ((body ^^ n) (body s))"
    using Suc.prems(2) by (simp add: funpow_swap1)
  ultimately have "timeLoop cond body (body s) = Some ((body ^^ n) (body s))"
    by (rule Suc.IH)
  then show ?case using c0 by (subst timeLoop.simps) (simp add: funpow_swap1)
qed

lemma timeLoop_SomeD:
  assumes "timeLoop cond body s = Some r"
  shows "\<exists>n. r = (body ^^ n) s \<and> \<not> cond r \<and> (\<forall>j<n. cond ((body ^^ j) s))"
proof -
  let ?P = "\<lambda>(cond::'a \<Rightarrow> bool) body s r.
              \<exists>n. r = (body ^^ n) s \<and> \<not> cond r \<and> (\<forall>j<n. cond ((body ^^ j) s))"
  show ?thesis
  proof (rule timeLoop.raw_induct[where P = ?P, OF _ assms])
    fix tl :: "('a \<Rightarrow> bool) \<Rightarrow> ('a \<Rightarrow> 'a) \<Rightarrow> 'a \<Rightarrow> 'a option" and cond body s r
    assume IH: "\<And>cond body s r. tl cond body s = Some r \<Longrightarrow> ?P cond body s r"
      and eq: "(if cond s then tl cond body (body s) else Some s) = Some r"
    show "?P cond body s r"
    proof (cases "cond s")
      case True
      with eq have "tl cond body (body s) = Some r" by simp
      from IH[OF this] obtain n where n: "r = (body ^^ n) (body s)" "\<not> cond r"
        "\<forall>j<n. cond ((body ^^ j) (body s))" by blast
      have "\<forall>j<Suc n. cond ((body ^^ j) s)"
      proof (intro allI impI)
        fix j assume "j < Suc n"
        show "cond ((body ^^ j) s)"
        proof (cases j)
          case 0 then show ?thesis using True by simp
        next
          case (Suc i)
          then show ?thesis using n(3) \<open>j < Suc n\<close> by (simp add: funpow_swap1)
        qed
      qed
      then show ?thesis using n(1,2) by (intro exI[of _ "Suc n"]) (simp add: funpow_swap1)
    next
      case False
      with eq have "r = s" by simp
      then show ?thesis using False by (intro exI[of _ 0]) simp
    qed
  qed
qed

lemma timeLoop_None: "\<forall>n. cond ((body ^^ n) s) \<Longrightarrow> timeLoop cond body s = None"
proof (rule ccontr)
  assume a: "\<forall>n. cond ((body ^^ n) s)" and "timeLoop cond body s \<noteq> None"
  then obtain r where "timeLoop cond body s = Some r" by auto
  from timeLoop_SomeD[OF this] a show False by auto
qed


lemma snapshotSteps_append: "snapshotSteps (xs @ ys) = snapshotSteps xs @ snapshotSteps ys"
  by (induction xs rule: snapshotSteps.induct) auto

lemma pressureLayers_append: "pressureLayers (xs @ ys) = pressureLayers xs @ pressureLayers ys"
  by (induction xs rule: pressureLayers.induct) auto

lemma eulerIter_t: "st_t (eulerIter ops cfg g idx s) = dadd (st_t s) (timeStep cfg)"
  by (simp add: eulerIter_def advance_def snapshotCheck_def saveStep_def Let_def)

lemma eulerIter_step: "st_step (eulerIter ops cfg g idx s) = Suc (st_step s)"
  by (simp add: eulerIter_def advance_def snapshotCheck_def saveStep_def Let_def)

lemma eulerIter_tDisplay:
  "st_tDisplay (eulerIter ops cfg g idx s) =
     dadd (if timeRate cfg \<le> st_tDisplay s \<or> st_step s = 0 then 0 else st_tDisplay s) (timeStep cfg)"
  by (simp add: eulerIter_def advance_def snapshotCheck_def saveStep_def Let_def)

lemma eulerIter_out:
  "st_out (eulerIter ops cfg g idx s) = st_out (snapshotCheck ops cfg g s)"
  by (simp add: eulerIter_def advance_def Let_def)

lemma rkIter_t: "st_t (rkIter ops cfg g idx s) = dadd (st_t s) (timeStep cfg)"
  by (simp add: rkIter_def advance_def snapshotCheck_def saveStep_def Let_def)

lemma rkIter_step: "st_step (rkIter ops cfg g idx s) = Suc (st_step s)"
  by (simp add: rkIter_def advance_def snapshotCheck_def saveStep_def Let_def)

lemma rkIter_tDisplay:
  "st_tDisplay (rkIter ops cfg g idx s) =
     dadd (if timeRate cfg \<le> st_tDisplay s \<or> st_step s = 0 then 0 else st_tDisplay s) (timeStep cfg)"
  by (simp add: rkIter_def advance_def snapshotCheck_def saveStep_def Let_def)

lemma rkIter_out:
  "st_out (rkIter ops cfg g idx s) = st_out (snapshotCheck ops cfg g s)"
  by (simp add: rkIter_def advance_def Let_def)

lemma snapshotCheck_steps:
  "snapshotSteps (st_out (snapshotCheck ops cfg g s)) =
     snapshotSteps (st_out s) @
       (if timeRate cfg \<le> st_tDisplay s \<or> st_step s = 0 then [st_step s] else [])"
  by (simp add: snapshotCheck_def saveStep_def Let_def snapshotSteps_append)

text \<open>Any loop body that treats the loop variables as the two integrators do.\<close>

lemma ctrl_iterates:
  fixes f :: "'m state \<Rightarrow> 'm state"
  assumes t: "\<And>s. st_t (f s) = dadd (st_t s) (timeStep cfg)"
    and st: "\<And>s. st_step (f s) = Suc (st_step s)"
    and td: "\<And>s. st_tDisplay (f s) =
        dadd (if timeRate cfg \<le> st_tDisplay s \<or> st_step s = 0 then 0 else st_tDisplay s) (timeStep cfg)"
    and out: "\<And>s. st_out (f s) = st_out (snapshotCheck ops cfg g s)"
    and init: "st_t s0 = timeStart cfg" "st_step s0 = 0" "st_tDisplay s0 = 0" "st_out s0 = []"
  shows "st_t ((f ^^ k) s0) = tAt cfg k \<and> st_step ((f ^^ k) s0) = k
       \<and> st_tDisplay ((f ^^ k) s0) = dispAt cfg k
       \<and> snapshotSteps (st_out ((f ^^ k) s0)) = filter (due cfg) [0..<k]"
proof (induction k)
  case 0
  then show ?case using init by simp
next
  case (Suc k)
  then show ?case
    by (simp add: t st td out snapshotCheck_steps due_def)
qed

lemma eulerState_ctrl:
  "st_t (eulerState ops cfg m u k) = tAt cfg k \<and> st_step (eulerState ops cfg m u k) = k
     \<and> st_tDisplay (eulerState ops cfg m u k) = dispAt cfg k
     \<and> snapshotSteps (st_out (eulerState ops cfg m u k)) = filter (due cfg) [0..<k]"
  unfolding eulerState_def
  by (rule ctrl_iterates[where ops = ops and g = "initGlobals ops m"])
     (simp_all add: eulerIter_t eulerIter_step eulerIter_tDisplay eulerIter_out initState_def)

lemma rkState_ctrl:
  "st_t (rkState ops cfg m u k) = tAt cfg k \<and> st_step (rkState ops cfg m u k) = k
     \<and> st_tDisplay (rkState ops cfg m u k) = dispAt cfg k
     \<and> snapshotSteps (st_out (rkState ops cfg m u k)) = filter (due cfg) [0..<k]"
  unfolding rkState_def
  by (rule ctrl_iterates[where ops = ops and g = "initGlobals ops m"])
     (simp_all add: rkIter_t rkIter_step rkIter_tDisplay rkIter_out initState_def)

lemma forwardEuler_eq:
  assumes "\<forall>j<n. tAt cfg j \<le> timeEnd cfg" and "\<not> tAt cfg n \<le> timeEnd cfg"
  shows "forwardEuler ops cfg m u = Some (saveToFile cfg (eulerState ops cfg m u n))"
proof -
  let ?f = "eulerIter ops cfg (initGlobals ops m)
              (sourceIndices ops (st_mesh (initState ops cfg m u)) cfg)"
  let ?s0 = "initState ops cfg m u"
  have t: "st_t ((?f ^^ j) ?s0) = tAt cfg j" for j
    using eulerState_ctrl[of ops cfg m u j] by (simp add: eulerState_def)
  have "timeLoop (\<lambda>s. st_t s \<le> timeEnd cfg) ?f ?s0 = Some ((?f ^^ n) ?s0)"
    by (rule timeLoop_funpow) (use assms in \<open>simp_all add: t\<close>)
  then show ?thesis by (simp add: forwardEuler_def eulerState_def Let_def)
qed

lemma forwardEuler_SomeD:
  assumes "forwardEuler ops cfg m u = Some r"
  shows "\<exists>n. r = saveToFile cfg (eulerState ops cfg m u n)
           \<and> (\<forall>j<n. tAt cfg j \<le> timeEnd cfg) \<and> \<not> tAt cfg n \<le> timeEnd cfg"
proof -
  let ?f = "eulerIter ops cfg (initGlobals ops m)
              (sourceIndices ops (st_mesh (initState ops cfg m u)) cfg)"
  let ?s0 = "initState ops cfg m u"
  have t: "st_t ((?f ^^ j) ?s0) = tAt cfg j" for j
    using eulerState_ctrl[of ops cfg m u j] by (simp add: eulerState_def)
  from assms obtain r' where r': "timeLoop (\<lambda>s. st_t s \<le> timeEnd cfg) ?f ?s0 = Some r'"
    and r: "r = saveToFile cfg r'"
    by (auto simp: forwardEuler_def Let_def)
  from timeLoop_SomeD[OF r'] obtain n where "r' = (?f ^^ n) ?s0" "\<not> st_t r' \<le> timeEnd cfg"
    "\<forall>j<n. st_t ((?f ^^ j) ?s0) \<le> timeEnd cfg" by blast
  then show ?thesis using r by (intro exI[of _ n]) (simp add: t eulerState_def)
qed

lemma forwardEuler_None:
  assumes "\<forall>n. tAt cfg n \<le> timeEnd cfg"
  shows "forwardEuler ops cfg m u = None"
proof -
  let ?f = "eulerIter ops cfg (initGlobals ops m)
              (sourceIndices ops (st_mesh (initState ops cfg m u)) cfg)"
  let ?s0 = "initState ops cfg m u"
  have t: "st_t ((?f ^^ j) ?s0) = tAt cfg j" for j
    using eulerState_ctrl[of ops cfg m u j] by (simp add: eulerState_def)
  have "timeLoop (\<lambda>s. st_t s \<le> timeEnd cfg) ?f ?s0 = None"
    by (rule timeLoop_None) (use assms in \<open>simp add: t\<close>)
  then show ?thesis by (simp add: forwardEuler_def Let_def)
qed

lemma rungeKutta_eq:
  assumes "\<forall>j<n. tAt cfg j \<le> timeEnd cfg" and "\<not> tAt cfg n \<le> timeEnd cfg"
  shows "rungeKutta ops cfg m u = Some (saveToFile cfg (rkState ops cfg m u n))"
proof -
  let ?f = "rkIter ops cfg (initGlobals ops m)
              (sourceIndices ops (st_mesh (initState ops cfg m u)) cfg)"
  let ?s0 = "initState ops cfg m u"
  have t: "st_t ((?f ^^ j) ?s0) = tAt cfg j" for j
    using rkState_ctrl[of ops cfg m u j] by (simp add: rkState_def)
  have "timeLoop (\<lambda>s. st_t s \<le> timeEnd cfg) ?f ?s0 = Some ((?f ^^ n) ?s0)"
    by (rule timeLoop_funpow) (use assms in \<open>simp_all add: t\<close>)
  then show ?thesis by (simp add: rungeKutta_def rkState_def Let_def)
qed

lemma rungeKutta_SomeD:
  assumes "rungeKutta ops cfg m u = Some r"
  shows "\<exists>n. r = saveToFile cfg (rkState ops cfg m u n)
           \<and> (\<forall>j<n. tAt cfg j \<le> timeEnd cfg) \<and> \<not> tAt cfg n \<le> timeEnd cfg"
proof -
  let ?f = "rkIter ops cfg (initGlobals ops m)
              (sourceIndices ops (st_mesh (initState ops cfg m u)) cfg)"
  let ?s0 = "initState ops cfg m u"
  have t: "st_t ((?f ^^ j) ?s0) = tAt cfg j" for j
    using rkState_ctrl[of ops cfg m u j] by (simp add: rkState_def)
  from assms obtain r' where r': "timeLoop (\<lambda>s. st_t s \<le> timeEnd cfg) ?f ?s0 = Some r'"
    and r: "r = saveToFile cfg r'"
    by (auto simp: rungeKutta_def Let_def)
  from timeLoop_SomeD[OF r'] obtain n where "r' = (?f ^^ n) ?s0" "\<not> st_t r' \<le> timeEnd cfg"
    "\<forall>j<n. st_t ((?f ^^ j) ?s0) \<le> timeEnd cfg" by blast
  then show ?thesis using r by (intro exI[of _ n]) (simp add: t rkState_def)
qed

lemma rungeKutta_None:
  assumes "\<forall>n. tAt cfg n \<le> timeEnd cfg"
  shows "rungeKutta ops cfg m u = None"
proof -
  let ?f = "rkIter ops cfg (initGlobals ops m)
              (sourceIndices ops (st_mesh (initState ops cfg m u)) cfg)"
  let ?s0 = "initState ops cfg m u"
  have t: "st_t ((?f ^^ j) ?s0) = tAt cfg j" for j
    using rkState_ctrl[of ops cfg m u j] by (simp add: rkState_def)
  have "timeLoop (\<lambda>s. st_t s \<le> timeEnd cfg) ?f ?s0 = None"
    by (rule timeLoop_None) (use assms in \<open>simp add: t\<close>)
  then show ?thesis by (simp add: rungeKutta_def Let_def)
qed

lemma saveToFile_fields [simp]:
  "st_step (saveToFile cfg s) = st_step s" "st_u (saveToFile cfg s) = st_u s"
  "st_t (saveToFile cfg s) = st_t s"
  "snapshotSteps (st_out (saveToFile cfg s)) = snapshotSteps (st_out s)"
  "pressureLayers (st_out (saveToFile cfg s)) = pressureLayers (st_out s)"
  by (simp_all add: saveToFile_def snapshotSteps_append pressureLayers_append)

subsection \<open>Exact sums\<close>

lemma tAt_exact:
  "exactSteps cfg n \<Longrightarrow> k \<le> n \<Longrightarrow> tAt cfg k = timeStart cfg + real k * timeStep cfg"
proof (induction k)
  case 0
  then show ?case by simp
next
  case (Suc k)
  then have "tAt cfg k = timeStart cfg + real k * timeStep cfg" by simp
  moreover have "dadd (timeStart cfg + real k * timeStep cfg) (timeStep cfg)
      = timeStart cfg + real (Suc k) * timeStep cfg"
    using Suc.prems by (simp add: exactSteps_def)
  ultimately show ?case by simp
qed

lemma iterations_exact:
  assumes le: "timeStart cfg \<le> timeEnd cfg" and dt: "0 < timeStep cfg"
    and ex: "exactSteps cfg (specIterations cfg)"
  shows "\<forall>j<specIterations cfg. tAt cfg j \<le> timeEnd cfg"
    and "\<not> tAt cfg (specIterations cfg) \<le> timeEnd cfg"
proof -
  let ?q = "(timeEnd cfg - timeStart cfg) / timeStep cfg"
  let ?N = "nat \<lfloor>?q\<rfloor>"
  have q0: "0 \<le> ?q" using le dt by simp
  have n: "specIterations cfg = ?N + 1" using le by (simp add: specIterations_def)
  have N_le: "real ?N \<le> ?q" using q0 by (simp add: of_nat_nat)
  have N_gt: "?q < real ?N + 1" using q0 by (simp add: of_nat_nat)
  show "\<forall>j<specIterations cfg. tAt cfg j \<le> timeEnd cfg"
  proof (intro allI impI)
    fix j assume j: "j < specIterations cfg"
    then have "real j \<le> ?q" using N_le n by simp
    then have "real j * timeStep cfg \<le> timeEnd cfg - timeStart cfg"
      using dt by (simp add: pos_le_divide_eq)
    moreover have "tAt cfg j = timeStart cfg + real j * timeStep cfg"
      using tAt_exact[OF ex] j by simp
    ultimately show "tAt cfg j \<le> timeEnd cfg" by simp
  qed
  have "timeEnd cfg - timeStart cfg < (real ?N + 1) * timeStep cfg"
    using N_gt dt by (simp add: pos_divide_less_eq)
  moreover have "tAt cfg (?N + 1) = timeStart cfg + real (?N + 1) * timeStep cfg"
    using tAt_exact[OF ex, of "?N + 1"] n by simp
  ultimately show "\<not> tAt cfg (specIterations cfg) \<le> timeEnd cfg"
    unfolding n by (simp add: algebra_simps)
qed

lemma exactAccumD:
  "exactAccum cfg p \<Longrightarrow> k < p
     \<Longrightarrow> dadd (real k * timeStep cfg) (timeStep cfg) = real (Suc k) * timeStep cfg"
  by (simp add: exactAccum_def)

lemma dispAt_exact:
  assumes dt: "0 < timeStep cfg" and p: "1 \<le> p"
    and R: "timeRate cfg = real p * timeStep cfg" and ex: "exactAccum cfg p"
  shows "dispAt cfg (Suc j) = real (j mod p + 1) * timeStep cfg"
proof (induction j)
  case 0
  have "dadd (real 0 * timeStep cfg) (timeStep cfg) = real (Suc 0) * timeStep cfg"
    using p by (intro exactAccumD[OF ex]) simp
  then show ?case using p by simp
next
  case (Suc j)
  let ?c = "j mod p + 1"
  have c_le: "?c \<le> p" using p by (simp add: Suc_leI)
  show ?case
  proof (cases "?c = p")
    case True
    then have "timeRate cfg \<le> dispAt cfg (Suc j)" using Suc.IH R by simp
    then have "dispAt cfg (Suc (Suc j)) = dadd 0 (timeStep cfg)" by simp
    also have "\<dots> = timeStep cfg"
      using exactAccumD[OF ex, of 0] p by simp
    finally show ?thesis using True by (simp add: mod_Suc)
  next
    case False
    then have lt: "?c < p" using c_le by simp
    then have "real ?c * timeStep cfg < real p * timeStep cfg"
      using dt by (simp del: of_nat_add of_nat_Suc)
    then have "\<not> timeRate cfg \<le> dispAt cfg (Suc j)" using Suc.IH R by simp
    then have "dispAt cfg (Suc (Suc j)) = dadd (real ?c * timeStep cfg) (timeStep cfg)"
      using Suc.IH by simp
    also have "\<dots> = real (Suc ?c) * timeStep cfg"
      by (rule exactAccumD[OF ex lt])
    finally show ?thesis using False by (simp add: mod_Suc)
  qed
qed

lemma due_exact:
  assumes dt: "0 < timeStep cfg" and p: "1 \<le> p"
    and R: "timeRate cfg = real p * timeStep cfg" and ex: "exactAccum cfg p"
  shows "due cfg k \<longleftrightarrow> p dvd k"
proof (cases k)
  case 0
  then show ?thesis by (simp add: due_def)
next
  case (Suc j)
  have d: "dispAt cfg (Suc j) = real (j mod p + 1) * timeStep cfg"
    by (rule dispAt_exact[OF assms])
  have "timeRate cfg \<le> dispAt cfg (Suc j) \<longleftrightarrow> real p \<le> real (j mod p + 1)"
    unfolding d R using dt by (simp del: of_nat_add of_nat_Suc)
  also have "\<dots> \<longleftrightarrow> p \<le> j mod p + 1" by (simp del: of_nat_add of_nat_Suc)
  also have "\<dots> \<longleftrightarrow> Suc (j mod p) = p"
  proof -
    have "j mod p < p" using p by simp
    then show ?thesis by auto
  qed
  also have "\<dots> \<longleftrightarrow> p dvd Suc j"
    using p by (auto simp: mod_Suc dvd_eq_mod_eq_0)
  finally show ?thesis using Suc by (simp add: due_def)
qed

subsection \<open>Evaluating the loop control\<close>

lemma tFrom_eq: "tFrom cfg (tAt cfg k) n = map (tAt cfg) [k..<k + n]"
proof (induction n arbitrary: k)
  case 0
  then show ?case by simp
next
  case (Suc n)
  have step: "[k..<k + Suc n] = k # [Suc k..<Suc k + n]"
    by (subst upt_rec) (simp del: upt_Suc)
  have "tFrom cfg (tAt cfg (Suc k)) n = map (tAt cfg) [Suc k..<Suc k + n]" by (rule Suc.IH)
  then show ?case unfolding step by (simp del: upt_Suc)
qed

lemma dueFrom_eq: "dueFrom cfg k (dispAt cfg k) n = filter (due cfg) [k..<k + n]"
proof (induction n arbitrary: k)
  case 0
  then show ?case by simp
next
  case (Suc n)
  have step: "[k..<k + Suc n] = k # [Suc k..<Suc k + n]"
    by (subst upt_rec) (simp del: upt_Suc)
  have IH: "dueFrom cfg (Suc k) (dispAt cfg (Suc k)) n = filter (due cfg) [Suc k..<Suc k + n]"
    by (rule Suc.IH)
  have l: "dueFrom cfg k (dispAt cfg k) (Suc n) =
      (if due cfg k then [k] else []) @ dueFrom cfg (Suc k) (dispAt cfg (Suc k)) n"
    by (cases "due cfg k") (auto simp: due_def)
  have r: "filter (due cfg) [k..<k + Suc n] =
      (if due cfg k then [k] else []) @ filter (due cfg) [Suc k..<Suc k + n]"
    unfolding step by (cases "due cfg k") (simp_all only: filter.simps if_True if_False append.simps)
  show ?case unfolding l r IH ..
qed

lemma loop_count_eval:
  assumes "tFrom cfg (timeStart cfg) (Suc n) = ts"
    and "list_all (\<lambda>t. t \<le> timeEnd cfg) (butlast ts)" and "\<not> last ts \<le> timeEnd cfg"
  shows "(\<forall>j<n. tAt cfg j \<le> timeEnd cfg) \<and> \<not> tAt cfg n \<le> timeEnd cfg"
proof -
  have ts: "ts = map (tAt cfg) [0..<Suc n]"
    using tFrom_eq[of cfg 0 "Suc n"] assms(1) by simp
  then have "butlast ts = map (tAt cfg) [0..<n]" and "last ts = tAt cfg n"
    by (simp_all add: butlast_append)
  then show ?thesis using assms(2,3) by (simp add: list_all_iff)
qed

lemma due_eval: "filter (due cfg) [0..<n] = dueFrom cfg 0 0 n"
  using dueFrom_eq[of cfg 0 n] by simp

lemmas dbl_eval = dadd_def rnd53_def expo_def rne_def pow2_def bitlen.simps Let_def

lemma d01: "rnd53 (1 / 10) = 3602879701896397 / 36028797018963968"
  by (simp add: dbl_eval)
lemma d16: "rnd53 (8 / 5) = 3602879701896397 / 2251799813685248"
  by (simp add: dbl_eval)
lemma d08: "rnd53 (4 / 5) = 3602879701896397 / 4503599627370496"
  by (simp add: dbl_eval)

lemma cfgTenthA_ts:
  "tFrom cfgTenthA (timeStart cfgTenthA) (Suc 16) =
     [0,
      3602879701896397 / 36028797018963968,
      3602879701896397 / 18014398509481984,
      1351079888211149 / 4503599627370496,
      3602879701896397 / 9007199254740992,
      1 / 2,
      5404319552844595 / 9007199254740992,
      3152519739159347 / 4503599627370496,
      7205759403792793 / 9007199254740992,
      2026619832316723 / 2251799813685248,
      9007199254740991 / 9007199254740992,
      4953959590107545 / 4503599627370496,
      5404319552844595 / 4503599627370496,
      5854679515581645 / 4503599627370496,
      6305039478318695 / 4503599627370496,
      6755399441055745 / 4503599627370496,
      7205759403792795 / 4503599627370496]"
  by (simp add: cfgTenthA_def mkConfig_def d01 d16 eval_nat_numeral) (simp add: dbl_eval)

lemma cfgTenthB_due:
  "dueFrom cfgTenthB 0 0 11 = [0, 9]"
  by (simp add: cfgTenthB_def mkConfig_def d01 d08 eval_nat_numeral) (simp add: dbl_eval)

subsection \<open>Runs of the concrete configurations\<close>

lemma cfgTenthB_ts:
  "tFrom cfgTenthB (timeStart cfgTenthB) (Suc 11) =
     [0,
      3602879701896397 / 36028797018963968,
      3602879701896397 / 18014398509481984,
      1351079888211149 / 4503599627370496,
      3602879701896397 / 9007199254740992,
      1 / 2,
      5404319552844595 / 9007199254740992,
      3152519739159347 / 4503599627370496,
      7205759403792793 / 9007199254740992,
      2026619832316723 / 2251799813685248,
      9007199254740991 / 9007199254740992,
      4953959590107545 / 4503599627370496]"
  by (simp add: cfgTenthB_def mkConfig_def d01 d08 eval_nat_numeral) (simp add: dbl_eval)

lemma cfgQuarter_ts:
  "tFrom cfgQuarter (timeStart cfgQuarter) (Suc 5) = [0, 1 / 4, 1 / 2, 3 / 4, 1, 5 / 4]"
  by (simp add: cfgQuarter_def mkConfig_def eval_nat_numeral) (simp add: dbl_eval)

lemma cfgQuarter_due: "dueFrom cfgQuarter 0 0 5 = [0, 2, 4]"
  by (simp add: cfgQuarter_def mkConfig_def eval_nat_numeral) (simp add: dbl_eval)

lemma cfgQuarter_count:
  "(\<forall>j<5. tAt cfgQuarter j \<le> timeEnd cfgQuarter) \<and> \<not> tAt cfgQuarter 5 \<le> timeEnd cfgQuarter"
  by (rule loop_count_eval[OF cfgQuarter_ts]) (simp_all add: cfgQuarter_def mkConfig_def)

lemma cfgTenthA_count:
  "(\<forall>j<16. tAt cfgTenthA j \<le> timeEnd cfgTenthA) \<and> \<not> tAt cfgTenthA 16 \<le> timeEnd cfgTenthA"
  by (rule loop_count_eval[OF cfgTenthA_ts]) (simp_all add: cfgTenthA_def mkConfig_def d16)

lemma cfgTenthB_count:
  "(\<forall>j<11. tAt cfgTenthB j \<le> timeEnd cfgTenthB) \<and> \<not> tAt cfgTenthB 11 \<le> timeEnd cfgTenthB"
  by (rule loop_count_eval[OF cfgTenthB_ts]) (simp_all add: cfgTenthB_def mkConfig_def)

lemma cfgQuarter_exactSteps: "exactSteps cfgQuarter 5"
  by (simp add: exactSteps_def cfgQuarter_def mkConfig_def eval_nat_numeral) (simp add: dbl_eval)

lemma cfgQuarter_exactAccum: "exactAccum cfgQuarter 2"
  by (simp add: exactAccum_def cfgQuarter_def mkConfig_def eval_nat_numeral) (simp add: dbl_eval)

lemma cfgQuarter_specIterations: "specIterations cfgQuarter = 5"
  by (simp add: specIterations_def cfgQuarter_def mkConfig_def)

lemma cfgTenthA_specIterations: "specIterations cfgTenthA = 17"
  by (simp add: specIterations_def cfgTenthA_def mkConfig_def d01 d16)

section \<open>C10: number of iterations of the time loop\<close>

text \<open>
  C10, as amended. Under \<open>timeStep > 0\<close> and \<open>timeStart \<le> timeEnd\<close>, and provided that
  every addition \<^verbatim>\<open>t += timeStep\<close> the loop performs is exact in double arithmetic, the time
  loop of each integrator terminates after exactly
  \<open>floor((timeEnd - timeStart) / timeStep) + 1\<close> iterations, the body running for
  \<open>t = timeStart, timeStart + timeStep, \<dots>\<close>; if \<open>timeStart > timeEnd\<close> the body runs zero
  times. In both cases the integrator returns after flushing the output.
\<close>

theorem time_loop_iterations:
  assumes "timeStart cfg \<le> timeEnd cfg
             \<longrightarrow> 0 < timeStep cfg \<and> exactSteps cfg (specIterations cfg)"
  shows "forwardEuler ops cfg m u
           = Some (saveToFile cfg (eulerState ops cfg m u (specIterations cfg)))
       \<and> rungeKutta ops cfg m u
           = Some (saveToFile cfg (rkState ops cfg m u (specIterations cfg)))
       \<and> st_step (eulerState ops cfg m u (specIterations cfg)) = specIterations cfg
       \<and> st_step (rkState ops cfg m u (specIterations cfg)) = specIterations cfg
       \<and> (\<forall>k<specIterations cfg.
             st_t (eulerState ops cfg m u k) = timeStart cfg + real k * timeStep cfg
           \<and> st_t (rkState ops cfg m u k) = timeStart cfg + real k * timeStep cfg)"
proof -
  have cnt: "(\<forall>j<specIterations cfg. tAt cfg j \<le> timeEnd cfg)
      \<and> \<not> tAt cfg (specIterations cfg) \<le> timeEnd cfg"
  proof (cases "timeStart cfg \<le> timeEnd cfg")
    case True
    with assms iterations_exact[of cfg] show ?thesis by simp
  next
    case False
    then show ?thesis by (simp add: specIterations_def)
  qed
  have ts: "tAt cfg k = timeStart cfg + real k * timeStep cfg" if "k < specIterations cfg" for k
  proof -
    from that have "timeStart cfg \<le> timeEnd cfg"
      by (simp add: specIterations_def split: if_splits)
    with assms have "exactSteps cfg (specIterations cfg)" by simp
    from tAt_exact[OF this, of k] that show ?thesis by simp
  qed
  show ?thesis
    using cnt ts
    by (simp add: forwardEuler_eq rungeKutta_eq eulerState_ctrl rkState_ctrl)
qed

theorem time_loop_iterations_witness:
  "map_option st_step (forwardEuler (zeroMesh 1 1) cfgQuarter () (zeroField 1)) = Some 5
   \<and> map_option st_step (rungeKutta (zeroMesh 1 1) cfgQuarter () (zeroField 1)) = Some 5
   \<and> map_option st_step (forwardEuler (zeroMesh 1 1) cfgBackwards () (zeroField 1)) = Some 0
   \<and> map_option st_step (rungeKutta (zeroMesh 1 1) cfgBackwards () (zeroField 1)) = Some 0"
proof -
  have h1: "timeStart cfgQuarter \<le> timeEnd cfgQuarter
      \<longrightarrow> 0 < timeStep cfgQuarter \<and> exactSteps cfgQuarter (specIterations cfgQuarter)"
    using cfgQuarter_exactSteps
    by (simp add: cfgQuarter_specIterations) (simp add: cfgQuarter_def mkConfig_def)
  have h2: "timeStart cfgBackwards \<le> timeEnd cfgBackwards
      \<longrightarrow> 0 < timeStep cfgBackwards \<and> exactSteps cfgBackwards (specIterations cfgBackwards)"
    by (simp add: cfgBackwards_def mkConfig_def)
  have n2: "specIterations cfgBackwards = 0"
    by (simp add: specIterations_def cfgBackwards_def mkConfig_def)
  show ?thesis
    using time_loop_iterations[OF h1, of "zeroMesh 1 1" "()" "zeroField 1"]
      time_loop_iterations[OF h2, of "zeroMesh 1 1" "()" "zeroField 1"]
    by (simp add: cfgQuarter_specIterations n2)
qed

text \<open>
  C10 as stated fails in double arithmetic. With \<^verbatim>\<open>timeStart = 0\<close>, \<^verbatim>\<open>timeEnd = 1.6\<close> and
  \<^verbatim>\<open>timeStep = 0.1\<close> the preconditions hold and
  \<open>floor((timeEnd - timeStart) / timeStep) + 1 = 17\<close> (for the decimal values, for the
  exact quotient of the two doubles, and for their double quotient alike). The loop runs 16
  times: sixteen accumulated additions of \<^verbatim>\<open>0.1\<close> give \<^verbatim>\<open>1.6000000000000003\<close>, which
  exceeds \<^verbatim>\<open>1.6\<close>.
\<close>

theorem time_loop_iterations_counterexample:
  "0 < timeStep cfgTenthA \<and> timeStart cfgTenthA \<le> timeEnd cfgTenthA
   \<and> nat \<lfloor>(timeEnd cfgTenthA - timeStart cfgTenthA) / timeStep cfgTenthA\<rfloor> + 1 = 17
   \<and> map_option st_step (forwardEuler (zeroMesh 1 1) cfgTenthA () (zeroField 1)) = Some 16
   \<and> map_option st_step (rungeKutta (zeroMesh 1 1) cfgTenthA () (zeroField 1)) = Some 16"
proof -
  have "forwardEuler (zeroMesh 1 1) cfgTenthA () (zeroField 1)
      = Some (saveToFile cfgTenthA (eulerState (zeroMesh 1 1) cfgTenthA () (zeroField 1) 16))"
    using cfgTenthA_count by (intro forwardEuler_eq) simp_all
  moreover have "rungeKutta (zeroMesh 1 1) cfgTenthA () (zeroField 1)
      = Some (saveToFile cfgTenthA (rkState (zeroMesh 1 1) cfgTenthA () (zeroField 1) 16))"
    using cfgTenthA_count by (intro rungeKutta_eq) simp_all
  moreover have "0 < timeStep cfgTenthA \<and> timeStart cfgTenthA \<le> timeEnd cfgTenthA
      \<and> nat \<lfloor>(timeEnd cfgTenthA - timeStart cfgTenthA) / timeStep cfgTenthA\<rfloor> + 1 = 17"
    by (simp add: cfgTenthA_def mkConfig_def d01 d16)
  ultimately show ?thesis by (simp add: eulerState_ctrl rkState_ctrl)
qed

text \<open>
  Beyond the iteration count: the loop need not end at all. From \<open>t = 2^53\<close> a time step
  of 1 is rounded away, \<^verbatim>\<open>t\<close> never moves and neither integrator returns.
\<close>

lemma cfgHuge_stuck: "dadd 9007199254740992 1 = 9007199254740992"
  by (simp add: dbl_eval)

lemma cfgHuge_diverges:
  "forwardEuler ops (mkConfig (2 ^ 53) (2 ^ 53 + 2) 1 1 []) m u = None"
  "rungeKutta ops (mkConfig (2 ^ 53) (2 ^ 53 + 2) 1 1 []) m u = None"
proof -
  let ?cfg = "mkConfig (2 ^ 53) (2 ^ 53 + 2) 1 1 []"
  have t: "tAt ?cfg n = 2 ^ 53" for n
    by (induction n) (simp_all add: mkConfig_def cfgHuge_stuck)
  have a: "\<forall>n. tAt ?cfg n \<le> timeEnd ?cfg"
    unfolding t by (simp add: mkConfig_def)
  show "forwardEuler ops ?cfg m u = None" by (rule forwardEuler_None[OF a])
  show "rungeKutta ops ?cfg m u = None" by (rule rungeKutta_None[OF a])
qed

section \<open>C4: snapshot cadence\<close>

text \<open>
  C4, as amended. \<open>eulerState \<dots> k\<close> and \<open>rkState \<dots> k\<close> are the states at the head of
  iteration \<open>k\<close>. In both integrators, whatever the number \<open>n\<close> of iterations run so far,
  the snapshots emitted are those of the steps \<open>k < n\<close> at whose head the display
  accumulator has reached at least \<open>timeRate\<close>, and of step 0. The accumulator is 0 when
  the loop is entered; each iteration adds \<open>timeStep\<close> to it in double arithmetic, after
  resetting it to zero if the iteration emits a snapshot. When \<open>timeRate = p * timeStep\<close>
  with \<open>p \<ge> 1\<close> and \<open>timeStep > 0\<close>, and the sums
  \<open>timeStep, 2 * timeStep, \<dots>, p * timeStep\<close> are computed without rounding error, the
  snapshots occur precisely at the steps \<open>0, p, 2p, \<dots>\<close>. A run that returns has emitted
  the snapshots of the iterations it ran, \<open>st_step\<close> many.
\<close>

theorem snapshot_cadence:
  "(\<forall>n. snapshotSteps (st_out (eulerState ops cfg m u n))
          = filter (\<lambda>k. timeRate cfg \<le> st_tDisplay (eulerState ops cfg m u k) \<or> k = 0) [0..<n]
        \<and> snapshotSteps (st_out (rkState ops cfg m u n))
          = filter (\<lambda>k. timeRate cfg \<le> st_tDisplay (rkState ops cfg m u k) \<or> k = 0) [0..<n])
   \<and> (\<forall>k. st_tDisplay (eulerState ops cfg m u 0) = 0
        \<and> st_tDisplay (rkState ops cfg m u 0) = 0
        \<and> st_tDisplay (eulerState ops cfg m u (Suc k))
            = dadd (if timeRate cfg \<le> st_tDisplay (eulerState ops cfg m u k) \<or> k = 0 then 0
                    else st_tDisplay (eulerState ops cfg m u k)) (timeStep cfg)
        \<and> st_tDisplay (rkState ops cfg m u (Suc k))
            = dadd (if timeRate cfg \<le> st_tDisplay (rkState ops cfg m u k) \<or> k = 0 then 0
                    else st_tDisplay (rkState ops cfg m u k)) (timeStep cfg))
   \<and> (0 < timeStep cfg \<and> 1 \<le> p \<and> timeRate cfg = real p * timeStep cfg \<and> exactAccum cfg p \<longrightarrow>
        (\<forall>n. snapshotSteps (st_out (eulerState ops cfg m u n)) = filter (\<lambda>k. p dvd k) [0..<n]
            \<and> snapshotSteps (st_out (rkState ops cfg m u n)) = filter (\<lambda>k. p dvd k) [0..<n]))
   \<and> (\<forall>r. forwardEuler ops cfg m u = Some r \<longrightarrow>
        snapshotSteps (st_out r) = snapshotSteps (st_out (eulerState ops cfg m u (st_step r))))
   \<and> (\<forall>r. rungeKutta ops cfg m u = Some r \<longrightarrow>
        snapshotSteps (st_out r) = snapshotSteps (st_out (rkState ops cfg m u (st_step r))))"
proof (intro conjI allI impI)
  fix n
  have "filter (due cfg) [0..<n]
      = filter (\<lambda>k. timeRate cfg \<le> st_tDisplay (eulerState ops cfg m u k) \<or> k = 0) [0..<n]"
    by (rule filter_cong) (simp_all add: due_def eulerState_ctrl)
  then show "snapshotSteps (st_out (eulerState ops cfg m u n))
      = filter (\<lambda>k. timeRate cfg \<le> st_tDisplay (eulerState ops cfg m u k) \<or> k = 0) [0..<n]"
    by (simp add: eulerState_ctrl)
  have "filter (due cfg) [0..<n]
      = filter (\<lambda>k. timeRate cfg \<le> st_tDisplay (rkState ops cfg m u k) \<or> k = 0) [0..<n]"
    by (rule filter_cong) (simp_all add: due_def rkState_ctrl)
  then show "snapshotSteps (st_out (rkState ops cfg m u n))
      = filter (\<lambda>k. timeRate cfg \<le> st_tDisplay (rkState ops cfg m u k) \<or> k = 0) [0..<n]"
    by (simp add: rkState_ctrl)
next
  fix k
  show "st_tDisplay (eulerState ops cfg m u 0) = 0" "st_tDisplay (rkState ops cfg m u 0) = 0"
    by (simp_all add: eulerState_ctrl rkState_ctrl)
  show "st_tDisplay (eulerState ops cfg m u (Suc k))
      = dadd (if timeRate cfg \<le> st_tDisplay (eulerState ops cfg m u k) \<or> k = 0 then 0
              else st_tDisplay (eulerState ops cfg m u k)) (timeStep cfg)"
    by (simp add: eulerState_ctrl)
  show "st_tDisplay (rkState ops cfg m u (Suc k))
      = dadd (if timeRate cfg \<le> st_tDisplay (rkState ops cfg m u k) \<or> k = 0 then 0
              else st_tDisplay (rkState ops cfg m u k)) (timeStep cfg)"
    by (simp add: rkState_ctrl)
next
  fix n
  assume h: "0 < timeStep cfg \<and> 1 \<le> p \<and> timeRate cfg = real p * timeStep cfg \<and> exactAccum cfg p"
  from h have h': "0 < timeStep cfg" "1 \<le> p" "timeRate cfg = real p * timeStep cfg"
    "exactAccum cfg p" by simp_all
  have d: "filter (due cfg) xs = filter (\<lambda>k. p dvd k) xs" for xs
    by (rule filter_cong) (simp_all add: due_exact[OF h'])
  show "snapshotSteps (st_out (eulerState ops cfg m u n)) = filter (\<lambda>k. p dvd k) [0..<n]"
    by (simp add: eulerState_ctrl d)
  show "snapshotSteps (st_out (rkState ops cfg m u n)) = filter (\<lambda>k. p dvd k) [0..<n]"
    by (simp add: rkState_ctrl d)
next
  fix r assume "forwardEuler ops cfg m u = Some r"
  from forwardEuler_SomeD[OF this] obtain n
    where r: "r = saveToFile cfg (eulerState ops cfg m u n)" by blast
  show "snapshotSteps (st_out r) = snapshotSteps (st_out (eulerState ops cfg m u (st_step r)))"
    unfolding r by (simp add: eulerState_ctrl)
next
  fix r assume "rungeKutta ops cfg m u = Some r"
  from rungeKutta_SomeD[OF this] obtain n
    where r: "r = saveToFile cfg (rkState ops cfg m u n)" by blast
  show "snapshotSteps (st_out r) = snapshotSteps (st_out (rkState ops cfg m u (st_step r)))"
    unfolding r by (simp add: rkState_ctrl)
qed

theorem snapshot_cadence_witness:
  "snapshotSteps (st_out (eulerState (zeroMesh 1 1) cfgQuarter () (zeroField 1) 5)) = [0, 2, 4]
   \<and> snapshotSteps (st_out (rkState (zeroMesh 1 1) cfgQuarter () (zeroField 1) 5)) = [0, 2, 4]
   \<and> map_option (\<lambda>r. snapshotSteps (st_out r))
       (forwardEuler (zeroMesh 1 1) cfgQuarter () (zeroField 1)) = Some [0, 2, 4]
   \<and> map_option (\<lambda>r. snapshotSteps (st_out r))
       (rungeKutta (zeroMesh 1 1) cfgQuarter () (zeroField 1)) = Some [0, 2, 4]"
proof -
  let ?e = "saveToFile cfgQuarter (eulerState (zeroMesh 1 1) cfgQuarter () (zeroField 1) 5)"
  let ?k = "saveToFile cfgQuarter (rkState (zeroMesh 1 1) cfgQuarter () (zeroField 1) 5)"
  have e: "forwardEuler (zeroMesh 1 1) cfgQuarter () (zeroField 1) = Some ?e"
    using cfgQuarter_count by (intro forwardEuler_eq) simp_all
  have k: "rungeKutta (zeroMesh 1 1) cfgQuarter () (zeroField 1) = Some ?k"
    using cfgQuarter_count by (intro rungeKutta_eq) simp_all
  have h: "0 < timeStep cfgQuarter \<and> 1 \<le> (2::nat)
      \<and> timeRate cfgQuarter = real 2 * timeStep cfgQuarter \<and> exactAccum cfgQuarter 2"
    using cfgQuarter_exactAccum by (simp add: cfgQuarter_def mkConfig_def)
  have "[0..<5] = [0, 1, 2, 3, 4::nat]"
    by code_simp
  then have f: "filter (\<lambda>k. 2 dvd k) [0..<5] = [0, 2, 4::nat]"
    by simp
  have st: "st_step ?e = 5" "st_step ?k = 5"
    by (simp_all add: eulerState_ctrl rkState_ctrl)
  note sc = snapshot_cadence[where ops = "zeroMesh 1 1" and cfg = cfgQuarter and m = "()"
      and u = "zeroField 1" and p = 2]
  note c3 = sc[THEN conjunct2, THEN conjunct2, THEN conjunct1, rule_format, OF h, of 5]
  note c4 = sc[THEN conjunct2, THEN conjunct2, THEN conjunct2, THEN conjunct1, rule_format, OF e]
  note c5 = sc[THEN conjunct2, THEN conjunct2, THEN conjunct2, THEN conjunct2, rule_format, OF k]
  show ?thesis
    using c3 c4 c5 unfolding e k st by (simp add: f)
qed

text \<open>
  C4 as stated fails in double arithmetic. With \<^verbatim>\<open>timeStep = 0.1\<close> and
  \<^verbatim>\<open>timeRate = 0.8\<close> the rate is exactly 8 time steps (as doubles and as reals), yet on
  [0, 1] the snapshots are taken at steps 0 and 9, not at 0 and 8: eight accumulated
  additions of \<^verbatim>\<open>0.1\<close> give \<^verbatim>\<open>0.7999999999999999\<close>, which is below \<^verbatim>\<open>0.8\<close>.
\<close>

theorem snapshot_cadence_counterexample:
  "0 < timeStep cfgTenthB \<and> timeRate cfgTenthB = 8 * timeStep cfgTenthB
   \<and> map_option (\<lambda>r. snapshotSteps (st_out r))
        (forwardEuler (zeroMesh 1 1) cfgTenthB () (zeroField 1)) = Some [0, 9]
   \<and> map_option (\<lambda>r. snapshotSteps (st_out r))
        (rungeKutta (zeroMesh 1 1) cfgTenthB () (zeroField 1)) = Some [0, 9]"
proof -
  have "forwardEuler (zeroMesh 1 1) cfgTenthB () (zeroField 1)
      = Some (saveToFile cfgTenthB (eulerState (zeroMesh 1 1) cfgTenthB () (zeroField 1) 11))"
    using cfgTenthB_count by (intro forwardEuler_eq) simp_all
  moreover have "rungeKutta (zeroMesh 1 1) cfgTenthB () (zeroField 1)
      = Some (saveToFile cfgTenthB (rkState (zeroMesh 1 1) cfgTenthB () (zeroField 1) 11))"
    using cfgTenthB_count by (intro rungeKutta_eq) simp_all
  moreover have "0 < timeStep cfgTenthB \<and> timeRate cfgTenthB = 8 * timeStep cfgTenthB"
    by (simp add: cfgTenthB_def mkConfig_def d01 d08)
  ultimately show ?thesis
    by (simp add: eulerState_ctrl rkState_ctrl due_eval cfgTenthB_due)
qed

section \<open>The update kernel\<close>

lemma length_linEq [simp]: "length (linEq A X Y a b N) = length Y"
  by (simp add: linEq_def)

lemma nth_linEq:
  "i < length Y \<Longrightarrow>
     linEq A X Y a b N ! i = (if i < N then a * matvec A X N i + b * Y ! i else Y ! i)"
  by (simp add: linEq_def)

lemma length_at_ptr_linEq [simp]:
  "length (at_ptr off (\<lambda>Y. linEq A X Y a b N) v) = length v"
  by (simp add: at_ptr_def)

lemma nth_at_ptr_linEq:
  assumes "j < length v"
  shows "at_ptr off (\<lambda>Y. linEq A X Y a b N) v ! j =
     (if off \<le> j \<and> j < off + N then a * matvec A X N (j - off) + b * v ! j else v ! j)"
proof (cases "j < off")
  case True
  then show ?thesis using assms by (simp add: at_ptr_def nth_append)
next
  case False
  then have o: "off \<le> j" "off \<le> length v" using assms by simp_all
  have "at_ptr off (\<lambda>Y. linEq A X Y a b N) v ! j = linEq A X (drop off v) a b N ! (j - off)"
    using False o by (simp add: at_ptr_def nth_append min_def)
  also have "\<dots> = (if j - off < N then a * matvec A X N (j - off) + b * v ! j else v ! j)"
    using assms o by (simp add: nth_linEq)
  finally show ?thesis using o by (simp add: less_diff_conv2)
qed

lemma length_elStep [simp]: "length (elStep ops cfg N beta Fl m eq el u) = length u"
  by (simp add: elStep_def Let_def)

lemma elStep_nth_other: "k \<noteq> eq \<Longrightarrow> elStep ops cfg N beta Fl m eq el u ! k = u ! k"
  by (simp add: elStep_def Let_def)

lemma length_elStep_nth [simp]:
  "length (elStep ops cfg N beta Fl m eq el u ! k) = length (u ! k)"
proof (cases "k = eq \<and> eq < length u")
  case True
  then show ?thesis by (simp add: elStep_def Let_def)
next
  case False
  then show ?thesis
    by (cases "k = eq") (simp_all add: elStep_def Let_def list_update_beyond)
qed

lemma elStep_nth:
  assumes "eq < length u" and "j < length (u ! eq)"
  shows "elStep ops cfg N beta Fl m eq el u ! eq ! j =
     (if el * N \<le> j \<and> j < el * N + N
      then timeStep cfg *
             matvec (elMassMatrix ops m el)
               (minus_v (getElStiffVector ops m el (Fl ! eq) (u ! eq)) (getElFlux ops m el) N)
               N (j - el * N)
           + beta * u ! eq ! j
      else u ! eq ! j)"
  using assms by (simp add: elStep_def Let_def nth_at_ptr_linEq)

lemma length_fold_elStep [simp]:
  "length (fold (elStep ops cfg N beta Fl m eq) els u) = length u"
  by (induction els arbitrary: u) simp_all

lemma length_fold_elStep_nth [simp]:
  "length (fold (elStep ops cfg N beta Fl m eq) els u ! k) = length (u ! k)"
  by (induction els arbitrary: u) simp_all

lemma fold_elStep_nth_other:
  "k \<noteq> eq \<Longrightarrow> fold (elStep ops cfg N beta Fl m eq) els u ! k = u ! k"
  by (induction els arbitrary: u) (simp_all add: elStep_nth_other)

lemma fold_elStep_outside:
  assumes "eq < length u" and "j < length (u ! eq)"
    and "\<forall>el\<in>set els. \<not> (el * N \<le> j \<and> j < el * N + N)"
  shows "fold (elStep ops cfg N beta Fl m eq) els u ! eq ! j = u ! eq ! j"
  using assms
proof (induction els arbitrary: u)
  case Nil
  then show ?case by simp
next
  case (Cons el els)
  have "fold (elStep ops cfg N beta Fl m eq) els (elStep ops cfg N beta Fl m eq el u) ! eq ! j
      = elStep ops cfg N beta Fl m eq el u ! eq ! j"
    using Cons.prems by (intro Cons.IH) simp_all
  also have "\<dots> = u ! eq ! j"
    using Cons.prems by (auto simp: elStep_nth)
  finally show ?case by simp
qed

lemma length_eqStep [simp]: "length (snd (eqStep ops cfg N beta Fl eq mu)) = length (snd mu)"
  by (simp add: eqStep_def Let_def)

lemma length_eqStep_nth [simp]:
  "length (snd (eqStep ops cfg N beta Fl eq mu) ! k) = length (snd mu ! k)"
  by (simp add: eqStep_def Let_def)

lemma eqStep_nth_other: "k \<noteq> eq \<Longrightarrow> snd (eqStep ops cfg N beta Fl eq mu) ! k = snd mu ! k"
  by (simp add: eqStep_def Let_def fold_elStep_nth_other)

lemma length_fold_eqStep [simp]:
  "length (snd (fold (eqStep ops cfg N beta Fl) eqs mu)) = length (snd mu)"
  by (induction eqs arbitrary: mu) simp_all

lemma length_fold_eqStep_nth [simp]:
  "length (snd (fold (eqStep ops cfg N beta Fl) eqs mu) ! k) = length (snd mu ! k)"
  by (induction eqs arbitrary: mu) simp_all

lemma fold_eqStep_nth_other:
  "k \<notin> set eqs \<Longrightarrow> snd (fold (eqStep ops cfg N beta Fl) eqs mu) ! k = snd mu ! k"
  by (induction eqs arbitrary: mu) (simp_all add: eqStep_nth_other)

lemma length_numStep [simp]: "length (snd (numStep ops cfg N beta Fl mu)) = length (snd mu)"
  by (simp add: numStep_def)

lemma length_numStep_nth [simp]:
  "length (snd (numStep ops cfg N beta Fl mu) ! k) = length (snd mu ! k)"
  by (simp add: numStep_def)

lemma upt_split3:
  assumes "k < n"
  shows "[0..<n] = [0..<k] @ k # [Suc k..<n]"
proof -
  have "[0..<n] = [0..<k] @ [k..<n]"
    using assms upt_add_eq_append[of 0 k "n - k"] by simp
  also have "[k..<n] = k # [Suc k..<n]"
    using assms by (rule upt_conv_Cons)
  finally show ?thesis .
qed

lemma block_after:
  fixes el el' i N :: nat
  assumes "Suc el \<le> el'" and "i < N"
  shows "\<not> (el' * N \<le> el * N + i \<and> el * N + i < el' * N + N)"
proof -
  have "Suc el * N \<le> el' * N" using assms(1) by (intro mult_le_mono1)
  then show ?thesis using assms(2) by simp
qed

lemma block_before:
  fixes el el' i N :: nat
  assumes "el' < el"
  shows "\<not> (el' * N \<le> el * N + i \<and> el * N + i < el' * N + N)"
proof -
  have "Suc el' * N \<le> el * N" using assms by (intro mult_le_mono1) simp
  then show ?thesis by simp
qed

lemma matvec_minus_v:
  assumes "N \<le> length S"
  shows "matvec M (minus_v S F N) N i = (\<Sum>j\<leftarrow>[0..<N]. M ! (i * N + j) * (S ! j - F ! j))"
  unfolding matvec_def
  by (intro arg_cong[where f = sum_list] map_cong) (use assms in \<open>simp_all add: minus_v_def\<close>)

text \<open>The block of element \<open>el\<close> in equation \<open>eq\<close> after a whole \<^verbatim>\<open>numStep\<close>.\<close>

lemma numStep_block:
  fixes mu :: "'m \<times> real list list"
  assumes eq: "eq < 4" and len: "length (snd mu) = 4"
    and st: "(me, ue) = elState ops cfg N beta Fl mu eq el"
    and el: "el < getElNum ops me"
    and blk: "(el + 1) * N \<le> length (snd mu ! eq)"
    and i: "i < N"
  shows "snd (numStep ops cfg N beta Fl mu) ! eq ! (el * N + i)
           = timeStep cfg *
               matvec (elMassMatrix ops me el)
                 (minus_v (getElStiffVector ops me el (Fl ! eq) (ue ! eq)) (getElFlux ops me el) N)
                 N i
             + beta * snd mu ! eq ! (el * N + i)"
    and "ue ! eq ! (el * N + i) = snd mu ! eq ! (el * N + i)"
proof -
  let ?j = "el * N + i"
  let ?mq = "eqState ops cfg N beta Fl mu eq"
  have me: "me = precomputeFlux ops (fst ?mq) (snd ?mq ! eq) (Fl ! eq) eq"
    and ue: "ue = fold (elStep ops cfg N beta Fl me eq) [0..<el] (snd ?mq)"
    using st by (simp_all add: elState_def Let_def)
  have mq_eq: "snd ?mq ! eq = snd mu ! eq"
    unfolding eqState_def by (rule fold_eqStep_nth_other) simp
  have mq_len: "length (snd ?mq) = 4"
    unfolding eqState_def using len by simp
  have j: "?j < length (snd mu ! eq)" using blk i by simp
  have ue_j: "ue ! eq ! ?j = snd ?mq ! eq ! ?j"
    unfolding ue using eq mq_len j mq_eq
    by (intro fold_elStep_outside) (simp_all add: block_before)
  then show old: "ue ! eq ! ?j = snd mu ! eq ! ?j" by (simp add: mq_eq)
  let ?u' = "elStep ops cfg N beta Fl me eq el ue"
  have ue_len: "length ue = 4" "length (ue ! eq) = length (snd mu ! eq)"
    unfolding ue using mq_len mq_eq by simp_all
  have u'_j: "?u' ! eq ! ?j = timeStep cfg *
       matvec (elMassMatrix ops me el)
         (minus_v (getElStiffVector ops me el (Fl ! eq) (ue ! eq)) (getElFlux ops me el) N)
         N i + beta * ue ! eq ! ?j"
    using eq ue_len j i by (simp add: elStep_nth)
  have split_el: "[0..<getElNum ops me] = [0..<el] @ el # [Suc el..<getElNum ops me]"
    using el by (rule upt_split3)
  have q': "snd (eqStep ops cfg N beta Fl eq ?mq)
      = fold (elStep ops cfg N beta Fl me eq) [Suc el..<getElNum ops me] ?u'"
    by (simp add: eqStep_def Let_def me[symmetric] split_el ue[symmetric])
  have "snd (eqStep ops cfg N beta Fl eq ?mq) ! eq ! ?j = ?u' ! eq ! ?j"
    unfolding q' using eq ue_len j i
    by (intro fold_elStep_outside) (simp_all add: block_after)
  moreover have "snd (numStep ops cfg N beta Fl mu) ! eq
      = snd (eqStep ops cfg N beta Fl eq ?mq) ! eq"
  proof -
    have "[0..<4] = [0..<eq] @ eq # [Suc eq..<4]" using eq by (rule upt_split3)
    then have "numStep ops cfg N beta Fl mu
        = fold (eqStep ops cfg N beta Fl) [Suc eq..<4] (eqStep ops cfg N beta Fl eq ?mq)"
      by (simp add: numStep_def eqState_def)
    then show ?thesis by (simp add: fold_eqStep_nth_other)
  qed
  ultimately show "snd (numStep ops cfg N beta Fl mu) ! eq ! ?j
           = timeStep cfg *
               matvec (elMassMatrix ops me el)
                 (minus_v (getElStiffVector ops me el (Fl ! eq) (ue ! eq)) (getElFlux ops me el) N)
                 N i
             + beta * snd mu ! eq ! ?j"
    using u'_j old by simp
qed

section \<open>C1: one forward Euler step on an element block\<close>

text \<open>
  C1. For every equation \<open>eq\<close> in 0..3 and every element \<open>el\<close>, one forward Euler step
  (the flux refresh followed by \<^verbatim>\<open>numStep\<close> with \<open>beta = 1\<close>) replaces entry \<open>i\<close> of the
  element's block of \<open>elNumNodes\<close> entries in \<open>u[eq]\<close> by \<open>dt\<close> times row \<open>i\<close> of the
  element's stored mass-matrix inverse applied to (stiffness vector minus flux vector),
  plus the old entry. The stiffness vector \<open>S\<close>, the flux vector \<open>F\<close> and the matrix
  \<open>M\<close> are those the mesh returns when the element loop of equation \<open>eq\<close> reaches \<open>el\<close>
  (mesh state \<open>me\<close>, solution \<open>ue\<close>, refreshed flux tensor \<open>snd mF\<close>); the block of
  \<open>el\<close> in \<open>ue\<close> still holds the old values.
\<close>

theorem euler_step_block:
  assumes "eq < 4" and "length u = 4"
    and "mF = updateFlux ops m u Fl (v0 cfg) (c0 cfg) (rho0 cfg)"
    and "(me, ue) = elState ops cfg (elNumNodes g) 1 (snd mF) (fst mF, u) eq el"
    and "el < getElNum ops me"
    and "(el + 1) * elNumNodes g \<le> length (u ! eq)"
    and "S = getElStiffVector ops me el (snd mF ! eq) (ue ! eq)" and "elNumNodes g \<le> length S"
    and "F = getElFlux ops me el" and "M = elMassMatrix ops me el"
    and "i < elNumNodes g"
  shows "snd (snd (eulerUpdate ops cfg g m Fl u)) ! eq ! (el * elNumNodes g + i)
           = timeStep cfg * (\<Sum>j\<leftarrow>[0..<elNumNodes g]. M ! (i * elNumNodes g + j) * (S ! j - F ! j))
             + u ! eq ! (el * elNumNodes g + i)
       \<and> ue ! eq ! (el * elNumNodes g + i) = u ! eq ! (el * elNumNodes g + i)"
proof -
  let ?N = "elNumNodes g"
  have mu: "length (snd (fst mF, u)) = 4" "(el + 1) * ?N \<le> length (snd (fst mF, u) ! eq)"
    using assms(2,6) by simp_all
  note blk = numStep_block[OF assms(1) mu(1) assms(4) assms(5) mu(2) assms(11)]
  have "snd (snd (eulerUpdate ops cfg g m Fl u)) = snd (numStep ops cfg ?N 1 (snd mF) (fst mF, u))"
    by (simp add: eulerUpdate_def Let_def assms(3))
  then show ?thesis
    using blk matvec_minus_v[OF assms(8), of M F i] assms(7,9,10) by simp
qed

theorem euler_step_block_witness:
  "snd (snd (eulerUpdate demoMesh cfgQuarter (initGlobals demoMesh ()) () [] demoField)) ! 0 ! 2
     = 25 / 4"
proof -
  let ?g = "initGlobals demoMesh ()"
  let ?Fl = "map (map (\<lambda>x. [x, 0, 0])) demoField"
  let ?ue = "[[2, 7 / 2, 3, 4], [0, 0, 0, 0], [1, 1, 1, 1], [0, 1, 0, 1 :: real]]"
  have N: "elNumNodes ?g = 2" by (simp add: initGlobals_def demoMesh_def)
  have mF: "((), ?Fl) = updateFlux demoMesh () demoField []
      (v0 cfgQuarter) (c0 cfgQuarter) (rho0 cfgQuarter)"
    by (simp add: demoMesh_def)
  have st: "((), ?ue) = elState demoMesh cfgQuarter (elNumNodes ?g) 1 (snd ((), ?Fl))
      (fst ((), ?Fl), demoField) 0 1"
    by code_simp
  have h: "(0::nat) < 4" "length demoField = 4" "1 < getElNum demoMesh ()"
    "(1 + 1) * elNumNodes ?g \<le> length (demoField ! 0)"
    "[6, 4] = getElStiffVector demoMesh () 1 (snd ((), ?Fl) ! 0) (?ue ! 0)"
    "elNumNodes ?g \<le> length [6, 4 :: real]"
    "[1, 1] = getElFlux demoMesh () 1" "[2, 1, 0, 3] = elMassMatrix demoMesh () 1"
    "0 < elNumNodes ?g"
    unfolding N by (simp_all add: demoField_def demoMesh_def)
  from euler_step_block[OF h(1,2) mF st h(3,4,5,6,7,8,9)]
  show ?thesis
    unfolding N by (simp add: demoField_def cfgQuarter_def mkConfig_def eval_nat_numeral)
qed

section \<open>Loops of in-place updates\<close>

lemma fold_cell_update:
  "length (fold (\<lambda>i w. w[i := g i (w ! i)]) [0..<n] w) = length w
   \<and> (\<forall>j<length w. fold (\<lambda>i w. w[i := g i (w ! i)]) [0..<n] w ! j
          = (if j < n then g j (w ! j) else w ! j))"
proof (induction n)
  case 0
  then show ?case by simp
next
  case (Suc n)
  let ?F = "fold (\<lambda>i w. w[i := g i (w ! i)]) [0..<n] w"
  have len: "length ?F = length w" using Suc by simp
  have nth: "?F ! j = (if j < n then g j (w ! j) else w ! j)" if "j < length w" for j
    using Suc that by simp
  have "?F[n := g n (?F ! n)] ! j = (if j < Suc n then g j (w ! j) else w ! j)"
    if j: "j < length w" for j
  proof (cases "j = n")
    case True
    then show ?thesis using j len nth[of n] by simp
  next
    case False
    then show ?thesis using j nth[of j] by (simp add: less_Suc_eq)
  qed
  then show ?case using len by simp
qed

lemma length_fold_cell_update [simp]:
  "length (fold (\<lambda>i w. w[i := g i (w ! i)]) [0..<n] w) = length w"
  using fold_cell_update[of g n w] by simp

lemma nth_fold_cell_update:
  "j < length w \<Longrightarrow>
     fold (\<lambda>i w. w[i := g i (w ! i)]) [0..<n] w ! j = (if j < n then g j (w ! j) else w ! j)"
  using fold_cell_update[of g n w] by simp

lemma fold_row_update:
  "eq < length u \<Longrightarrow>
     fold (\<lambda>i u. u[eq := (u ! eq)[i := g i (u ! eq ! i)]]) js u
       = u[eq := fold (\<lambda>i w. w[i := g i (w ! i)]) js (u ! eq)]"
proof (induction js arbitrary: u)
  case Nil
  then show ?case by simp
next
  case (Cons i js)
  then show ?case by simp
qed

section \<open>The Runge-Kutta stages\<close>

lemma plusTimes_scale:
  assumes "length B = length A" and "length A \<le> nn"
  shows "plusTimes A B c nn = map (\<lambda>x. x * c) B"
  using assms by (intro nth_equalityI) (simp_all add: plusTimes_def)

lemma plusTimesAll_scale:
  assumes "length B = length A"
    and "\<forall>eq<length A. length (B ! eq) = length (A ! eq) \<and> length (A ! eq) \<le> nn"
  shows "plusTimesAll (length A) A B c nn = scaleField c B"
proof (rule nth_equalityI)
  note fc = fold_cell_update[where g = "\<lambda>eq w. plusTimes w (B ! eq) c nn" and w = A and n = "length A"]
  show "length (plusTimesAll (length A) A B c nn) = length (scaleField c B)"
    using assms(1) fc by (simp add: plusTimesAll_def scaleField_def)
next
  note fc = fold_cell_update[where g = "\<lambda>eq w. plusTimes w (B ! eq) c nn" and w = A and n = "length A"]
  fix eq assume "eq < length (plusTimesAll (length A) A B c nn)"
  then have eq: "eq < length A" using fc by (simp add: plusTimesAll_def)
  have "plusTimesAll (length A) A B c nn ! eq = plusTimes (A ! eq) (B ! eq) c nn"
    using eq fc by (simp add: plusTimesAll_def)
  also have "\<dots> = map (\<lambda>x. x * c) (B ! eq)"
    using assms(2) eq by (intro plusTimes_scale) simp_all
  finally show "plusTimesAll (length A) A B c nn ! eq = scaleField c B ! eq"
    using eq assms(1) by (simp add: scaleField_def)
qed

lemma rkStage_shape [simp]:
  "length (snd (rkStage ops cfg g mF k)) = length k"
  "length (snd (rkStage ops cfg g mF k) ! eq) = length (k ! eq)"
  by (simp_all add: rkStage_def Let_def)

section \<open>C2: the scaling between the Runge-Kutta stages\<close>

text \<open>
  C2. When every \<open>u[eq]\<close> holds \<open>numNodes\<close> entries, the stage sequence of lines 261 to 279
  is the one the specification describes: after stage 1's \<^verbatim>\<open>numStep(k1, beta=0)\<close>, \<open>k2\<close> is
  set pointwise to \<open>k1 * 0.5\<close>; after stage 2, \<open>k3\<close> is set to \<open>k2 * 0.5\<close>; after stage 3,
  \<open>k4\<close> is set to \<open>k3 * 1\<close>; and each scaled vector is the one the next stage's flux
  refresh and \<^verbatim>\<open>numStep\<close> start from.
\<close>

theorem rk_stage_scaling:
  assumes "\<forall>eq<length u. length (u ! eq) = numNodes g"
  shows "rkStages ops cfg g mF u = rkStages_spec ops cfg g mF u"
proof -
  have sc: "plusTimesAll (length u) u (snd (rkStage ops cfg g mF' k)) c (numNodes g)
      = scaleField c (snd (rkStage ops cfg g mF' k))"
    if "length k = length u" "\<forall>eq<length u. length (k ! eq) = length (u ! eq)" for mF' k c
    using that assms by (intro plusTimesAll_scale) simp_all
  have shape: "length (scaleField c k) = length k"
    "\<forall>eq<length k. length (scaleField c k ! eq) = length (k ! eq)" for c k
    by (simp_all add: scaleField_def)
  let ?r1 = "rkStage ops cfg g mF u"
  have k2: "plusTimesAll (length u) u (snd ?r1) (1 / 2) (numNodes g) = scaleField (1 / 2) (snd ?r1)"
    by (rule sc) simp_all
  let ?r2 = "rkStage ops cfg g (fst ?r1) (scaleField (1 / 2) (snd ?r1))"
  have k3: "plusTimesAll (length u) u (snd ?r2) (1 / 2) (numNodes g) = scaleField (1 / 2) (snd ?r2)"
    by (rule sc) (simp_all add: shape)
  let ?r3 = "rkStage ops cfg g (fst ?r2) (scaleField (1 / 2) (snd ?r2))"
  have k4: "plusTimesAll (length u) u (snd ?r3) 1 (numNodes g) = scaleField 1 (snd ?r3)"
    by (rule sc) (simp_all add: shape)
  show ?thesis
    by (simp add: rkStages_def rkStages_spec_def Let_def k2 k3 k4)
qed

theorem rk_stage_scaling_witness:
  "fst (snd (snd (rkStages demoMesh cfgQuarter (initGlobals demoMesh ()) ((), []) demoField)))
     = [[3 / 16, 9 / 16, 37 / 32, 3 / 32], [- (3 / 4), 0, - (39 / 32), - (33 / 32)],
        [- (1 / 32), 9 / 32, - (1 / 2), - (3 / 4)], [- (17 / 32), 9 / 32, - 1, - (3 / 4)]]"
proof -
  have h: "\<forall>eq<length demoField. length (demoField ! eq) = numNodes (initGlobals demoMesh ())"
    by (simp add: demoField_def initGlobals_def demoMesh_def less_Suc_eq)
  have "fst (snd (snd (rkStages_spec demoMesh cfgQuarter (initGlobals demoMesh ()) ((), []) demoField)))
     = [[3 / 16, 9 / 16, 37 / 32, 3 / 32], [- (3 / 4), 0, - (39 / 32), - (33 / 32)],
        [- (1 / 32), 9 / 32, - (1 / 2), - (3 / 4)], [- (17 / 32), 9 / 32, - 1, - (3 / 4)]]"
    by code_simp
  then show ?thesis
    using rk_stage_scaling[OF h, of demoMesh cfgQuarter "((), [])"] by simp
qed

section \<open>C3: the Runge-Kutta combination\<close>

lemma rkCombine_rows:
  assumes "n \<le> length u"
  shows "fold (\<lambda>eq u. fold (\<lambda>i u. u[eq := (u ! eq)[i := u ! eq ! i + d eq i]]) [0..<nn] u) [0..<n] u
       = fold (\<lambda>eq u. u[eq := fold (\<lambda>i w. w[i := w ! i + d eq i]) [0..<nn] (u ! eq)]) [0..<n] u"
  using assms
proof (induction n)
  case 0
  then show ?case by simp
next
  case (Suc n)
  let ?U = "fold (\<lambda>eq u. u[eq := fold (\<lambda>i w. w[i := w ! i + d eq i]) [0..<nn] (u ! eq)]) [0..<n] u"
  have len: "length ?U = length u"
    using fold_cell_update[where g = "\<lambda>eq w. fold (\<lambda>i w. w[i := w ! i + d eq i]) [0..<nn] w"
        and w = u and n = n] by simp
  have "fold (\<lambda>i u. u[n := (u ! n)[i := u ! n ! i + d n i]]) [0..<nn] ?U
      = ?U[n := fold (\<lambda>i w. w[i := w ! i + d n i]) [0..<nn] (?U ! n)]"
    using Suc.prems len by (intro fold_row_update[where g = "\<lambda>i x. x + d n i"]) simp
  then show ?case using Suc by simp
qed

lemma rkCombine_nth:
  assumes "eq < length u" and "i < length (u ! eq)"
  shows "rkCombine nn u k1 k2 k3 k4 ! eq ! i =
     (if i < nn
      then u ! eq ! i + (k1 ! eq ! i + 2 * k2 ! eq ! i + 2 * k3 ! eq ! i + k4 ! eq ! i) / 6
      else u ! eq ! i)"
proof -
  let ?d = "\<lambda>eq i. (k1 ! eq ! i + 2 * k2 ! eq ! i + 2 * k3 ! eq ! i + k4 ! eq ! i) / 6"
  let ?row = "\<lambda>eq w. fold (\<lambda>i w. w[i := w ! i + ?d eq i]) [0..<nn] w"
  have "rkCombine nn u k1 k2 k3 k4 = fold (\<lambda>eq u. u[eq := ?row eq (u ! eq)]) [0..<length u] u"
    unfolding rkCombine_def by (rule rkCombine_rows) simp
  then have "rkCombine nn u k1 k2 k3 k4 ! eq = ?row eq (u ! eq)"
    using assms(1) fold_cell_update[where g = ?row and w = u and n = "length u"] by simp
  then show ?thesis
    using assms(2) fold_cell_update[where g = "\<lambda>i x. x + ?d eq i" and w = "u ! eq" and n = nn]
    by simp
qed

lemma snapshotCheck_fields [simp]:
  "st_t (snapshotCheck ops cfg g s) = st_t s" "st_u (snapshotCheck ops cfg g s) = st_u s"
  "st_mesh (snapshotCheck ops cfg g s) = st_mesh s" "st_Flux (snapshotCheck ops cfg g s) = st_Flux s"
  "st_step (snapshotCheck ops cfg g s) = st_step s"
  by (simp_all add: snapshotCheck_def saveStep_def Let_def)

lemma rkIter_u:
  "st_u (rkIter ops cfg g idx s)
     = snd (snd (rkUpdate ops cfg g (st_mesh s) (st_Flux s) (updateSource cfg idx (st_t s) (st_u s))))"
  by (simp add: rkIter_def Let_def advance_def)

lemma eulerIter_u:
  "st_u (eulerIter ops cfg g idx s)
     = snd (snd (eulerUpdate ops cfg g (st_mesh s) (st_Flux s) (updateSource cfg idx (st_t s) (st_u s))))"
  by (simp add: eulerIter_def Let_def advance_def)

text \<open>
  C3. In an iteration of \<^verbatim>\<open>rungeKutta\<close>, let \<open>u1\<close> be the solution after the source
  injection and \<open>k1\<close> to \<open>k4\<close> the stage vectors computed from it by the four stages of
  that iteration. After the iteration, for every equation \<open>eq\<close> in 0..3 and every node
  index \<open>i\<close> in 0..numNodes-1,
  \<open>u[eq][i] = u1[eq][i] + (k1[eq][i] + 2 k2[eq][i] + 2 k3[eq][i] + k4[eq][i]) / 6\<close>.
\<close>

theorem rk_combination:
  assumes "u1 = updateSource cfg idx (st_t s) (st_u s)"
    and "rkStages ops cfg g (st_mesh s, st_Flux s) u1 = (mF, k1, k2, k3, k4)"
    and "length u1 = 4" and "eq < 4" and "i < numNodes g" and "numNodes g = length (u1 ! eq)"
  shows "st_u (rkIter ops cfg g idx s) ! eq ! i
           = u1 ! eq ! i + (k1 ! eq ! i + 2 * k2 ! eq ! i + 2 * k3 ! eq ! i + k4 ! eq ! i) / 6"
proof -
  have "st_u (rkIter ops cfg g idx s) = rkCombine (numNodes g) u1 k1 k2 k3 k4"
    using assms(1,2) by (simp add: rkIter_u rkUpdate_def)
  then show ?thesis
    using assms(3-6) by (simp add: rkCombine_nth)
qed

theorem rk_combination_witness:
  "st_u (rkIter demoMesh cfgQuarter (initGlobals demoMesh ()) []
           (initState demoMesh cfgQuarter () demoField)) ! 0 ! 2 = 22685 / 6144"
proof -
  let ?g = "initGlobals demoMesh ()"
  let ?s = "initState demoMesh cfgQuarter () demoField"
  let ?k1 = "[[1, 3 / 2, 13 / 4, 9 / 4], [- (1 / 2), 0, - (3 / 4), - (3 / 4)],
              [3 / 4, 3 / 4, 1 / 2, 0], [- (1 / 4), 3 / 4, - (1 / 2), 0 :: real]]"
  let ?k2 = "[[3 / 16, 9 / 16, 37 / 32, 3 / 32], [- (3 / 4), 0, - (39 / 32), - (33 / 32)],
              [- (1 / 32), 9 / 32, - (1 / 2), - (3 / 4)],
              [- (17 / 32), 9 / 32, - 1, - (3 / 4) :: real]]"
  let ?k3 = "[[- (43 / 128), 27 / 128, - (41 / 256), - (183 / 256)],
              [- (7 / 8), 0, - (381 / 256), - (291 / 256)],
              [- (123 / 256), 27 / 256, - (35 / 32), - (33 / 32)],
              [- (187 / 256), 27 / 256, - (43 / 32), - (33 / 32) :: real]]"
  let ?k4 = "[[- (401 / 512), 81 / 512, - (1115 / 1024), - (1317 / 1024)],
              [- (11 / 8), 0, - (2583 / 1024), - (1641 / 1024)],
              [- (977 / 1024), 81 / 1024, - (269 / 128), - (195 / 128)],
              [- (1233 / 1024), 81 / 1024, - (301 / 128), - (195 / 128) :: real]]"
  have u1: "demoField = updateSource cfgQuarter [] (st_t ?s) (st_u ?s)"
    by (simp add: updateSource_def cfgQuarter_def mkConfig_def initState_def)
  have "snd (rkStages demoMesh cfgQuarter ?g (st_mesh ?s, st_Flux ?s) demoField)
      = (?k1, ?k2, ?k3, ?k4)"
    by code_simp
  then have st: "rkStages demoMesh cfgQuarter ?g (st_mesh ?s, st_Flux ?s) demoField
      = (fst (rkStages demoMesh cfgQuarter ?g (st_mesh ?s, st_Flux ?s) demoField),
         ?k1, ?k2, ?k3, ?k4)"
    by (metis prod.collapse)
  have h: "length demoField = 4" "(0::nat) < 4" "2 < numNodes ?g"
    "numNodes ?g = length (demoField ! 0)"
    by (simp_all add: demoField_def initGlobals_def demoMesh_def)
  from rk_combination[OF u1 st h]
  show ?thesis by (simp add: demoField_def)
qed

section \<open>C6: membership in a source's node set\<close>

lemma dbl_small:
  "rnd53 0 = 0" "rnd53 1 = 1" "rnd53 (- 1) = - 1" "rnd53 2 = 2" "rnd53 4 = 4"
  by (simp_all add: dbl_eval)

lemma d09: "rnd53 (9 / 10) = 8106479329266893 / 9007199254740992"
  by (simp add: dbl_eval)

lemma d12: "rnd53 (6 / 5) = 5404319552844595 / 4503599627370496"
  by (simp add: dbl_eval)

text \<open>
  C6, as amended. For every configured source \<open>i\<close> and every mesh node \<open>n\<close>, the node is
  in the source's precomputed index vector if and only if the squared distance as the code
  computes it in double arithmetic (the three coordinate differences, their squares and
  the two sums, each rounded) is strictly less than the rounded square of the radius. When
  none of these operations rounds, this is the case if and only if the squared Euclidean
  distance from the node to the source centre is strictly less than the squared radius,
  and a node whose distance equals the radius exactly is excluded. Both integrators compute
  the index vectors by the same lines (86 to 99 and 197 to 210), the function
  \<open>sourceIndices\<close>.
\<close>

theorem source_membership:
  assumes "i < length (sources cfg)" and "n < getNumNodes ops m"
    and "src = sources cfg ! i" and "coord = getNode ops m n"
  shows "(n \<in> set (sourceIndices ops m cfg ! i) \<longleftrightarrow>
            dadd (dadd (dsq (dsub (coord ! 0) (src ! 1))) (dsq (dsub (coord ! 1) (src ! 2))))
                 (dsq (dsub (coord ! 2) (src ! 3)))
              < dsq (src ! 4))
       \<and> (exactSquares coord src \<longrightarrow>
            (n \<in> set (sourceIndices ops m cfg ! i) \<longleftrightarrow> sqDist coord src < (src ! 4)\<^sup>2)
          \<and> (sqrt (sqDist coord src) = src ! 4 \<longrightarrow> n \<notin> set (sourceIndices ops m cfg ! i)))"
proof -
  have mem: "n \<in> set (sourceIndices ops m cfg ! i) \<longleftrightarrow> inSource coord src"
    using assms by (simp add: sourceIndices_def)
  have ex: "inSource coord src \<longleftrightarrow> sqDist coord src < (src ! 4)\<^sup>2" if "exactSquares coord src"
    using that by (simp add: inSource_def exactSquares_def)
  have "sqDist coord src = (src ! 4)\<^sup>2" if "sqrt (sqDist coord src) = src ! 4"
  proof -
    have "0 \<le> sqDist coord src" by (simp add: sqDist_def)
    then have "(sqrt (sqDist coord src))\<^sup>2 = sqDist coord src" by simp
    then show ?thesis using that by simp
  qed
  then show ?thesis using mem ex by (auto simp: inSource_def)
qed

lemma exactSquares_line:
  "exactSquares [0, 0, 0] [0, 1, 0, 0, 1, 1, 1, 0, 10]"
  "exactSquares [1, 0, 0] [0, 1, 0, 0, 1, 1, 1, 0, 10]"
  "exactSquares [2, 0, 0] [0, 1, 0, 0, 1, 1, 1, 0, 10]"
  "exactSquares [3, 0, 0] [0, 1, 0, 0, 1, 1, 1, 0, 10]"
  by (simp_all add: exactSquares_def sqDist_def dsub_def dsq_def dadd_def dbl_small)

theorem source_membership_witness:
  "sourceIndices (zeroMesh 2 2) () (mkConfig 0 1 (1 / 4) (1 / 2) [[0, 1, 0, 0, 1, 1, 1, 0, 10]]) ! 0
     = [1]"
proof -
  let ?cfg = "mkConfig 0 1 (1 / 4) (1 / 2) [[0, 1, 0, 0, 1, 1, 1, 0, 10]]"
  let ?src = "[0, 1, 0, 0, 1, 1, 1, 0, 10 :: real]"
  let ?I = "sourceIndices (zeroMesh 2 2) () ?cfg ! 0"
  have h: "0 < length (sources ?cfg)" "?src = sources ?cfg ! 0"
    by (simp_all add: mkConfig_def)
  have n: "(0::nat) < getNumNodes (zeroMesh 2 2) ()" "1 < getNumNodes (zeroMesh 2 2) ()"
    "2 < getNumNodes (zeroMesh 2 2) ()" "3 < getNumNodes (zeroMesh 2 2) ()"
    by (simp_all add: zeroMesh_def)
  have c: "[0, 0, 0] = getNode (zeroMesh 2 2) () 0" "[1, 0, 0] = getNode (zeroMesh 2 2) () 1"
    "[2, 0, 0] = getNode (zeroMesh 2 2) () 2" "[3, 0, 0] = getNode (zeroMesh 2 2) () 3"
    by (simp_all add: zeroMesh_def)
  have "0 \<notin> set ?I"
    using source_membership[OF h(1) n(1) h(2) c(1), THEN conjunct2, rule_format,
        OF exactSquares_line(1)]
    by (simp add: sqDist_def)
  moreover have "1 \<in> set ?I"
    using source_membership[OF h(1) n(2) h(2) c(2), THEN conjunct2, rule_format,
        OF exactSquares_line(2)]
    by (simp add: sqDist_def)
  moreover have "2 \<notin> set ?I"
    using source_membership[OF h(1) n(3) h(2) c(3), THEN conjunct2, rule_format,
        OF exactSquares_line(3)]
    by (simp add: sqDist_def)
  moreover have "3 \<notin> set ?I"
    using source_membership[OF h(1) n(4) h(2) c(4), THEN conjunct2, rule_format,
        OF exactSquares_line(4)]
    by (simp add: sqDist_def)
  moreover have "?I = filter (\<lambda>n. n \<in> set ?I) [0, 1, 2, 3]"
  proof -
    have "[0..<getNumNodes (zeroMesh 2 2) ()] = [0, 1, 2, 3]"
      by (simp add: zeroMesh_def eval_nat_numeral)
    then show ?thesis
      by (simp add: sourceIndices_def mkConfig_def)
  qed
  ultimately show ?thesis by simp
qed

text \<open>
  C6 as stated fails in double arithmetic, in both directions. Node 0 of \<open>edgeMesh\<close> lies
  at distance exactly 335544355 from the centre of source 0, whose radius is 335544355, and
  is included: the squares \<open>201326613\<^sup>2\<close> and \<open>335544355\<^sup>2\<close> need more than 53 bits, the
  sum of the rounded squares is rounded down to 112590014172366016 and the square of the
  radius up to 112590014172366032. Node 1 lies strictly inside source 1 (radius 1.5)
  and is excluded: the rounded squares of \<^verbatim>\<open>0.9\<close> and \<^verbatim>\<open>1.2\<close> add up to 2.25, which is
  not below the square of the radius.
\<close>

theorem source_membership_counterexample:
  "sqrt (sqDist (getNode edgeMesh () 0) (sources cfgEdge ! 0)) = sources cfgEdge ! 0 ! 4
   \<and> 0 \<in> set (sourceIndices edgeMesh () cfgEdge ! 0)
   \<and> sqDist (getNode edgeMesh () 1) (sources cfgEdge ! 1) < (sources cfgEdge ! 1 ! 4)\<^sup>2
   \<and> 1 \<notin> set (sourceIndices edgeMesh () cfgEdge ! 1)"
proof -
  have nodes: "[0..<getNumNodes edgeMesh ()] = [0, 1]"
    by (simp add: edgeMesh_def eval_nat_numeral)
  have "sqDist (getNode edgeMesh () 0) (sources cfgEdge ! 0) = 335544355\<^sup>2"
    by (simp add: sqDist_def edgeMesh_def cfgEdge_def mkConfig_def)
  then have a: "sqrt (sqDist (getNode edgeMesh () 0) (sources cfgEdge ! 0)) = sources cfgEdge ! 0 ! 4"
    by (simp only: real_sqrt_abs) (simp add: cfgEdge_def mkConfig_def)
  have b: "inSource (getNode edgeMesh () 0) (sources cfgEdge ! 0)"
    by (simp add: inSource_def edgeMesh_def cfgEdge_def mkConfig_def dsub_def dsq_def)
       (simp add: dbl_eval)
  have c: "sqDist (getNode edgeMesh () 1) (sources cfgEdge ! 1) < (sources cfgEdge ! 1 ! 4)\<^sup>2"
    by (simp add: sqDist_def edgeMesh_def cfgEdge_def mkConfig_def d09 d12 power2_eq_square)
  have d: "\<not> inSource (getNode edgeMesh () 1) (sources cfgEdge ! 1)"
    by (simp add: inSource_def edgeMesh_def cfgEdge_def mkConfig_def dsub_def dsq_def d09 d12)
       (simp add: dbl_eval)
  show ?thesis
    using a b c d by (simp add: sourceIndices_def nodes cfgEdge_def mkConfig_def)
qed

section \<open>The source injection\<close>

lemma fold_set_cells:
  "length (fold (\<lambda>n w. w[n := v]) idx w) = length w
   \<and> (\<forall>j. fold (\<lambda>n w. w[n := v]) idx w ! j
          = (if j \<in> set idx \<and> j < length w then v else w ! j))"
proof (induction idx arbitrary: w)
  case Nil
  then show ?case by simp
next
  case (Cons n idx)
  have step: "w[n := v] ! j = (if j = n \<and> j < length w then v else w ! j)" for j
    by (cases "j = n") (simp_all add: list_update_beyond not_less)
  show ?case using Cons[of "w[n := v]"] by (auto simp: step)
qed

lemma inject_cells:
  "fold (\<lambda>n u. u[0 := (u ! 0)[n := v]]) idx u
     = (if u = [] then u else u[0 := fold (\<lambda>n w. w[n := v]) idx (u ! 0)])"
proof (cases "u = []")
  case True
  have "fold (\<lambda>n u. u[0 := (u ! 0)[n := v]]) idx [] = []"
    by (induction idx) simp_all
  then show ?thesis using True by simp
next
  case False
  then have "0 < length u" by simp
  from fold_row_update[OF this, where g = "\<lambda>i x. v" and js = idx]
  show ?thesis using False by simp
qed

lemma injectSource_expired: "\<not> t < src ! 8 \<Longrightarrow> injectSource t src idx u = u"
  by (simp add: injectSource_def Let_def)

lemma injectSource_shape [simp]:
  "length (injectSource t src idx u) = length u"
  "length (injectSource t src idx u ! k) = length (u ! k)"
  using fold_set_cells[of "src ! 5 * sin (2 * pi * src ! 6 * t + src ! 7)" idx "u ! 0"]
  by (cases k; simp add: injectSource_def Let_def inject_cells)+

lemma injectSource_other: "k \<noteq> 0 \<Longrightarrow> injectSource t src idx u ! k = u ! k"
  by (simp add: injectSource_def Let_def inject_cells)

lemma injectSource_nth:
  "injectSource t src idx u ! 0 ! n =
     (if t < src ! 8 \<and> n \<in> set idx \<and> u \<noteq> [] \<and> n < length (u ! 0)
      then src ! 5 * sin (2 * pi * src ! 6 * t + src ! 7) else u ! 0 ! n)"
  using fold_set_cells[of "src ! 5 * sin (2 * pi * src ! 6 * t + src ! 7)" idx "u ! 0"]
  by (simp add: injectSource_def Let_def inject_cells)

text \<open>The source loop over any list of source numbers.\<close>

lemma stage_shape:
  "length (fold (\<lambda>j u. injectSource t (srcs ! j) (idx ! j) u) js u) = length u
   \<and> length (fold (\<lambda>j u. injectSource t (srcs ! j) (idx ! j) u) js u ! k) = length (u ! k)"
  by (induction js arbitrary: u) simp_all

lemma stage_other:
  "k \<noteq> 0 \<Longrightarrow> fold (\<lambda>j u. injectSource t (srcs ! j) (idx ! j) u) js u ! k = u ! k"
  by (induction js arbitrary: u) (simp_all add: injectSource_other)

lemma stage_frame:
  "\<forall>j\<in>set js. t < srcs ! j ! 8 \<longrightarrow> n \<notin> set (idx ! j)
     \<Longrightarrow> fold (\<lambda>j u. injectSource t (srcs ! j) (idx ! j) u) js u ! 0 ! n = u ! 0 ! n"
  by (induction js arbitrary: u) (auto simp: injectSource_nth)

lemma stage_last_writer:
  assumes "j < L" and "t < srcs ! j ! 8" and "n \<in> set (idx ! j)"
    and "u \<noteq> []" and "n < length (u ! 0)"
    and "\<forall>j'. j < j' \<and> j' < L \<and> t < srcs ! j' ! 8 \<longrightarrow> n \<notin> set (idx ! j')"
  shows "fold (\<lambda>j u. injectSource t (srcs ! j) (idx ! j) u) [0..<L] u ! 0 ! n
           = srcs ! j ! 5 * sin (2 * pi * srcs ! j ! 6 * t + srcs ! j ! 7)"
proof -
  let ?f = "\<lambda>j u. injectSource t (srcs ! j) (idx ! j) u"
  let ?u1 = "fold ?f [0..<j] u"
  have sh: "?u1 \<noteq> []" "n < length (?u1 ! 0)"
    using stage_shape[of t srcs idx "[0..<j]" u 0] assms(4,5) by auto
  have "fold ?f [0..<L] u = fold ?f [Suc j..<L] (?f j ?u1)"
    using upt_split3[OF assms(1)] by simp
  also have "\<dots> ! 0 ! n = ?f j ?u1 ! 0 ! n"
    using assms(6) by (intro stage_frame) simp
  also have "\<dots> = srcs ! j ! 5 * sin (2 * pi * srcs ! j ! 6 * t + srcs ! j ! 7)"
    using assms(2,3) sh by (simp add: injectSource_nth)
  finally show ?thesis .
qed

section \<open>C9: the injection changes nothing else\<close>

text \<open>
  C9. The source-injection stage modifies only the pressure sequence \<open>u[0]\<close>, and within it
  only entries whose index lies in the precomputed node set of a source whose duration has
  not elapsed (\<open>t < duration\<close>): the sequences \<open>u[1]\<close>, \<open>u[2]\<close>, \<open>u[3]\<close> and every
  pressure entry outside the active source sets are unchanged, and no sequence changes its
  length.
\<close>

theorem injection_frame:
  "length (updateSource cfg idx t u) = length u
   \<and> (\<forall>eq. length (updateSource cfg idx t u ! eq) = length (u ! eq))
   \<and> (\<forall>eq. eq \<noteq> 0 \<longrightarrow> updateSource cfg idx t u ! eq = u ! eq)
   \<and> (\<forall>n. (\<forall>j<length (sources cfg). t < sources cfg ! j ! 8 \<longrightarrow> n \<notin> set (idx ! j))
          \<longrightarrow> updateSource cfg idx t u ! 0 ! n = u ! 0 ! n)"
  unfolding updateSource_def
  using stage_shape[of t "sources cfg" idx "[0..<length (sources cfg)]" u]
  by (auto simp: stage_other intro!: stage_frame)

section \<open>Rounding is monotone\<close>

lemma pow2_powi: "pow2 k = 2 powi k"
  by (simp add: pow2_def power_int_def power_inverse field_simps)

lemma bitlen_bounds:
  "0 < n \<Longrightarrow> 1 \<le> bitlen n \<and> 2 ^ nat (bitlen n - 1) \<le> n \<and> n < 2 ^ nat (bitlen n)"
proof (induction n rule: bitlen.induct)
  case (1 n)
  have b: "bitlen n = 1 + bitlen (n div 2)" using "1.prems" by (subst bitlen.simps) simp
  show ?case
  proof (cases "n div 2 = 0")
    case True
    then have "n = 1" using "1.prems" by presburger
    moreover have "bitlen 0 = 0" by (subst bitlen.simps) simp
    ultimately show ?thesis using b True by simp
  next
    case False
    then have pos: "0 < n div 2" using "1.prems" by presburger
    let ?b = "bitlen (n div 2)"
    from "1.IH" pos "1.prems" have IH: "1 \<le> ?b" "2 ^ nat (?b - 1) \<le> n div 2"
      "n div 2 < 2 ^ nat ?b" by simp_all
    have "nat ?b = Suc (nat (?b - 1))" using IH(1) by simp
    then have e: "(2::int) ^ nat ?b = 2 * 2 ^ nat (?b - 1)" by simp
    have e2: "(2::int) ^ nat (1 + ?b) = 2 * 2 ^ nat ?b"
      using IH(1) by (simp add: nat_add_distrib)
    have "2 * (n div 2) \<le> n" "n \<le> 2 * (n div 2) + 1" by presburger+
    then show ?thesis using IH e e2 b by simp
  qed
qed

lemma bitlen_real_bounds:
  assumes "0 < n"
  shows "2 powi (bitlen n - 1) \<le> real_of_int n" and "real_of_int n + 1 \<le> 2 powi (bitlen n)"
proof -
  from bitlen_bounds[OF assms] have b: "1 \<le> bitlen n" "2 ^ nat (bitlen n - 1) \<le> n"
    "n + 1 \<le> 2 ^ nat (bitlen n)" by simp_all
  have "real_of_int (2 ^ nat (bitlen n - 1)) \<le> real_of_int n" using b(2) by linarith
  then show "2 powi (bitlen n - 1) \<le> real_of_int n"
    using b(1) by (simp add: power_int_def)
  have "real_of_int (n + 1) \<le> real_of_int (2 ^ nat (bitlen n))" using b(3) by linarith
  then show "real_of_int n + 1 \<le> 2 powi (bitlen n)"
    using b(1) by (simp add: power_int_def)
qed

lemma expo_bounds:
  assumes "x \<noteq> 0"
  shows "2 powi (expo x) \<le> \<bar>x\<bar>" and "\<bar>x\<bar> < 2 powi (expo x + 1)"
proof -
  have "2 powi (expo x) \<le> \<bar>x\<bar> \<and> \<bar>x\<bar> < 2 powi (expo x + 1)"
  proof (cases "1 \<le> \<bar>x\<bar>")
    case True
    let ?n = "\<lfloor>\<bar>x\<bar>\<rfloor>"
    have n: "0 < ?n" using True by simp
    have e: "expo x = bitlen ?n - 1" using True by (simp add: expo_def)
    have a: "real_of_int ?n \<le> \<bar>x\<bar>" "\<bar>x\<bar> < real_of_int ?n + 1" by linarith+
    have e': "expo x + 1 = bitlen ?n" using e by simp
    from bitlen_real_bounds[OF n] a show ?thesis unfolding e' unfolding e by linarith
  next
    case False
    let ?y = "1 / \<bar>x\<bar>"
    let ?m = "\<lceil>?y\<rceil> - 1"
    have x: "0 < \<bar>x\<bar>" "\<bar>x\<bar> < 1" using assms False by simp_all
    then have y: "1 < ?y" by simp
    then have m: "0 < ?m" by linarith
    have e: "expo x = - bitlen ?m" using False by (simp add: expo_def)
    have my: "real_of_int ?m < ?y" "?y \<le> real_of_int ?m + 1" by linarith+
    from bitlen_real_bounds[OF m] have b: "2 powi (bitlen ?m - 1) \<le> real_of_int ?m"
      "real_of_int ?m + 1 \<le> 2 powi (bitlen ?m)" .
    have p: "0 < (2::real) powi k" for k by simp
    have "?y \<le> 2 powi (bitlen ?m)" using my(2) b(2) by linarith
    then have "1 / 2 powi (bitlen ?m) \<le> \<bar>x\<bar>"
      using x(1) p[of "bitlen ?m"] by (simp add: field_simps)
    then have lo: "2 powi (expo x) \<le> \<bar>x\<bar>"
      unfolding e by (simp add: power_int_minus_divide)
    have "2 powi (bitlen ?m - 1) < ?y" using my(1) b(1) by linarith
    then have "\<bar>x\<bar> < 1 / 2 powi (bitlen ?m - 1)"
      using x(1) p[of "bitlen ?m - 1"] by (simp add: field_simps)
    moreover have "(2::real) powi (expo x + 1) = 1 / 2 powi (bitlen ?m - 1)"
      unfolding e using power_int_minus_divide[of "2::real" "bitlen ?m - 1"] by simp
    ultimately show ?thesis using lo by simp
  qed
  then show "2 powi (expo x) \<le> \<bar>x\<bar>" and "\<bar>x\<bar> < 2 powi (expo x + 1)" by simp_all
qed

lemma rne_choice: "rne x = \<lfloor>x\<rfloor> \<or> rne x = \<lfloor>x\<rfloor> + 1"
  by (simp add: rne_def Let_def)

lemma rne_of_int [simp]: "rne (of_int n) = n"
  by (simp add: rne_def Let_def)

lemma rne_mono:
  assumes "a \<le> b"
  shows "rne a \<le> rne b"
proof (cases "\<lfloor>a\<rfloor> = \<lfloor>b\<rfloor>")
  case True
  have "a - of_int \<lfloor>b\<rfloor> \<le> b - of_int \<lfloor>b\<rfloor>" using assms by simp
  then show ?thesis unfolding rne_def Let_def True by auto
next
  case False
  then have "\<lfloor>a\<rfloor> + 1 \<le> \<lfloor>b\<rfloor>" using floor_mono[OF assms] by linarith
  then show ?thesis using rne_choice[of a] rne_choice[of b] by linarith
qed

lemma rne_neg: "rne (- a) = - rne a"
proof (cases "a \<in> \<int>")
  case True
  then obtain n where "a = of_int n" by (auto elim: Ints_cases)
  then show ?thesis using rne_of_int[of "- n"] by simp
next
  case False
  then have ne: "a \<noteq> of_int \<lfloor>a\<rfloor>" by (metis Ints_of_int)
  then have "\<lceil>a\<rceil> = \<lfloor>a\<rfloor> + 1" by (simp add: ceiling_altdef)
  then have f: "\<lfloor>- a\<rfloor> = - \<lfloor>a\<rfloor> - 1" by (simp add: ceiling_def)
  have ev: "even (- \<lfloor>a\<rfloor> - 1) \<longleftrightarrow> odd \<lfloor>a\<rfloor>" by simp
  have r: "- a - of_int (- \<lfloor>a\<rfloor> - 1) = 1 - (a - of_int \<lfloor>a\<rfloor>)" by simp
  show ?thesis
    unfolding rne_def Let_def f ev r by auto
qed

lemma expo_neg [simp]: "expo (- x) = expo x"
  by (simp add: expo_def)

lemma rnd53_neg: "rnd53 (- x) = - rnd53 x"
  using rne_neg[of "x / pow2 (expo x - 52)"] by (simp add: rnd53_def Let_def)

lemma rnd53_pos_bounds:
  assumes "0 < x"
  shows "2 powi (expo x) \<le> rnd53 x" and "rnd53 x \<le> 2 powi (expo x + 1)"
proof -
  let ?e = "expo x"
  let ?q = "(2::real) powi (?e - 52)"
  have q: "0 < ?q" by simp
  have x: "x \<noteq> 0" "\<bar>x\<bar> = x" using assms by simp_all
  have r: "rnd53 x = of_int (rne (x / ?q)) * ?q"
    using x(1) by (simp add: rnd53_def Let_def pow2_powi)
  have lo: "2 powi ?e = of_int (2 ^ 52) * ?q"
    using power_int_add[of "2::real" 52 "?e - 52"] by simp
  have hi: "2 powi (?e + 1) = of_int (2 ^ 53) * ?q"
    using power_int_add[of "2::real" 53 "?e - 52"] by (simp add: add.commute)
  have "of_int (2 ^ 52) * ?q \<le> x" using expo_bounds(1)[OF x(1)] x(2) lo by simp
  then have "of_int (2 ^ 52) \<le> x / ?q" using q by (simp add: pos_le_divide_eq)
  then have "2 ^ 52 \<le> rne (x / ?q)" using rne_mono rne_of_int by metis
  then have "of_int (2 ^ 52) * ?q \<le> of_int (rne (x / ?q)) * ?q"
    using q by (intro mult_right_mono) (simp_all add: of_int_le_iff[symmetric] del: of_int_le_iff)
  then show "2 powi (expo x) \<le> rnd53 x" unfolding r lo .
  have "x \<le> of_int (2 ^ 53) * ?q" using expo_bounds(2)[OF x(1)] x(2) hi by simp
  then have "x / ?q \<le> of_int (2 ^ 53)" using q by (simp add: pos_divide_le_eq)
  then have "rne (x / ?q) \<le> 2 ^ 53" using rne_mono rne_of_int by metis
  then have "of_int (rne (x / ?q)) * ?q \<le> of_int (2 ^ 53) * ?q"
    using q by (intro mult_right_mono) (simp_all add: of_int_le_iff[symmetric] del: of_int_le_iff)
  then show "rnd53 x \<le> 2 powi (expo x + 1)" unfolding r hi .
qed

lemma rnd53_pos:
  assumes "0 < x"
  shows "0 < rnd53 x"
proof -
  have "0 < (2::real) powi expo x" by simp
  then show ?thesis using rnd53_pos_bounds(1)[OF assms] by linarith
qed

lemma expo_mono:
  assumes "0 < x" and "x \<le> y"
  shows "expo x \<le> expo y"
proof (rule ccontr)
  assume "\<not> expo x \<le> expo y"
  then have "expo y + 1 \<le> expo x" by simp
  then have "(2::real) powi (expo y + 1) \<le> 2 powi (expo x)"
    by (intro power_int_increasing) simp_all
  moreover have "y < 2 powi (expo y + 1)" using expo_bounds(2)[of y] assms by simp
  moreover have "2 powi (expo x) \<le> x" using expo_bounds(1)[of x] assms by simp
  ultimately show False using assms(2) by linarith
qed

lemma rnd53_mono_pos:
  assumes "0 < x" and "x \<le> y"
  shows "rnd53 x \<le> rnd53 y"
proof (cases "expo x = expo y")
  case True
  let ?q = "(2::real) powi (expo y - 52)"
  have q: "0 < ?q" by simp
  have "x / ?q \<le> y / ?q" using assms(2) q by (simp add: divide_right_mono)
  then have "rne (x / ?q) \<le> rne (y / ?q)" by (rule rne_mono)
  then have "of_int (rne (x / ?q)) * ?q \<le> of_int (rne (y / ?q)) * ?q"
    using q by (intro mult_right_mono) simp_all
  then show ?thesis using assms True by (simp add: rnd53_def Let_def pow2_powi)
next
  case False
  then have "expo x + 1 \<le> expo y" using expo_mono[OF assms] by simp
  then have "(2::real) powi (expo x + 1) \<le> 2 powi (expo y)"
    by (intro power_int_increasing) simp_all
  then show ?thesis
    using rnd53_pos_bounds(2)[OF assms(1)] rnd53_pos_bounds(1)[of y] assms by linarith
qed

lemma rnd53_mono:
  assumes "x \<le> y"
  shows "rnd53 x \<le> rnd53 y"
proof -
  have z: "rnd53 0 = 0" by (simp add: rnd53_def)
  have neg: "rnd53 a < 0" if "a < 0" for a
    using rnd53_pos[of "- a"] that by (simp add: rnd53_neg)
  consider "0 < x" | "x \<le> 0" "0 \<le> y" | "y < 0" using assms by linarith
  then show ?thesis
  proof cases
    case 1
    then show ?thesis using assms by (rule rnd53_mono_pos)
  next
    case 2
    have "rnd53 x \<le> 0" using 2(1) neg[of x] z by (cases "x = 0") simp_all
    moreover have "0 \<le> rnd53 y" using 2(2) rnd53_pos[of y] z by (cases "y = 0") simp_all
    ultimately show ?thesis by simp
  next
    case 3
    then have "rnd53 (- y) \<le> rnd53 (- x)" using assms by (intro rnd53_mono_pos) simp_all
    then show ?thesis by (simp add: rnd53_neg)
  qed
qed

lemma dadd_ge: "isDouble x \<Longrightarrow> 0 \<le> d \<Longrightarrow> x \<le> dadd x d"
  using rnd53_mono[of x "x + d"] by (simp add: isDouble_def dadd_def)

lemma isDouble_rnd53_mono: "x \<le> y \<Longrightarrow> dadd x d \<le> dadd y d"
  by (simp add: dadd_def rnd53_mono)

lemma tAt_Suc_mono:
  assumes "isDouble (timeStart cfg)" and "0 \<le> timeStep cfg"
  shows "tAt cfg k \<le> tAt cfg (Suc k)"
proof (induction k)
  case 0
  then show ?case using dadd_ge[OF assms] by simp
next
  case (Suc k)
  then show ?case by (simp add: isDouble_rnd53_mono)
qed

lemma tAt_mono:
  assumes "isDouble (timeStart cfg)" and "0 \<le> timeStep cfg" and "k \<le> k'"
  shows "tAt cfg k \<le> tAt cfg k'"
  by (rule lift_Suc_mono_le[where f = "tAt cfg", OF tAt_Suc_mono[OF assms(1,2)] assms(3)])

theorem injection_frame_witness:
  "length (updateSource cfgSources [[1], [2]] (1 / 4) demoField) = 4
   \<and> updateSource cfgSources [[1], [2]] (1 / 4) demoField ! 1 = [0, 0, 0, 0]
   \<and> updateSource cfgSources [[1], [2]] (1 / 4) demoField ! 0 ! 2 = 3"
proof -
  have h: "\<forall>j<length (sources cfgSources).
      1 / 4 < sources cfgSources ! j ! 8 \<longrightarrow> 2 \<notin> set ([[1], [2::nat]] ! j)"
    by (simp add: cfgSources_def mkConfig_def less_Suc_eq)
  from injection_frame[of cfgSources "[[1], [2]]" "1 / 4" demoField] h
  have "length (updateSource cfgSources [[1], [2]] (1 / 4) demoField) = length demoField"
    and "updateSource cfgSources [[1], [2]] (1 / 4) demoField ! 1 = demoField ! 1"
    and "updateSource cfgSources [[1], [2]] (1 / 4) demoField ! 0 ! 2 = demoField ! 0 ! 2"
    by simp_all
  then show ?thesis by (simp add: demoField_def)
qed

section \<open>C7: what the injection writes\<close>

lemma elapsed_stays:
  assumes "isDouble (timeStart cfg)" and "0 \<le> timeStep cfg" and "k \<le> k'"
    and "\<not> tAt cfg k < d"
  shows "\<not> tAt cfg k' < d"
  using tAt_mono[OF assms(1,2,3)] assms(4) by simp

text \<open>
  C7, as amended. At a time-loop iteration with simulated time \<open>t\<close> (the iteration at
  state \<open>s\<close> has \<open>t = st_t s\<close>, which starts from \<open>timeStart\<close>), the code compares the
  duration of a source with \<open>t\<close> itself, not with the time elapsed since the start of the
  run. For every source with \<open>t < duration\<close> the round of the source loop
  overwrites \<open>u[0]\<close> at every node index of the source's precomputed set with
  \<open>amplitude * sin(2 pi frequency t + phase)\<close>, whatever the entry held; a source with
  \<open>t \<ge> duration\<close> changes nothing. After the whole stage an entry holds the value of the
  last active source whose set contains it, and the result is what the integrator's update
  starts from. Since \<open>t\<close> never decreases (\<open>timeStep \<ge> 0\<close>, \<open>timeStart\<close> a double), a
  source whose duration has elapsed at one iteration has it elapsed at every later one.
\<close>

theorem source_injection:
  "(\<forall>src idx n u. t < src ! 8 \<and> n \<in> set idx \<and> u \<noteq> [] \<and> n < length (u ! 0) \<longrightarrow>
       injectSource t src idx u ! 0 ! n = src ! 5 * sin (2 * pi * src ! 6 * t + src ! 7))
   \<and> (\<forall>src idx u. \<not> t < src ! 8 \<longrightarrow> injectSource t src idx u = u)
   \<and> (\<forall>j n u. j < length (sources cfg) \<and> t < sources cfg ! j ! 8 \<and> n \<in> set (srcIndices ! j)
         \<and> u \<noteq> [] \<and> n < length (u ! 0)
         \<and> (\<forall>j'. j < j' \<and> j' < length (sources cfg) \<and> t < sources cfg ! j' ! 8
                \<longrightarrow> n \<notin> set (srcIndices ! j')) \<longrightarrow>
       updateSource cfg srcIndices t u ! 0 ! n
         = sources cfg ! j ! 5 * sin (2 * pi * sources cfg ! j ! 6 * t + sources cfg ! j ! 7))
   \<and> (\<forall>s. st_u (eulerIter ops cfg g srcIndices s)
           = snd (snd (eulerUpdate ops cfg g (st_mesh s) (st_Flux s)
                        (updateSource cfg srcIndices (st_t s) (st_u s))))
         \<and> st_u (rkIter ops cfg g srcIndices s)
           = snd (snd (rkUpdate ops cfg g (st_mesh s) (st_Flux s)
                        (updateSource cfg srcIndices (st_t s) (st_u s)))))
   \<and> (isDouble (timeStart cfg) \<and> 0 \<le> timeStep cfg \<longrightarrow>
        (\<forall>k k' d. k \<le> k' \<and> \<not> st_t (eulerState ops cfg m u0 k) < d
            \<longrightarrow> \<not> st_t (eulerState ops cfg m u0 k') < d)
      \<and> (\<forall>k k' d. k \<le> k' \<and> \<not> st_t (rkState ops cfg m u0 k) < d
            \<longrightarrow> \<not> st_t (rkState ops cfg m u0 k') < d))"
proof (intro conjI allI impI)
  fix src idx n and u :: "real list list"
  assume "t < src ! 8 \<and> n \<in> set idx \<and> u \<noteq> [] \<and> n < length (u ! 0)"
  then show "injectSource t src idx u ! 0 ! n = src ! 5 * sin (2 * pi * src ! 6 * t + src ! 7)"
    by (simp add: injectSource_nth)
next
  fix src idx and u :: "real list list"
  assume "\<not> t < src ! 8"
  then show "injectSource t src idx u = u" by (rule injectSource_expired)
next
  fix j n and u :: "real list list"
  assume a: "j < length (sources cfg) \<and> t < sources cfg ! j ! 8 \<and> n \<in> set (srcIndices ! j)
         \<and> u \<noteq> [] \<and> n < length (u ! 0)
         \<and> (\<forall>j'. j < j' \<and> j' < length (sources cfg) \<and> t < sources cfg ! j' ! 8
                \<longrightarrow> n \<notin> set (srcIndices ! j'))"
  show "updateSource cfg srcIndices t u ! 0 ! n
         = sources cfg ! j ! 5 * sin (2 * pi * sources cfg ! j ! 6 * t + sources cfg ! j ! 7)"
    unfolding updateSource_def using a by (intro stage_last_writer) simp_all
next
  fix s :: "'a state"
  show "st_u (eulerIter ops cfg g srcIndices s)
           = snd (snd (eulerUpdate ops cfg g (st_mesh s) (st_Flux s)
                        (updateSource cfg srcIndices (st_t s) (st_u s))))"
    by (rule eulerIter_u)
  show "st_u (rkIter ops cfg g srcIndices s)
           = snd (snd (rkUpdate ops cfg g (st_mesh s) (st_Flux s)
                        (updateSource cfg srcIndices (st_t s) (st_u s))))"
    by (rule rkIter_u)
next
  fix k k' d
  assume d: "isDouble (timeStart cfg) \<and> 0 \<le> timeStep cfg"
    and k: "k \<le> k' \<and> \<not> st_t (eulerState ops cfg m u0 k) < d"
  then show "\<not> st_t (eulerState ops cfg m u0 k') < d"
    using elapsed_stays[of cfg k k' d] by (simp add: eulerState_ctrl)
next
  fix k k' d
  assume d: "isDouble (timeStart cfg) \<and> 0 \<le> timeStep cfg"
    and k: "k \<le> k' \<and> \<not> st_t (rkState ops cfg m u0 k) < d"
  then show "\<not> st_t (rkState ops cfg m u0 k') < d"
    using elapsed_stays[of cfg k k' d] by (simp add: rkState_ctrl)
qed

lemma sin_quarter: "sin (2 * pi * 1 * (1 / 4) + 0) = 1"
  by simp

theorem source_injection_witness:
  "injectSource (1 / 4) [0, 1, 0, 0, 1 / 2, 5, 1, 0, 10] [1] demoField ! 0 ! 1 = 5
   \<and> injectSource (1 / 4) [0, 2, 0, 0, 1 / 2, 7, 1, 0, 1 / 8] [2] demoField = demoField
   \<and> updateSource cfgSources [[1], [2]] (1 / 4) demoField ! 0 ! 1 = 5
   \<and> \<not> st_t (eulerState (zeroMesh 2 2) cfgSources () (zeroField 4) 3) < 1 / 8
   \<and> \<not> st_t (rkState (zeroMesh 2 2) cfgSources () (zeroField 4) 3) < 1 / 8"
proof -
  let ?s0 = "[0, 1, 0, 0, 1 / 2, 5, 1, 0, 10 :: real]"
  let ?s1 = "[0, 2, 0, 0, 1 / 2, 7, 1, 0, 1 / 8 :: real]"
  note si = source_injection[of "1 / 4" cfgSources "[[1], [2]]" "zeroMesh 2 2"
      "initGlobals (zeroMesh 2 2) ()" "()" "zeroField 4"]
  have h1: "1 / 4 < ?s0 ! 8 \<and> 1 \<in> set [1::nat] \<and> demoField \<noteq> [] \<and> 1 < length (demoField ! 0)"
    by (simp add: demoField_def)
  have h2: "\<not> 1 / 4 < ?s1 ! 8" by simp
  have h3: "0 < length (sources cfgSources) \<and> 1 / 4 < sources cfgSources ! 0 ! 8
      \<and> 1 \<in> set ([[1], [2]] ! 0) \<and> demoField \<noteq> [] \<and> 1 < length (demoField ! 0)
      \<and> (\<forall>j'. 0 < j' \<and> j' < length (sources cfgSources) \<and> 1 / 4 < sources cfgSources ! j' ! 8
             \<longrightarrow> 1 \<notin> set ([[1], [2]] ! j'))"
    by (auto simp: cfgSources_def mkConfig_def demoField_def less_Suc_eq)
  have h4: "isDouble (timeStart cfgSources) \<and> 0 \<le> timeStep cfgSources"
    by (simp add: cfgSources_def mkConfig_def isDouble_def rnd53_def)
  have t1: "dadd (timeStart cfgSources) (timeStep cfgSources) = 1 / 4"
    by (simp add: cfgSources_def mkConfig_def) (simp add: dbl_eval)
  have h5: "(1::nat) \<le> 3 \<and> \<not> st_t (eulerState (zeroMesh 2 2) cfgSources () (zeroField 4) 1) < 1 / 8"
    "(1::nat) \<le> 3 \<and> \<not> st_t (rkState (zeroMesh 2 2) cfgSources () (zeroField 4) 1) < 1 / 8"
    by (simp_all add: eulerState_ctrl rkState_ctrl t1)
  note c1 = si[THEN conjunct1, rule_format]
  note c2 = si[THEN conjunct2, THEN conjunct1, rule_format]
  note c3 = si[THEN conjunct2, THEN conjunct2, THEN conjunct1, rule_format]
  note c5 = si[THEN conjunct2, THEN conjunct2, THEN conjunct2, THEN conjunct2, rule_format, OF h4]
  have a: "injectSource (1 / 4) ?s0 [1] demoField ! 0 ! 1 = ?s0 ! 5 * sin (2 * pi * ?s0 ! 6 * (1 / 4) + ?s0 ! 7)"
    by (rule c1[OF h1])
  have b: "injectSource (1 / 4) ?s1 [2] demoField = demoField"
    by (rule c2[OF h2])
  have c: "updateSource cfgSources [[1], [2]] (1 / 4) demoField ! 0 ! 1
      = sources cfgSources ! 0 ! 5
          * sin (2 * pi * sources cfgSources ! 0 ! 6 * (1 / 4) + sources cfgSources ! 0 ! 7)"
    by (rule c3[OF h3])
  have d: "\<not> st_t (eulerState (zeroMesh 2 2) cfgSources () (zeroField 4) 3) < 1 / 8"
    "\<not> st_t (rkState (zeroMesh 2 2) cfgSources () (zeroField 4) 3) < 1 / 8"
    by (rule c5[THEN conjunct1, rule_format, OF h5(1)])
       (rule c5[THEN conjunct2, rule_format, OF h5(2)])
  show ?thesis
    using a b c d by (simp add: cfgSources_def mkConfig_def)
qed

section \<open>Zero stiffness and flux\<close>

lemma matvec_zero [simp]: "matvec A (replicate N 0) N i = 0"
proof -
  have "(\<Sum>j\<leftarrow>[0..<N]. A ! (i * N + j) * replicate N 0 ! j) = (\<Sum>j\<leftarrow>[0..<N]. 0)"
    by (intro arg_cong[where f = sum_list] map_cong) simp_all
  then show ?thesis by (simp add: matvec_def)
qed

lemma allZero_nth:
  assumes "allZero u" and "eq < length u" and "i < length (u ! eq)"
  shows "u ! eq ! i = 0"
proof -
  have "u ! eq \<in> set u" using assms(2) by (rule nth_mem)
  moreover have "u ! eq ! i \<in> set (u ! eq)" using assms(3) by (rule nth_mem)
  ultimately show ?thesis using assms(1) unfolding allZero_def by blast
qed

lemma minus_v_zero [simp]: "minus_v (replicate N 0) (replicate N 0) N = replicate N 0"
  by (intro nth_equalityI) (simp_all add: minus_v_def)

lemma linEq_zero_keep:
  assumes "beta = 1 \<or> (\<forall>x\<in>set Y. x = 0)"
  shows "linEq A (replicate N 0) Y a beta N = Y"
proof (rule nth_equalityI)
  show "length (linEq A (replicate N 0) Y a beta N) = length Y" by simp
next
  fix i assume "i < length (linEq A (replicate N 0) Y a beta N)"
  then have i: "i < length Y" by simp
  then have "beta * Y ! i = Y ! i" using assms by (auto simp: nth_mem)
  then show "linEq A (replicate N 0) Y a beta N ! i = Y ! i"
    using i by (simp add: nth_linEq)
qed

lemma elStep_zero_keep:
  assumes "zeroResidual ops N" and "beta = 1 \<or> (\<forall>x\<in>set (u ! eq). x = 0)"
  shows "elStep ops cfg N beta Fl m eq el u = u"
proof -
  have "beta = 1 \<or> (\<forall>x\<in>set (drop (el * N) (u ! eq)). x = 0)"
    using assms(2) by (auto dest: in_set_dropD)
  then have "at_ptr (el * N) (\<lambda>Y. linEq (elMassMatrix ops m el) (replicate N 0) Y (timeStep cfg) beta N)
      (u ! eq) = u ! eq"
    by (simp add: at_ptr_def linEq_zero_keep)
  then show ?thesis
    using assms(1) by (simp add: elStep_def Let_def zeroResidual_def)
qed

lemma fold_elStep_zero_keep:
  assumes "zeroResidual ops N" and "beta = 1 \<or> (\<forall>x\<in>set (u ! eq). x = 0)"
  shows "fold (elStep ops cfg N beta Fl m eq) els u = u"
  by (induction els) (simp_all add: elStep_zero_keep[OF assms])

lemma eqStep_zero_keep:
  assumes "zeroResidual ops N" and "beta = 1 \<or> allZero (snd mu)"
  shows "snd (eqStep ops cfg N beta Fl eq mu) = snd mu"
proof (cases "eq < length (snd mu)")
  case True
  then have "beta = 1 \<or> (\<forall>x\<in>set (snd mu ! eq). x = 0)"
    using assms(2) by (auto simp: allZero_def)
  then show ?thesis
    by (simp add: eqStep_def Let_def fold_elStep_zero_keep[OF assms(1)])
next
  case False
  have "elStep ops cfg N beta Fl m eq el u = u" if "\<not> eq < length u" for m el u
    using that by (simp add: elStep_def Let_def list_update_beyond)
  then have "fold (elStep ops cfg N beta Fl m eq) els (snd mu) = snd mu" for m els
    using False by (induction els) simp_all
  then show ?thesis by (simp add: eqStep_def Let_def)
qed

lemma fold_eqStep_zero_keep:
  assumes "zeroResidual ops N" and "beta = 1 \<or> allZero (snd mu)"
  shows "snd (fold (eqStep ops cfg N beta Fl) eqs mu) = snd mu"
  using assms(2)
proof (induction eqs arbitrary: mu)
  case Nil
  then show ?case by simp
next
  case (Cons eq eqs)
  have k: "snd (eqStep ops cfg N beta Fl eq mu) = snd mu"
    using Cons.prems by (rule eqStep_zero_keep[OF assms(1)])
  then have "beta = 1 \<or> allZero (snd (eqStep ops cfg N beta Fl eq mu))"
    using Cons.prems by simp
  from Cons.IH[OF this] k show ?case by simp
qed

lemma numStep_zero_keep:
  assumes "zeroResidual ops N" and "beta = 1 \<or> allZero u"
  shows "snd (numStep ops cfg N beta Fl (m, u)) = u"
  using fold_eqStep_zero_keep[OF assms(1), of beta "(m, u)"] assms(2) by (simp add: numStep_def)

lemma eulerUpdate_zero_keep:
  assumes "zeroResidual ops (elNumNodes g)"
  shows "snd (snd (eulerUpdate ops cfg g m Fl u)) = u"
  using numStep_zero_keep[OF assms, of 1] by (simp add: eulerUpdate_def Let_def)

lemma rkStage_zero_keep:
  assumes "zeroResidual ops (elNumNodes g)" and "allZero k"
  shows "snd (rkStage ops cfg g mF k) = k"
  using numStep_zero_keep[OF assms(1), of 0 k] assms(2) by (simp add: rkStage_def Let_def)

lemma plusTimesAll_zero_keep:
  assumes "allZero u"
  shows "plusTimesAll (length u) u u c nn = u"
proof (rule nth_equalityI)
  note fc = fold_cell_update[where g = "\<lambda>eq w. plusTimes w (u ! eq) c nn" and w = u and n = "length u"]
  show "length (plusTimesAll (length u) u u c nn) = length u"
    using fc by (simp add: plusTimesAll_def)
  fix eq assume "eq < length (plusTimesAll (length u) u u c nn)"
  then have eq: "eq < length u" using fc by (simp add: plusTimesAll_def)
  then have z: "\<forall>x\<in>set (u ! eq). x = 0" using assms by (auto simp: allZero_def)
  have "plusTimes (u ! eq) (u ! eq) c nn = u ! eq"
    using z by (intro nth_equalityI) (auto simp: plusTimes_def)
  then show "plusTimesAll (length u) u u c nn ! eq = u ! eq"
    using eq fc by (simp add: plusTimesAll_def)
qed

lemma rkCombine_shape:
  "length (rkCombine nn u k1 k2 k3 k4) = length u"
  "eq < length u \<Longrightarrow> length (rkCombine nn u k1 k2 k3 k4 ! eq) = length (u ! eq)"
proof -
  let ?d = "\<lambda>eq i. (k1 ! eq ! i + 2 * k2 ! eq ! i + 2 * k3 ! eq ! i + k4 ! eq ! i) / 6"
  let ?row = "\<lambda>eq w. fold (\<lambda>i w. w[i := w ! i + ?d eq i]) [0..<nn] w"
  have r: "rkCombine nn u k1 k2 k3 k4 = fold (\<lambda>eq u. u[eq := ?row eq (u ! eq)]) [0..<length u] u"
    unfolding rkCombine_def by (rule rkCombine_rows) simp
  note fc = fold_cell_update[where g = ?row and w = u and n = "length u"]
  show "length (rkCombine nn u k1 k2 k3 k4) = length u" using fc r by simp
  show "length (rkCombine nn u k1 k2 k3 k4 ! eq) = length (u ! eq)" if "eq < length u"
    using fc r that fold_cell_update[where g = "\<lambda>i x. x + ?d eq i" and w = "u ! eq" and n = nn]
    by simp
qed

lemma rkCombine_zero_stages:
  assumes "\<forall>eq<length u. \<forall>i<length (u ! eq). k1 ! eq ! i = 0 \<and> k2 ! eq ! i = 0
             \<and> k3 ! eq ! i = 0 \<and> k4 ! eq ! i = 0"
  shows "rkCombine nn u k1 k2 k3 k4 = u"
proof (rule nth_equalityI)
  show "length (rkCombine nn u k1 k2 k3 k4) = length u" by (rule rkCombine_shape)
next
  fix eq assume "eq < length (rkCombine nn u k1 k2 k3 k4)"
  then have eq: "eq < length u" by (simp add: rkCombine_shape)
  show "rkCombine nn u k1 k2 k3 k4 ! eq = u ! eq"
    using eq assms by (intro nth_equalityI) (simp_all add: rkCombine_shape rkCombine_nth)
qed

lemma rkUpdate_zero_keep:
  assumes "zeroResidual ops (elNumNodes g)" and "allZero u"
  shows "snd (snd (rkUpdate ops cfg g m Fl u)) = u"
proof -
  have st: "snd (rkStage ops cfg g mF u) = u" for mF
    by (rule rkStage_zero_keep[OF assms])
  have pt: "plusTimesAll (length u) u u c (numNodes g) = u" for c
    by (rule plusTimesAll_zero_keep[OF assms(2)])
  have "snd (rkStages ops cfg g (m, Fl) u) = (u, u, u, u)"
    by (simp add: rkStages_def Let_def st pt)
  moreover have "rkCombine (numNodes g) u u u u u = u"
    using assms(2) by (intro rkCombine_zero_stages) (simp add: allZero_nth)
  ultimately show ?thesis
    by (simp add: rkUpdate_def split_beta)
qed

lemma updateSource_no_sources: "sources cfg = [] \<Longrightarrow> updateSource cfg idx t u = u"
  by (simp add: updateSource_def)

section \<open>C8: the zero solution stays zero\<close>

lemma eulerState_Suc:
  "eulerState ops cfg m u (Suc k)
     = eulerIter ops cfg (initGlobals ops m) (sourceIndices ops (st_mesh (initState ops cfg m u)) cfg)
         (eulerState ops cfg m u k)"
  by (simp add: eulerState_def)

lemma rkState_Suc:
  "rkState ops cfg m u (Suc k)
     = rkIter ops cfg (initGlobals ops m) (sourceIndices ops (st_mesh (initState ops cfg m u)) cfg)
         (rkState ops cfg m u k)"
  by (simp add: rkState_def)

lemma state_0 [simp]:
  "eulerState ops cfg m u 0 = initState ops cfg m u" "rkState ops cfg m u 0 = initState ops cfg m u"
  by (simp_all add: eulerState_def rkState_def)

lemma elNumNodes_initGlobals [simp]: "elNumNodes (initGlobals ops m) = getElNumNodes ops m"
  by (simp add: initGlobals_def)

lemma zero_states:
  assumes "sources cfg = []" and "allZero u" and "zeroResidual ops (getElNumNodes ops m)"
  shows "st_u (eulerState ops cfg m u k) = u" and "st_u (rkState ops cfg m u k) = u"
proof -
  show "st_u (eulerState ops cfg m u k) = u"
  proof (induction k)
    case 0
    then show ?case by (simp add: initState_def)
  next
    case (Suc k)
    then show ?case
      using assms by (simp add: eulerState_Suc eulerIter_u updateSource_no_sources
          eulerUpdate_zero_keep)
  qed
  show "st_u (rkState ops cfg m u k) = u"
  proof (induction k)
    case 0
    then show ?case by (simp add: initState_def)
  next
    case (Suc k)
    then show ?case
      using assms by (simp add: rkState_Suc rkIter_u updateSource_no_sources rkUpdate_zero_keep)
  qed
qed

text \<open>
  C8. With no configured sources, an all-zero initial solution and a mesh whose stiffness
  vectors and element flux vectors are identically zero, the solution is unchanged, hence
  exactly zero at every node and every equation, after every time step of
  \<^verbatim>\<open>forwardEuler\<close> and of \<^verbatim>\<open>rungeKutta\<close>, and in the state either integrator returns.
\<close>

theorem zero_stays_zero:
  assumes "sources cfg = []" and "allZero u" and "zeroResidual ops (getElNumNodes ops m)"
  shows "st_u (eulerState ops cfg m u k) = u \<and> st_u (rkState ops cfg m u k) = u
       \<and> (\<forall>r. forwardEuler ops cfg m u = Some r \<longrightarrow> st_u r = u)
       \<and> (\<forall>r. rungeKutta ops cfg m u = Some r \<longrightarrow> st_u r = u)"
proof (intro conjI allI impI)
  show "st_u (eulerState ops cfg m u k) = u" by (rule zero_states[OF assms])
  show "st_u (rkState ops cfg m u k) = u" by (rule zero_states[OF assms])
next
  fix r assume "forwardEuler ops cfg m u = Some r"
  from forwardEuler_SomeD[OF this] obtain n
    where "r = saveToFile cfg (eulerState ops cfg m u n)" by blast
  then show "st_u r = u" by (simp add: zero_states[OF assms])
next
  fix r assume "rungeKutta ops cfg m u = Some r"
  from rungeKutta_SomeD[OF this] obtain n
    where "r = saveToFile cfg (rkState ops cfg m u n)" by blast
  then show "st_u r = u" by (simp add: zero_states[OF assms])
qed

theorem zero_stays_zero_witness:
  "st_u (eulerState (zeroMesh 2 2) cfgQuarter () (zeroField 4) 3) = zeroField 4
   \<and> st_u (rkState (zeroMesh 2 2) cfgQuarter () (zeroField 4) 3) = zeroField 4
   \<and> map_option st_u (forwardEuler (zeroMesh 2 2) cfgQuarter () (zeroField 4)) = Some (zeroField 4)
   \<and> map_option st_u (rungeKutta (zeroMesh 2 2) cfgQuarter () (zeroField 4)) = Some (zeroField 4)"
proof -
  have h: "sources cfgQuarter = []" "allZero (zeroField 4)"
    "zeroResidual (zeroMesh 2 2) (getElNumNodes (zeroMesh 2 2) ())"
    by (simp_all add: cfgQuarter_def mkConfig_def allZero_def zeroField_def zeroResidual_def
        zeroMesh_def)
  have e: "forwardEuler (zeroMesh 2 2) cfgQuarter () (zeroField 4)
      = Some (saveToFile cfgQuarter (eulerState (zeroMesh 2 2) cfgQuarter () (zeroField 4) 5))"
    using cfgQuarter_count by (intro forwardEuler_eq) simp_all
  have k: "rungeKutta (zeroMesh 2 2) cfgQuarter () (zeroField 4)
      = Some (saveToFile cfgQuarter (rkState (zeroMesh 2 2) cfgQuarter () (zeroField 4) 5))"
    using cfgQuarter_count by (intro rungeKutta_eq) simp_all
  note z = zero_stays_zero[OF h, of 3]
  show ?thesis
    using z e k by auto
qed

section \<open>Zero stiffness and flux on a mesh of fixed size\<close>

lemma numStep_beta0_zero:
  fixes u :: "real list list"
  assumes zr: "zeroResidual ops N" and sz: "\<forall>m'. getElNum ops m' = E"
    and len: "length u = 4" and rows: "\<forall>eq<4. length (u ! eq) = E * N"
    and eq: "eq < 4" and j: "j < E * N"
  shows "snd (numStep ops cfg N 0 Fl (m, u)) ! eq ! j = 0"
proof -
  have N: "0 < N" using j by (cases N) simp_all
  let ?el = "j div N" and ?i = "j mod N"
  have el: "?el < E" using j N by (simp add: less_mult_imp_div_less)
  have i: "?i < N" using N by simp
  have ji: "?el * N + ?i = j" by simp
  let ?st = "elState ops cfg N 0 Fl (m, u) eq ?el"
  have st: "(fst ?st, snd ?st) = ?st" by simp
  have blk: "(?el + 1) * N \<le> length (snd (m, u) ! eq)"
  proof -
    have "Suc ?el * N \<le> E * N" using el by (intro mult_le_mono1) simp
    then show ?thesis using rows eq by simp
  qed
  have "snd (numStep ops cfg N 0 Fl (m, u)) ! eq ! (?el * N + ?i)
      = timeStep cfg * matvec (elMassMatrix ops (fst ?st) ?el)
          (minus_v (getElStiffVector ops (fst ?st) ?el (Fl ! eq) (snd ?st ! eq))
             (getElFlux ops (fst ?st) ?el) N) N ?i
        + 0 * snd (m, u) ! eq ! (?el * N + ?i)"
    using eq len el sz blk i by (intro numStep_block(1)[OF _ _ st]) simp_all
  then show ?thesis
    using zr unfolding ji by (simp add: zeroResidual_def)
qed

lemma plusTimesAll_shape:
  "length (plusTimesAll (length A) A B c nn) = length A"
  "eq < length A \<Longrightarrow> length (plusTimesAll (length A) A B c nn ! eq) = length (A ! eq)"
proof -
  note fc = fold_cell_update[where g = "\<lambda>eq w. plusTimes w (B ! eq) c nn" and w = A and n = "length A"]
  show "length (plusTimesAll (length A) A B c nn) = length A"
    using fc by (simp add: plusTimesAll_def)
  show "length (plusTimesAll (length A) A B c nn ! eq) = length (A ! eq)" if "eq < length A"
    using fc that by (simp add: plusTimesAll_def plusTimes_def)
qed

lemma rkStage_zero_entries:
  fixes k :: "real list list"
  assumes "zeroResidual ops (elNumNodes g)" and "\<forall>m'. getElNum ops m' = E"
    and "length k = 4" and "\<forall>eq<4. length (k ! eq) = E * elNumNodes g"
    and "eq < 4" and "j < E * elNumNodes g"
  shows "snd (rkStage ops cfg g mF k) ! eq ! j = 0"
  using numStep_beta0_zero[OF assms] by (simp add: rkStage_def Let_def)

lemma rkUpdate_zero_residual:
  fixes u :: "real list list"
  assumes zr: "zeroResidual ops (elNumNodes g)" and sz: "\<forall>m'. getElNum ops m' = E"
    and len: "length u = 4" and rows: "\<forall>eq<4. length (u ! eq) = E * elNumNodes g"
  shows "snd (snd (rkUpdate ops cfg g m Fl u)) = u"
proof -
  let ?N = "elNumNodes g"
  have z: "snd (rkStage ops cfg g mF k) ! eq ! j = 0"
    if "length k = 4" "\<forall>eq<4. length (k ! eq) = E * ?N" "eq < 4" "j < E * ?N" for mF k eq j
    using that by (intro rkStage_zero_entries[OF zr sz]) simp_all
  have sh: "length (plusTimesAll (length u) u B c (numNodes g)) = 4
      \<and> (\<forall>eq<4. length (plusTimesAll (length u) u B c (numNodes g) ! eq) = E * ?N)" for B c
    using plusTimesAll_shape[where A = u and B = B and c = c and nn = "numNodes g"] len rows
    by simp
  obtain mF k1 k2 k3 k4 where st: "rkStages ops cfg g (m, Fl) u = (mF, k1, k2, k3, k4)"
    by (metis prod_cases5)
  have zs: "k1 ! eq ! j = 0 \<and> k2 ! eq ! j = 0 \<and> k3 ! eq ! j = 0 \<and> k4 ! eq ! j = 0"
    if "eq < 4" "j < E * ?N" for eq j
    using st that len rows sh by (auto simp: rkStages_def Let_def intro!: z)
  have "rkCombine (numNodes g) u k1 k2 k3 k4 = u"
    using zs len rows by (intro rkCombine_zero_stages) simp
  then show ?thesis by (simp add: rkUpdate_def st)
qed

section \<open>What the snapshots record\<close>

lemma snapshotCheck_layers:
  "pressureLayers (st_out (snapshotCheck ops cfg g s)) =
     pressureLayers (st_out s) @
       (if timeRate cfg \<le> st_tDisplay s \<or> st_step s = 0
        then [(st_step s, st_t s,
               packField ops (st_mesh s) (elNumNodes g) (\<lambda>elN. [st_u s ! 0 ! elN]))]
        else [])"
  by (simp add: snapshotCheck_def saveStep_def Let_def pressureLayers_append)

lemma packField_pressure:
  assumes "\<forall>m'. getElNum ops m' = E \<and> getElNumNodes ops m' = N"
  shows "packField ops m N (\<lambda>elN. [u ! 0 ! elN]) = pressureLayer E N u"
proof -
  have "concat (map (\<lambda>n. [f n]) xs) = map f xs" for f :: "nat \<Rightarrow> real" and xs
    by (induction xs) simp_all
  then show ?thesis using assms by (simp add: packField_def pressureLayer_def)
qed

lemma pressureLayer_nth:
  assumes "n < E * N"
  shows "pressureLayer E N u ! (n div N) ! (n mod N) = u ! 0 ! n"
proof -
  have N: "0 < N" using assms by (cases N) simp_all
  have "n div N < E" using assms N by (simp add: less_mult_imp_div_less)
  moreover have "n mod N < N" using N by simp
  ultimately show ?thesis by (simp add: pressureLayer_def)
qed

lemma updateSource_shape [simp]:
  "length (updateSource cfg idx t u) = length u"
  "length (updateSource cfg idx t u ! k) = length (u ! k)"
  using stage_shape[of t "sources cfg" idx "[0..<length (sources cfg)]" u k]
  by (simp_all add: updateSource_def)

lemma injected_shape [simp]:
  "length (injected cfg idx u k) = length u"
  "length (injected cfg idx u k ! eq) = length (u ! eq)"
  by (induction k) simp_all

lemma layers_step:
  assumes "\<forall>m'. getElNum ops m' = E \<and> getElNumNodes ops m' = N"
    and "elNumNodes g = N"
    and "st_out s' = st_out (snapshotCheck ops cfg g s)"
    and "st_t s = tAt cfg k" and "st_step s = k" and "st_tDisplay s = dispAt cfg k"
    and "pressureLayers (st_out s)
           = map (\<lambda>k. (k, tAt cfg k, pressureLayer E N (U k))) (filter (due cfg) [0..<k])"
    and "st_u s = U k"
  shows "pressureLayers (st_out s')
           = map (\<lambda>k. (k, tAt cfg k, pressureLayer E N (U k))) (filter (due cfg) [0..<Suc k])"
  using assms by (simp add: snapshotCheck_layers packField_pressure due_def)

text \<open>
  With zero stiffness and flux on a mesh of \<open>E\<close> elements of \<open>N\<close> nodes, and a solution
  of four sequences of \<open>E * N\<close> entries, both integrators carry the injected solution.
\<close>

lemma zero_residual_states:
  fixes u :: "real list list"
  assumes zr: "zeroResidual ops N" and sz: "\<forall>m'. getElNum ops m' = E \<and> getElNumNodes ops m' = N"
    and len: "length u = 4" and rows: "\<forall>eq<4. length (u ! eq) = E * N"
    and idx: "idx = sourceIndices ops (st_mesh (initState ops cfg m u)) cfg"
  shows "st_u (eulerState ops cfg m u k) = injected cfg idx u k"
    and "st_u (rkState ops cfg m u k) = injected cfg idx u k"
proof -
  have N: "elNumNodes (initGlobals ops m) = N" using sz by simp
  show "st_u (eulerState ops cfg m u k) = injected cfg idx u k"
  proof (induction k)
    case 0
    then show ?case by (simp add: initState_def)
  next
    case (Suc k)
    then show ?case
      using zr N eulerState_ctrl[of ops cfg m u k]
      by (simp add: eulerState_Suc eulerIter_u eulerUpdate_zero_keep idx)
  qed
  show "st_u (rkState ops cfg m u k) = injected cfg idx u k"
  proof (induction k)
    case 0
    then show ?case by (simp add: initState_def)
  next
    case (Suc k)
    let ?u1 = "updateSource cfg idx (tAt cfg k) (injected cfg idx u k)"
    have "snd (snd (rkUpdate ops cfg (initGlobals ops m) (st_mesh (rkState ops cfg m u k))
        (st_Flux (rkState ops cfg m u k)) ?u1)) = ?u1"
      using zr sz len rows N by (intro rkUpdate_zero_residual[where E = E]) simp_all
    then show ?case
      using Suc rkState_ctrl[of ops cfg m u k]
      by (simp add: rkState_Suc rkIter_u idx)
  qed
qed

lemma zero_residual_layers:
  fixes u :: "real list list"
  assumes zr: "zeroResidual ops N" and sz: "\<forall>m'. getElNum ops m' = E \<and> getElNumNodes ops m' = N"
    and len: "length u = 4" and rows: "\<forall>eq<4. length (u ! eq) = E * N"
    and idx: "idx = sourceIndices ops (st_mesh (initState ops cfg m u)) cfg"
  shows "pressureLayers (st_out (eulerState ops cfg m u K))
           = map (\<lambda>k. (k, tAt cfg k, pressureLayer E N (injected cfg idx u k)))
               (filter (due cfg) [0..<K])"
    and "pressureLayers (st_out (rkState ops cfg m u K))
           = map (\<lambda>k. (k, tAt cfg k, pressureLayer E N (injected cfg idx u k)))
               (filter (due cfg) [0..<K])"
proof -
  have N: "elNumNodes (initGlobals ops m) = N" using sz by simp
  note su = zero_residual_states[OF zr sz len rows idx]
  show "pressureLayers (st_out (eulerState ops cfg m u K))
           = map (\<lambda>k. (k, tAt cfg k, pressureLayer E N (injected cfg idx u k)))
               (filter (due cfg) [0..<K])"
  proof (induction K)
    case 0
    then show ?case by (simp add: initState_def)
  next
    case (Suc K)
    show ?case
      by (rule layers_step[OF sz N _ _ _ _ Suc su(1)])
         (simp_all add: eulerState_Suc eulerIter_out eulerState_ctrl)
  qed
  show "pressureLayers (st_out (rkState ops cfg m u K))
           = map (\<lambda>k. (k, tAt cfg k, pressureLayer E N (injected cfg idx u k)))
               (filter (due cfg) [0..<K])"
  proof (induction K)
    case 0
    then show ?case by (simp add: initState_def)
  next
    case (Suc K)
    show ?case
      by (rule layers_step[OF sz N _ _ _ _ Suc su(2)])
         (simp_all add: rkState_Suc rkIter_out rkState_ctrl)
  qed
qed

lemma injected_point_source:
  fixes u :: "real list list"
  assumes "sources cfg = [src]" and "src ! 5 = 1" and "src ! 6 = 1" and "src ! 7 = 0"
    and "tAt cfg j < src ! 8" and "n \<in> set (idx ! 0)"
    and "u \<noteq> []" and "n < length (u ! 0)"
  shows "injected cfg idx u (Suc j) ! 0 ! n = sin (2 * pi * tAt cfg j)"
proof -
  let ?U = "injected cfg idx u j"
  have "length ?U = length u" by simp
  then have "?U \<noteq> []" using assms(7) by (metis length_0_conv)
  moreover have "n < length (?U ! 0)" using assms(8) by simp
  ultimately have sh: "?U \<noteq> []" "n < length (?U ! 0)" by simp_all
  have "fold (\<lambda>i u. injectSource (tAt cfg j) (sources cfg ! i) (idx ! i) u) [0..<1] ?U ! 0 ! n
      = sources cfg ! 0 ! 5 * sin (2 * pi * sources cfg ! 0 ! 6 * tAt cfg j + sources cfg ! 0 ! 7)"
    using assms(1,5,6) sh
    by (intro stage_last_writer[where t = "tAt cfg j" and srcs = "sources cfg" and L = 1 and j = 0])
       auto
  then show ?thesis using assms(1-4) by (simp add: updateSource_def)
qed

section \<open>C5: a single point source\<close>

lemma zeroField_shape [simp]:
  "length (zeroField n) = 4" "eq < 4 \<Longrightarrow> length (zeroField n ! eq) = n"
  "eq < 4 \<Longrightarrow> i < n \<Longrightarrow> zeroField n ! eq ! i = 0" "zeroField n \<noteq> []"
  by (auto simp: zeroField_def)

lemma integrators_same_layers:
  fixes u :: "real list list"
  assumes zr: "zeroResidual ops N" and sz: "\<forall>m'. getElNum ops m' = E \<and> getElNumNodes ops m' = N"
    and len: "length u = 4" and rows: "\<forall>eq<4. length (u ! eq) = E * N"
  shows "map_option (\<lambda>r. pressureLayers (st_out r)) (rungeKutta ops cfg m u)
       = map_option (\<lambda>r. pressureLayers (st_out r)) (forwardEuler ops cfg m u)"
proof (cases "forwardEuler ops cfg m u")
  case None
  have "rungeKutta ops cfg m u = None"
  proof (rule ccontr)
    assume "rungeKutta ops cfg m u \<noteq> None"
    then obtain r where "rungeKutta ops cfg m u = Some r" by auto
    from rungeKutta_SomeD[OF this] obtain n
      where "\<forall>j<n. tAt cfg j \<le> timeEnd cfg" "\<not> tAt cfg n \<le> timeEnd cfg" by blast
    from forwardEuler_eq[OF this, of ops m u] None show False by simp
  qed
  then show ?thesis using None by simp
next
  case (Some r)
  from forwardEuler_SomeD[OF this] obtain n
    where r: "r = saveToFile cfg (eulerState ops cfg m u n)"
      and n: "\<forall>j<n. tAt cfg j \<le> timeEnd cfg" "\<not> tAt cfg n \<le> timeEnd cfg" by blast
  note l = zero_residual_layers[OF zr sz len rows refl, of cfg m n]
  show ?thesis
    unfolding Some rungeKutta_eq[OF n] r by (simp add: l)
qed

text \<open>
  Whatever the mesh computes, the pressure layer of step \<open>k\<close> is the solution as it is at
  the head of iteration \<open>k\<close>: after the update of iteration \<open>k - 1\<close> and before the
  injection of iteration \<open>k\<close>.
\<close>

lemma state_layers:
  assumes sz: "\<forall>m'. getElNum ops m' = E \<and> getElNumNodes ops m' = N"
  shows "pressureLayers (st_out (eulerState ops cfg m u K))
           = map (\<lambda>k. (k, tAt cfg k, pressureLayer E N (st_u (eulerState ops cfg m u k))))
               (filter (due cfg) [0..<K])"
    and "pressureLayers (st_out (rkState ops cfg m u K))
           = map (\<lambda>k. (k, tAt cfg k, pressureLayer E N (st_u (rkState ops cfg m u k))))
               (filter (due cfg) [0..<K])"
proof -
  have N: "elNumNodes (initGlobals ops m) = N" using sz by simp
  show "pressureLayers (st_out (eulerState ops cfg m u K))
           = map (\<lambda>k. (k, tAt cfg k, pressureLayer E N (st_u (eulerState ops cfg m u k))))
               (filter (due cfg) [0..<K])"
  proof (induction K)
    case 0
    then show ?case by (simp add: initState_def)
  next
    case (Suc K)
    show ?case
      by (rule layers_step[OF sz N _ _ _ _ Suc refl])
         (simp_all add: eulerState_Suc eulerIter_out eulerState_ctrl)
  qed
  show "pressureLayers (st_out (rkState ops cfg m u K))
           = map (\<lambda>k. (k, tAt cfg k, pressureLayer E N (st_u (rkState ops cfg m u k))))
               (filter (due cfg) [0..<K])"
  proof (induction K)
    case 0
    then show ?case by (simp add: initState_def)
  next
    case (Suc K)
    show ?case
      by (rule layers_step[OF sz N _ _ _ _ Suc refl])
         (simp_all add: rkState_Suc rkIter_out rkState_ctrl)
  qed
qed

text \<open>
  C5, as amended. For a single point source with amplitude 1, frequency 1, phase 0 and a
  duration beyond \<open>timeEnd\<close>, zero initial state and stiffness and flux vectors that are
  zero on every element, the source's included (the mass matrix plays no part), under
  both integrators:
  \<^item> after the iteration at simulated time \<open>t\<close> the pressure at every node \<open>n\<close> of the
    source's set equals \<open>sin(2 pi t)\<close>;
  \<^item> a snapshot is taken at the head of an iteration, before that iteration's injection:
    as long as the loop runs, the layer of step \<open>k \<ge> 1\<close>, tagged with time \<open>t\<^sub>k\<close>, holds
    at the source node the value \<open>sin(2 pi t\<^sub>k\<^sub>-\<^sub>1)\<close> injected one step earlier, and the
    layer of step 0 the initial 0;
  \<^item> the layers handed to the sink are the same whichever integrator is used, after any
    number of iterations and for the run as a whole.
\<close>

theorem point_source_snapshots:
  assumes zr: "zeroResidual ops N" and sz: "\<forall>m'. getElNum ops m' = E \<and> getElNumNodes ops m' = N"
    and src: "sources cfg = [src]" "src ! 5 = 1" "src ! 6 = 1" "src ! 7 = 0"
    and dur: "timeEnd cfg < src ! 8"
    and n: "n \<in> set (sourceIndices ops (precomputeMassMatrix ops m) cfg ! 0)" "n < E * N"
  shows "(\<forall>k. tAt cfg k \<le> timeEnd cfg \<longrightarrow>
            st_u (eulerState ops cfg m (zeroField (E * N)) (Suc k)) ! 0 ! n = sin (2 * pi * tAt cfg k)
          \<and> st_u (rkState ops cfg m (zeroField (E * N)) (Suc k)) ! 0 ! n = sin (2 * pi * tAt cfg k))
       \<and> (\<forall>K. (\<forall>j<K. tAt cfg j \<le> timeEnd cfg) \<longrightarrow>
            (\<forall>(k, t, d) \<in> set (pressureLayers (st_out (eulerState ops cfg m (zeroField (E * N)) K))).
               t = tAt cfg k
             \<and> d ! (n div N) ! (n mod N) = (if k = 0 then 0 else sin (2 * pi * tAt cfg (k - 1)))))
       \<and> (\<forall>K. pressureLayers (st_out (rkState ops cfg m (zeroField (E * N)) K))
               = pressureLayers (st_out (eulerState ops cfg m (zeroField (E * N)) K)))
       \<and> (\<forall>r. forwardEuler ops cfg m (zeroField (E * N)) = Some r \<longrightarrow>
            (\<forall>(k, t, d) \<in> set (pressureLayers (st_out r)).
               t = tAt cfg k
             \<and> d ! (n div N) ! (n mod N) = (if k = 0 then 0 else sin (2 * pi * tAt cfg (k - 1)))))
       \<and> map_option (\<lambda>r. pressureLayers (st_out r)) (rungeKutta ops cfg m (zeroField (E * N)))
           = map_option (\<lambda>r. pressureLayers (st_out r)) (forwardEuler ops cfg m (zeroField (E * N)))"
proof (intro conjI allI impI)
  let ?u = "zeroField (E * N)"
  let ?idx = "sourceIndices ops (st_mesh (initState ops cfg m ?u)) cfg"
  have shape: "length ?u = 4" "\<forall>eq<4. length (?u ! eq) = E * N" by simp_all
  have n': "n \<in> set (?idx ! 0)" using n(1) by (simp add: initState_def)
  note su = zero_residual_states[OF zr sz shape refl, of cfg m]
  have val: "injected cfg ?idx ?u (Suc j) ! 0 ! n = sin (2 * pi * tAt cfg j)"
    if "tAt cfg j \<le> timeEnd cfg" for j
    using that dur n(2) by (intro injected_point_source[OF src _ n']) simp_all
  have lay: "\<forall>(k, t, d) \<in> set (pressureLayers (st_out (eulerState ops cfg m ?u K))).
               t = tAt cfg k
             \<and> d ! (n div N) ! (n mod N) = (if k = 0 then 0 else sin (2 * pi * tAt cfg (k - 1)))"
    if K: "\<forall>j<K. tAt cfg j \<le> timeEnd cfg" for K
  proof -
    note l = zero_residual_layers(1)[OF zr sz shape refl, of cfg m K]
    show ?thesis
    proof (clarify, intro conjI)
      fix k t d assume "(k, t, d) \<in> set (pressureLayers (st_out (eulerState ops cfg m ?u K)))"
      then have k: "k < K" and t: "t = tAt cfg k"
        and d: "d = pressureLayer E N (injected cfg ?idx ?u k)"
        unfolding l by auto
      show "t = tAt cfg k" by (rule t)
      have dn: "d ! (n div N) ! (n mod N) = injected cfg ?idx ?u k ! 0 ! n"
        unfolding d using n(2) by (rule pressureLayer_nth)
      show "d ! (n div N) ! (n mod N) = (if k = 0 then 0 else sin (2 * pi * tAt cfg (k - 1)))"
      proof (cases k)
        case 0
        then show ?thesis using dn n(2) by simp
      next
        case (Suc j)
        then have "tAt cfg j \<le> timeEnd cfg" using k K by simp
        from val[OF this] show ?thesis unfolding dn Suc by simp
      qed
    qed
  qed
  {
    fix k assume k: "tAt cfg k \<le> timeEnd cfg"
    show "st_u (eulerState ops cfg m ?u (Suc k)) ! 0 ! n = sin (2 * pi * tAt cfg k)"
      unfolding su by (rule val[OF k])
    show "st_u (rkState ops cfg m ?u (Suc k)) ! 0 ! n = sin (2 * pi * tAt cfg k)"
      unfolding su by (rule val[OF k])
  }
  {
    fix K assume "\<forall>j<K. tAt cfg j \<le> timeEnd cfg"
    then show "\<forall>(k, t, d) \<in> set (pressureLayers (st_out (eulerState ops cfg m ?u K))).
               t = tAt cfg k
             \<and> d ! (n div N) ! (n mod N) = (if k = 0 then 0 else sin (2 * pi * tAt cfg (k - 1)))"
      by (rule lay)
  }
  {
    fix K
    show "pressureLayers (st_out (rkState ops cfg m ?u K))
        = pressureLayers (st_out (eulerState ops cfg m ?u K))"
      using zero_residual_layers[OF zr sz shape refl, of cfg m K] by simp
  }
  {
    fix r assume "forwardEuler ops cfg m ?u = Some r"
    from forwardEuler_SomeD[OF this] obtain K
      where r: "r = saveToFile cfg (eulerState ops cfg m ?u K)"
        and K: "\<forall>j<K. tAt cfg j \<le> timeEnd cfg" by blast
    have "pressureLayers (st_out r) = pressureLayers (st_out (eulerState ops cfg m ?u K))"
      unfolding r by (simp add: saveToFile_def pressureLayers_append)
    then show "\<forall>(k, t, d) \<in> set (pressureLayers (st_out r)).
               t = tAt cfg k
             \<and> d ! (n div N) ! (n mod N) = (if k = 0 then 0 else sin (2 * pi * tAt cfg (k - 1)))"
      using lay[OF K] by simp
  }
  show "map_option (\<lambda>r. pressureLayers (st_out r)) (rungeKutta ops cfg m ?u)
      = map_option (\<lambda>r. pressureLayers (st_out r)) (forwardEuler ops cfg m ?u)"
    by (rule integrators_same_layers[OF zr sz shape])
qed

lemma cfgPoint_ts: "tFrom cfgPoint (timeStart cfgPoint) (Suc 2) = [0, 1 / 4, 1 / 2]"
  by (simp add: cfgPoint_def mkConfig_def eval_nat_numeral) (simp add: dbl_eval)

lemma cfgPoint_count:
  "(\<forall>j<2. tAt cfgPoint j \<le> timeEnd cfgPoint) \<and> \<not> tAt cfgPoint 2 \<le> timeEnd cfgPoint"
  by (rule loop_count_eval[OF cfgPoint_ts]) (simp_all add: cfgPoint_def mkConfig_def)

lemma cfgPoint_due: "dueFrom cfgPoint 0 0 2 = [0, Suc 0]"
  by (simp add: cfgPoint_def mkConfig_def eval_nat_numeral) (simp add: dbl_eval)

lemma cfgPoint_tAt: "tAt cfgPoint 0 = 0" "tAt cfgPoint (Suc 0) = 1 / 4"
  by (simp_all add: cfgPoint_def mkConfig_def) (simp add: dbl_eval)

lemma cfgPoint_idx: "sourceIndices (zeroMesh 1 1) () cfgPoint = [[0]]"
  by (simp add: sourceIndices_def inSource_def zeroMesh_def cfgPoint_def mkConfig_def
      dsub_def dsq_def dadd_def dbl_small)

lemma zeroMesh_hyps:
  "zeroResidual (zeroMesh E N) N"
  "\<forall>m'. getElNum (zeroMesh E N) m' = E \<and> getElNumNodes (zeroMesh E N) m' = N"
  by (simp_all add: zeroResidual_def zeroMesh_def)

theorem point_source_snapshots_witness:
  "st_u (eulerState (zeroMesh 1 1) cfgPoint () (zeroField 1) 2) ! 0 ! 0 = 1
   \<and> st_u (rkState (zeroMesh 1 1) cfgPoint () (zeroField 1) 2) ! 0 ! 0 = 1
   \<and> pressureLayers (st_out (rkState (zeroMesh 1 1) cfgPoint () (zeroField 1) 2))
       = pressureLayers (st_out (eulerState (zeroMesh 1 1) cfgPoint () (zeroField 1) 2))
   \<and> map_option (\<lambda>r. pressureLayers (st_out r)) (rungeKutta (zeroMesh 1 1) cfgPoint () (zeroField 1))
       = map_option (\<lambda>r. pressureLayers (st_out r)) (forwardEuler (zeroMesh 1 1) cfgPoint () (zeroField 1))"
proof -
  let ?src = "[0, 0, 0, 0, 1, 1, 1, 0, 1000 :: real]"
  have src: "sources cfgPoint = [?src]" "?src ! 5 = 1" "?src ! 6 = 1" "?src ! 7 = 0"
    "timeEnd cfgPoint < ?src ! 8"
    by (simp_all add: cfgPoint_def mkConfig_def)
  have "precomputeMassMatrix (zeroMesh 1 1) () = ()" by simp
  then have n: "0 \<in> set (sourceIndices (zeroMesh 1 1) (precomputeMassMatrix (zeroMesh 1 1) ()) cfgPoint ! 0)"
    "(0::nat) < 1 * 1"
    by (simp_all only: cfgPoint_idx) simp_all
  note p = point_source_snapshots[OF zeroMesh_hyps[of 1 1] src n]
  have t: "tAt cfgPoint (Suc 0) \<le> timeEnd cfgPoint"
    unfolding cfgPoint_tAt by (simp add: cfgPoint_def mkConfig_def)
  have s1: "sin (2 * pi * tAt cfgPoint (Suc 0)) = 1"
    unfolding cfgPoint_tAt by simp
  have eqs: "(1::nat) * 1 = 1" "Suc (Suc 0) = 2" by simp_all
  note a = p[THEN conjunct1, rule_format, OF t, unfolded s1 eqs]
  note b = p[THEN conjunct2, THEN conjunct2, THEN conjunct1, rule_format, of 2, unfolded eqs]
  note c = p[THEN conjunct2, THEN conjunct2, THEN conjunct2, THEN conjunct2, unfolded eqs]
  show ?thesis using a b c by blast
qed

lemma srcMesh_idx: "sourceIndices srcMesh () cfgPoint = [[0]]"
  by (simp add: sourceIndices_def inSource_def srcMesh_def cfgPoint_def mkConfig_def
      dsub_def dsq_def dadd_def dbl_small eval_nat_numeral)

lemma srcMesh_euler:
  "snd (snd (eulerUpdate srcMesh cfgPoint (initGlobals srcMesh ()) ()
      (st_Flux (initState srcMesh cfgPoint () (zeroField 2))) (zeroField 2)))
     = replicate 4 [1 / 4, 0]"
  by code_simp

lemma srcMesh_rk:
  "snd (snd (rkUpdate srcMesh cfgPoint (initGlobals srcMesh ()) ()
      (st_Flux (initState srcMesh cfgPoint () (zeroField 2))) (zeroField 2)))
     = replicate 4 [1745 / 6144, 0]"
  by code_simp

text \<open>
  C5 as stated fails, for two reasons.
  \<^item> One point source (amplitude 1, frequency 1, phase 0, duration 1000) on a one-node mesh
    with zero stiffness and flux, time step and snapshot rate 0.25 on [0, 0.25]: both
    integrators emit the layers of step 0 (time 0) and step 1 (time 0.25). The layer of
    time 0.25 holds 0 at the source node, the value \<open>sin(2 pi 0)\<close> injected in the
    iteration before, whereas \<open>sin(2 pi 0.25) = 1\<close>.
  \<^item> The same run on \<open>srcMesh\<close>, whose mass matrices are the identity and whose stiffness
    and flux vectors are zero away from the source, on element 1, but not on the source's
    own element 0: the update that follows the injection changes the source node, the layer
    of time 0.25 holds 1/4 there under \<^verbatim>\<open>forwardEuler\<close> and 1745/6144 under
    \<^verbatim>\<open>rungeKutta\<close>. Zero stiffness and flux away from the source are not enough.
\<close>

theorem point_source_snapshots_counterexample:
  "map_option (\<lambda>r. pressureLayers (st_out r)) (forwardEuler (zeroMesh 1 1) cfgPoint () (zeroField 1))
     = Some [(0, 0, [[0]]), (1, 1 / 4, [[0]])]
   \<and> map_option (\<lambda>r. pressureLayers (st_out r)) (rungeKutta (zeroMesh 1 1) cfgPoint () (zeroField 1))
     = Some [(0, 0, [[0]]), (1, 1 / 4, [[0]])]
   \<and> sin (2 * pi * (1 / 4)) = 1
   \<and> (\<forall>F v. getElStiffVector srcMesh () 1 F v = [0])
   \<and> (\<forall>el. getElFlux srcMesh () el = [0] \<and> elMassMatrix srcMesh () el = [1])
   \<and> sourceIndices srcMesh () cfgPoint = [[0]]
   \<and> map_option (\<lambda>r. pressureLayers (st_out r)) (forwardEuler srcMesh cfgPoint () (zeroField 2))
     = Some [(0, 0, [[0], [0]]), (1, 1 / 4, [[1 / 4], [0]])]
   \<and> map_option (\<lambda>r. pressureLayers (st_out r)) (rungeKutta srcMesh cfgPoint () (zeroField 2))
     = Some [(0, 0, [[0], [0]]), (1, 1 / 4, [[1745 / 6144], [0]])]"
proof -
  let ?u = "zeroField 1"
  let ?idx = "sourceIndices (zeroMesh 1 1) (st_mesh (initState (zeroMesh 1 1) cfgPoint () ?u)) cfgPoint"
  have "st_mesh (initState (zeroMesh 1 1) cfgPoint () ?u) = ()" by simp
  then have idx: "?idx = [[0]]" by (simp only: cfgPoint_idx)
  have shape: "length ?u = 4" "\<forall>eq<4. length (?u ! eq) = 1 * 1" by simp_all
  have e: "forwardEuler (zeroMesh 1 1) cfgPoint () ?u
      = Some (saveToFile cfgPoint (eulerState (zeroMesh 1 1) cfgPoint () ?u 2))"
    using cfgPoint_count by (intro forwardEuler_eq) simp_all
  have k: "rungeKutta (zeroMesh 1 1) cfgPoint () ?u
      = Some (saveToFile cfgPoint (rkState (zeroMesh 1 1) cfgPoint () ?u 2))"
    using cfgPoint_count by (intro rungeKutta_eq) simp_all
  have i0: "injected cfgPoint [[0]] ?u 0 = ?u" by simp
  have i1: "injected cfgPoint [[0]] ?u (Suc 0) = ?u"
    by (simp add: updateSource_def injectSource_def cfgPoint_def mkConfig_def zeroField_def
        eval_nat_numeral)
  have p: "pressureLayer 1 1 ?u = [[0]]"
    by (simp add: pressureLayer_def zeroField_def)
  note z = zero_residual_layers[OF zeroMesh_hyps[of 1 1] shape refl, of cfgPoint "()" 2]
  have zE: "pressureLayers (st_out (eulerState (zeroMesh 1 1) cfgPoint () ?u 2))
      = [(0, 0, [[0]]), (Suc 0, 1 / 4, [[0]])]"
    unfolding z(1) idx due_eval cfgPoint_due
    by (simp only: list.map i0 i1 p cfgPoint_tAt)
  have zK: "pressureLayers (st_out (rkState (zeroMesh 1 1) cfgPoint () ?u 2))
      = [(0, 0, [[0]]), (Suc 0, 1 / 4, [[0]])]"
    unfolding z(2) idx due_eval cfgPoint_due
    by (simp only: list.map i0 i1 p cfgPoint_tAt)
  have A: "map_option (\<lambda>r. pressureLayers (st_out r)) (forwardEuler (zeroMesh 1 1) cfgPoint () ?u)
        = Some [(0, 0, [[0]]), (1, 1 / 4, [[0]])]
      \<and> map_option (\<lambda>r. pressureLayers (st_out r)) (rungeKutta (zeroMesh 1 1) cfgPoint () ?u)
        = Some [(0, 0, [[0]]), (1, 1 / 4, [[0]])]
      \<and> sin (2 * pi * (1 / 4)) = 1"
    using zE zK e k by simp
  let ?v = "zeroField 2"
  let ?s0 = "initState srcMesh cfgPoint () ?v"
  have sz: "\<forall>m'. getElNum srcMesh m' = 2 \<and> getElNumNodes srcMesh m' = 1"
    by (simp add: srcMesh_def)
  have mesh: "(\<forall>F v. getElStiffVector srcMesh () 1 F v = [0])
      \<and> (\<forall>el. getElFlux srcMesh () el = [0] \<and> elMassMatrix srcMesh () el = [1])"
    by (simp add: srcMesh_def)
  have s0: "st_mesh ?s0 = ()" "st_t ?s0 = 0" "st_u ?s0 = ?v"
    by (simp_all add: initState_def cfgPoint_def mkConfig_def)
  have inj: "updateSource cfgPoint [[0]] 0 ?v = ?v"
    by (simp add: updateSource_def injectSource_def cfgPoint_def mkConfig_def zeroField_def
        eval_nat_numeral)
  have uE: "st_u (eulerState srcMesh cfgPoint () ?v (Suc 0)) = replicate 4 [1 / 4, 0]"
    unfolding eulerState_Suc state_0 eulerIter_u s0 srcMesh_idx inj by (rule srcMesh_euler)
  have uK: "st_u (rkState srcMesh cfgPoint () ?v (Suc 0)) = replicate 4 [1745 / 6144, 0]"
    unfolding rkState_Suc state_0 rkIter_u s0 srcMesh_idx inj by (rule srcMesh_rk)
  have u0: "st_u (eulerState srcMesh cfgPoint () ?v 0) = ?v"
    "st_u (rkState srcMesh cfgPoint () ?v 0) = ?v"
    by (simp_all add: initState_def)
  have pl: "pressureLayer 2 1 ?v = [[0], [0]]"
    "pressureLayer 2 1 (replicate 4 [1 / 4, 0]) = [[1 / 4], [0]]"
    "pressureLayer 2 1 (replicate 4 [1745 / 6144, 0]) = [[1745 / 6144], [0]]"
    by (simp_all add: pressureLayer_def zeroField_def eval_nat_numeral)
  note y = state_layers[OF sz, of cfgPoint "()" ?v 2]
  have yE: "pressureLayers (st_out (eulerState srcMesh cfgPoint () ?v 2))
      = [(0, 0, [[0], [0]]), (Suc 0, 1 / 4, [[1 / 4], [0]])]"
    unfolding y(1) due_eval cfgPoint_due
    by (simp only: list.map u0 uE pl cfgPoint_tAt)
  have yK: "pressureLayers (st_out (rkState srcMesh cfgPoint () ?v 2))
      = [(0, 0, [[0], [0]]), (Suc 0, 1 / 4, [[1745 / 6144], [0]])]"
    unfolding y(2) due_eval cfgPoint_due
    by (simp only: list.map u0 uK pl cfgPoint_tAt)
  have e': "forwardEuler srcMesh cfgPoint () ?v
      = Some (saveToFile cfgPoint (eulerState srcMesh cfgPoint () ?v 2))"
    using cfgPoint_count by (intro forwardEuler_eq) simp_all
  have k': "rungeKutta srcMesh cfgPoint () ?v
      = Some (saveToFile cfgPoint (rkState srcMesh cfgPoint () ?v 2))"
    using cfgPoint_count by (intro rungeKutta_eq) simp_all
  have B: "map_option (\<lambda>r. pressureLayers (st_out r)) (forwardEuler srcMesh cfgPoint () ?v)
        = Some [(0, 0, [[0], [0]]), (1, 1 / 4, [[1 / 4], [0]])]
      \<and> map_option (\<lambda>r. pressureLayers (st_out r)) (rungeKutta srcMesh cfgPoint () ?v)
        = Some [(0, 0, [[0], [0]]), (1, 1 / 4, [[1745 / 6144], [0]])]"
    using yE yK e' k' by simp
  show ?thesis
    using A mesh srcMesh_idx B by blast
qed

section \<open>C7: the duration is compared with the simulated time\<close>

lemma cfgLate_idx: "sourceIndices (zeroMesh 1 1) () cfgLate = [[0]]"
  by (simp add: sourceIndices_def inSource_def zeroMesh_def cfgLate_def mkConfig_def
      dsub_def dsq_def dadd_def dbl_small)

text \<open>
  C7 as stated fails when the run does not start at time 0. The claim lets a source
  inject while its elapsed run time is below its duration. In \<open>cfgLate\<close> the run starts at
  \<^verbatim>\<open>timeStart = 0.25\<close> with a source of duration 0.125, amplitude 1, frequency 1 and phase 0
  on node 0. At the first iteration no run time has elapsed, the value to write would be
  \<open>sin(2 pi 0.25) = 1\<close>, yet the test \<^verbatim>\<open>t < duration\<close> of lines 144 and 253 compares the
  simulated time 0.25 with 0.125: nothing is written, and the pressure at node 0 is still
  0 after the iteration under both integrators.
\<close>

theorem source_injection_counterexample:
  "st_t (eulerState (zeroMesh 1 1) cfgLate () (zeroField 1) 0) = 1 / 4
   \<and> st_t (rkState (zeroMesh 1 1) cfgLate () (zeroField 1) 0) = 1 / 4
   \<and> st_t (eulerState (zeroMesh 1 1) cfgLate () (zeroField 1) 0) - timeStart cfgLate
       < sources cfgLate ! 0 ! 8
   \<and> 0 \<in> set (sourceIndices (zeroMesh 1 1) () cfgLate ! 0)
   \<and> sources cfgLate ! 0 ! 5
       * sin (2 * pi * sources cfgLate ! 0 ! 6 * (1 / 4) + sources cfgLate ! 0 ! 7) = 1
   \<and> updateSource cfgLate (sourceIndices (zeroMesh 1 1) () cfgLate) (1 / 4) (zeroField 1) ! 0 ! 0 = 0
   \<and> st_u (eulerState (zeroMesh 1 1) cfgLate () (zeroField 1) 1) ! 0 ! 0 = 0
   \<and> st_u (rkState (zeroMesh 1 1) cfgLate () (zeroField 1) 1) ! 0 ! 0 = 0"
proof -
  let ?u = "zeroField 1"
  let ?idx = "sourceIndices (zeroMesh 1 1) (st_mesh (initState (zeroMesh 1 1) cfgLate () ?u)) cfgLate"
  have "st_mesh (initState (zeroMesh 1 1) cfgLate () ?u) = ()" by simp
  then have idx: "?idx = [[0]]" by (simp only: cfgLate_idx)
  have shape: "length ?u = 4" "\<forall>eq<4. length (?u ! eq) = 1 * 1" by simp_all
  have t0: "tAt cfgLate 0 = 1 / 4" "timeStart cfgLate = 1 / 4"
    by (simp_all add: cfgLate_def mkConfig_def)
  have a: "st_t (eulerState (zeroMesh 1 1) cfgLate () ?u 0) = 1 / 4"
    "st_t (rkState (zeroMesh 1 1) cfgLate () ?u 0) = 1 / 4"
    by (simp_all add: initState_def t0)
  have b: "(1 / 4 :: real) - 1 / 4 < sources cfgLate ! 0 ! 8"
    by (simp add: cfgLate_def mkConfig_def)
  have c: "(0::nat) \<in> set ([[0]] ! 0)" by simp
  have d: "sources cfgLate ! 0 ! 5
      * sin (2 * pi * sources cfgLate ! 0 ! 6 * (1 / 4) + sources cfgLate ! 0 ! 7) = 1"
    by (simp add: cfgLate_def mkConfig_def)
  have upd: "updateSource cfgLate [[0]] (1 / 4) ?u = ?u"
    by (simp add: updateSource_def injectSource_def cfgLate_def mkConfig_def)
  have z: "?u ! 0 ! 0 = (0::real)" by simp
  note su = zero_residual_states[OF zeroMesh_hyps[of 1 1] shape refl, of cfgLate "()" "Suc 0"]
  have inj1: "injected cfgLate [[0]] ?u (Suc 0) = ?u"
    by (simp only: injected.simps t0 upd)
  have e: "st_u (eulerState (zeroMesh 1 1) cfgLate () ?u 1) ! 0 ! 0 = 0"
    "st_u (rkState (zeroMesh 1 1) cfgLate () ?u 1) ! 0 ! 0 = 0"
    using su unfolding idx inj1 by simp_all
  show ?thesis
    unfolding a t0 cfgLate_idx upd using b c d z e by simp
qed

end
